(* ===== verification/Pinguin_Prelude.thy ===== *)
theory Pinguin_Prelude
  imports Main "HOL-Library.Sublist" "HOL-Library.Char_ord" "HOL-Library.List_Lexorder"
    "HOL-Library.Multiset"
begin

text \<open>
  The prelude of the development: the Go error values and results every component uses, the
  collections of simplification rules, and the generic list lemmas the components share.

  A Go \<open>error\<close> is a value of \<open>go_error\<close>. \<open>ErrorsNew\<close> is \<open>errors.New\<close> (the package-level
  sentinels of the program have pairwise different texts, so equality of the text is identity of
  the sentinel), \<open>Errorf p e s\<close> is \<open>fmt.Errorf\<close> with one \<open>%w\<close> verb (the text before it, the
  wrapped error, the text after it), \<open>TextprotoError\<close> and \<open>DNSError\<close> are the two library
  errors the program inspects with \<open>errors.As\<close>, and \<open>External\<close> is any other library error; the
  text these three carry is the one their \<open>Error\<close> method returns.
  A fallible function returns \<open>go_error + 'a\<close>, \<open>Inl\<close> being the error.
\<close>

named_theorems go_error_simps \<open>how errors.Is and errors.As see a wrapped error\<close>
named_theorems norm_simps \<open>normalisers of names and keys applied to their own results\<close>
named_theorems frame_simps \<open>fields an operation leaves alone\<close>
named_theorems io_success \<open>what a successful run of sequenced code means\<close>
named_theorems io_keeps_intros \<open>code that leaves a component of the state alone\<close>

datatype go_error =
    ErrorsNew string
  | Errorf string go_error string
  | TextprotoError int string
  | DNSError bool string
  | External string

type_synonym 'a result = "go_error + 'a"
type_synonym time = int
type_synonym duration = int
type_synonym bytes = string

fun errors_is :: "go_error \<Rightarrow> go_error \<Rightarrow> bool" where
  "errors_is (Errorf p e s) t = (Errorf p e s = t \<or> errors_is e t)"
| "errors_is e t = (e = t)"

fun err_text :: "go_error \<Rightarrow> string" where
  "err_text (ErrorsNew m) = m"
| "err_text (Errorf p e s) = p @ err_text e @ s"
| "err_text (TextprotoError c m) = m"
| "err_text (DNSError b m) = m"
| "err_text (External m) = m"

fun as_textproto :: "go_error \<Rightarrow> int option" where
  "as_textproto (TextprotoError c m) = Some c"
| "as_textproto (Errorf p e s) = as_textproto e"
| "as_textproto e = None"

fun as_dns_error :: "go_error \<Rightarrow> bool option" where
  "as_dns_error (DNSError nf m) = Some nf"
| "as_dns_error (Errorf p e s) = as_dns_error e"
| "as_dns_error e = None"

text \<open>The zero value of \<open>time.Time\<close>, January 1 of year 1, in nanoseconds relative to 1970.\<close>

definition zero_time :: time where
  "zero_time = - 62135596800 * 1000000000"

abbreviation second :: duration where
  "second \<equiv> 1000000000"

definition is_ok :: "'a result \<Rightarrow> bool" where
  "is_ok r \<longleftrightarrow> (case r of Inl _ \<Rightarrow> False | Inr _ \<Rightarrow> True)"

lemma is_ok_simps [simp]: "is_ok (Inr x)" "\<not> is_ok (Inl e)"
  by (simp_all add: is_ok_def)

lemma is_ok_iff: "is_ok r \<longleftrightarrow> (\<exists>x. r = Inr x)"
  by (cases r) simp_all

lemma errors_is_new [go_error_simps]:
  "errors_is e (ErrorsNew t) \<longleftrightarrow>
     (case e of ErrorsNew m \<Rightarrow> m = t | Errorf p e' s \<Rightarrow> errors_is e' (ErrorsNew t) | _ \<Rightarrow> False)"
  by (cases e) simp_all

lemma errors_is_wrap [simp]: "errors_is e t \<Longrightarrow> errors_is (Errorf p e s) t"
  by simp

lemma errors_is_refl [simp]: "errors_is e e"
  by (cases e) simp_all

text \<open>Reading a Go map at a missing key gives the zero value of its element type.\<close>

definition go_get :: "('k \<rightharpoonup> 'v) \<Rightarrow> 'v \<Rightarrow> 'k \<Rightarrow> 'v" where
  "go_get m z k = (case m k of None \<Rightarrow> z | Some v \<Rightarrow> v)"

lemma go_get_simps [simp]:
  "go_get Map.empty z k = z"
  "go_get (m(k \<mapsto> v)) z k = v"
  "k' \<noteq> k \<Longrightarrow> go_get (m(k := w)) z k' = go_get m z k'"
  "go_get (m(k := None)) z k = z"
  by (simp_all add: go_get_def)

subsection \<open>Lists\<close>

text \<open>
  Removing later duplicates by a \<open>seen\<close> map while keeping the order, the loop
  \<open>if _, exists := seen[x]; exists { continue }\<close> that several components use.
\<close>

fun dedup_seen :: "'a set \<Rightarrow> 'a list \<Rightarrow> 'a list" where
  "dedup_seen seen [] = []"
| "dedup_seen seen (x # xs) =
     (if x \<in> seen then dedup_seen seen xs else x # dedup_seen (insert x seen) xs)"

lemma set_dedup_seen: "set (dedup_seen seen xs) = set xs - seen"
  by (induction seen xs rule: dedup_seen.induct) auto

lemma distinct_dedup_seen: "distinct (dedup_seen seen xs)"
  by (induction seen xs rule: dedup_seen.induct) (auto simp: set_dedup_seen)

lemma dedup_seen_subseq: "subseq (dedup_seen seen xs) xs"
  by (induction seen xs rule: dedup_seen.induct) auto

lemma dedup_seen_id: "distinct xs \<Longrightarrow> set xs \<inter> seen = {} \<Longrightarrow> dedup_seen seen xs = xs"
  by (induction seen xs rule: dedup_seen.induct) auto

lemma set_subseq: "subseq xs ys \<Longrightarrow> set xs \<subseteq> set ys"
  by (induction rule: list_emb.induct) auto

lemma sorted_wrt_subseq: "subseq xs ys \<Longrightarrow> sorted_wrt R ys \<Longrightarrow> sorted_wrt R xs"
  by (induction rule: list_emb.induct) (auto dest: set_subseq)

lemma sorted_start:
  fixes ts :: "int list"
  assumes "sorted (ts @ [now])"
  obtains t where "sorted (t # ts)" "last (t # ts) \<le> now"
proof (cases ts)
  case Nil
  with that[of now] show thesis by simp
next
  case (Cons t us)
  with assms have "sorted (t # ts)" "last (t # ts) \<le> now" by (auto simp: sorted_append)
  with that show thesis .
qed

lemma length_filter_le_filter:
  "(\<And>x. x \<in> set xs \<Longrightarrow> P x \<Longrightarrow> Q x) \<Longrightarrow> length (filter P xs) \<le> length (filter Q xs)"
  by (induction xs) (auto simp: le_SucI)

lemma sorted_wrt_dropWhile: "sorted_wrt P xs \<Longrightarrow> sorted_wrt P (dropWhile Q xs)"
  by (induction xs) auto

lemma sorted_wrt_take: "sorted_wrt P xs \<Longrightarrow> sorted_wrt P (take n xs)"
  by (metis append_take_drop_id sorted_wrt_append)

lemma sorted_wrt_drop: "sorted_wrt P xs \<Longrightarrow> sorted_wrt P (drop n xs)"
  by (metis append_take_drop_id sorted_wrt_append)

lemma filter_eq_dropWhile_sorted:
  fixes c :: int
  assumes "sorted xs"
  shows "dropWhile (\<lambda>t. t \<le> c) xs = filter (\<lambda>t. c < t) xs"
  using assms
proof (induction xs)
  case Nil
  then show ?case by simp
next
  case (Cons x xs)
  show ?case
  proof (cases "x \<le> c")
    case True
    with Cons show ?thesis by simp
  next
    case False
    with Cons.prems have "\<forall>y \<in> set xs. c < y" by auto
    with False show ?thesis by simp
  qed
qed

text \<open>
  \<open>insort_by\<close> and \<open>sort_by\<close> are a stable sort under a comparison function, for
  \<open>sort.Slice\<close> on keys that are different and \<open>sort.SliceStable\<close>.
\<close>

fun insort_by :: "('a \<Rightarrow> 'a \<Rightarrow> bool) \<Rightarrow> 'a \<Rightarrow> 'a list \<Rightarrow> 'a list" where
  "insort_by le x [] = [x]"
| "insort_by le x (y # ys) = (if le x y then x # y # ys else y # insort_by le x ys)"

definition sort_by :: "('a \<Rightarrow> 'a \<Rightarrow> bool) \<Rightarrow> 'a list \<Rightarrow> 'a list" where
  "sort_by le xs = foldr (insort_by le) xs []"

definition total_preorder :: "('a \<Rightarrow> 'a \<Rightarrow> bool) \<Rightarrow> bool" where
  "total_preorder le \<longleftrightarrow> (\<forall>x y. le x y \<or> le y x) \<and> (\<forall>x y z. le x y \<longrightarrow> le y z \<longrightarrow> le x z)"

lemma mset_insort_by [simp]: "mset (insort_by le x ys) = add_mset x (mset ys)"
  by (induction ys) auto

lemma mset_sort_by [simp]: "mset (sort_by le xs) = mset xs"
  by (induction xs) (auto simp: sort_by_def)

lemma set_sort_by [simp]: "set (sort_by le xs) = set xs"
  by (metis mset_sort_by set_mset_mset)

lemma length_sort_by [simp]: "length (sort_by le xs) = length xs"
  by (metis mset_sort_by size_mset)

lemma sorted_insort_by:
  assumes "total_preorder le" "sorted_wrt le ys"
  shows "sorted_wrt le (insort_by le x ys)"
  using assms(2)
proof (induction ys)
  case Nil
  then show ?case by simp
next
  case (Cons y ys)
  have "set (insort_by le x ys) = insert x (set ys)"
    by (metis mset_insort_by set_mset_add_mset_insert set_mset_mset)
  then show ?case
    using Cons assms(1) by (auto simp: total_preorder_def)
qed

lemma sorted_sort_by: "total_preorder le \<Longrightarrow> sorted_wrt le (sort_by le xs)"
  by (induction xs) (auto simp: sort_by_def intro: sorted_insort_by)

text \<open>Two sorted lists with the same elements are equal when the order is antisymmetric on them.\<close>

lemma sorted_mset_unique:
  assumes "\<And>x y. x \<in> set xs \<Longrightarrow> y \<in> set xs \<Longrightarrow> le x y \<Longrightarrow> le y x \<Longrightarrow> x = y"
    and "\<And>x. x \<in> set xs \<Longrightarrow> le x x"
    and "mset xs = mset ys" "sorted_wrt le xs" "sorted_wrt le ys"
  shows "xs = ys"
  using assms
proof (induction xs arbitrary: ys)
  case Nil
  then show ?case by simp
next
  case (Cons x xs)
  from Cons.prems(3) obtain y ys' where ys: "ys = y # ys'"
    by (cases ys) auto
  have set_eq: "set (x # xs) = set ys"
    using Cons.prems(3) by (metis set_mset_mset)
  have "x = y"
  proof (rule ccontr)
    assume "x \<noteq> y"
    with set_eq ys have "x \<in> set ys'" "y \<in> set xs" by auto
    with Cons.prems(4,5) ys have "le x y" "le y x" by auto
    with \<open>y \<in> set xs\<close> Cons.prems(1)[of x y] \<open>x \<noteq> y\<close> show False by auto
  qed
  moreover have "xs = ys'"
    using Cons.prems ys \<open>x = y\<close> by (intro Cons.IH) auto
  ultimately show ?case using ys by simp
qed

subsection \<open>Sequencing fallible stateful code\<close>

text \<open>
  \<open>('w, 'a) io\<close> is code that may change a state \<open>'w\<close> and returns a value or an error; the state
  changes made before an error stay. \<open>io_bind\<close> is the early return
  \<open>if err != nil { return err }\<close>, \<open>io_wrap\<close> the same with the error wrapped by
  \<open>fmt.Errorf\<close>, and \<open>io_each\<close> a loop that returns the first error.
\<close>

type_synonym ('w, 'a) io = "'w \<Rightarrow> 'a result \<times> 'w"

definition io_return :: "'a \<Rightarrow> ('w, 'a) io" where
  "io_return x w = (Inr x, w)"

definition io_fail :: "go_error \<Rightarrow> ('w, 'a) io" where
  "io_fail e w = (Inl e, w)"

definition io_bind :: "('w, 'a) io \<Rightarrow> ('a \<Rightarrow> ('w, 'b) io) \<Rightarrow> ('w, 'b) io" where
  "io_bind m f w = (case m w of (Inl e, w') \<Rightarrow> (Inl e, w') | (Inr x, w') \<Rightarrow> f x w')"

definition io_wrap :: "(go_error \<Rightarrow> go_error) \<Rightarrow> ('w, 'a) io \<Rightarrow> ('w, 'a) io" where
  "io_wrap g m w = (case m w of (Inl e, w') \<Rightarrow> (Inl (g e), w') | (Inr x, w') \<Rightarrow> (Inr x, w'))"

fun io_each :: "('a \<Rightarrow> ('w, unit) io) \<Rightarrow> 'a list \<Rightarrow> ('w, unit) io" where
  "io_each f [] = io_return ()"
| "io_each f (x # xs) = io_bind (f x) (\<lambda>_. io_each f xs)"

text \<open>
  \<open>io_defer m c\<close> is a body with a deferred call, \<open>io_ignore c\<close> a call whose error is dropped,
  \<open>io_try m\<close> a call whose error is kept as a value, \<open>io_pure f\<close> a step that cannot fail.
\<close>

definition io_try :: "('w, 'a) io \<Rightarrow> ('w, 'a result) io" where
  "io_try m w = (case m w of (r, w') \<Rightarrow> (Inr r, w'))"

definition io_pure :: "('w \<Rightarrow> 'a \<times> 'w) \<Rightarrow> ('w, 'a) io" where
  "io_pure f w = (case f w of (x, w') \<Rightarrow> (Inr x, w'))"

definition io_lift :: "'a result \<Rightarrow> ('w, 'a) io" where
  "io_lift r w = (r, w)"

definition io_defer :: "('w, 'a) io \<Rightarrow> ('w, 'b) io \<Rightarrow> ('w, 'a) io" where
  "io_defer m c w = (case m w of (r, w') \<Rightarrow> (r, snd (c w')))"

definition io_ignore :: "('w, 'a) io \<Rightarrow> ('w, unit) io" where
  "io_ignore c w = (Inr (), snd (c w))"

lemma io_bind_Inr [io_success]: "io_bind m f w = (Inr y, w'') \<longleftrightarrow> (\<exists>x w'. m w = (Inr x, w') \<and> f x w' = (Inr y, w''))"
  by (auto simp: io_bind_def split: prod.splits sum.splits)

lemma io_bind_InrE:
  assumes "io_bind m f w = (Inr y, w'')"
  obtains x w' where "m w = (Inr x, w')" "f x w' = (Inr y, w'')"
  using assms by (auto simp: io_bind_Inr)

lemma io_wrap_Inr [simp, io_success]: "io_wrap g m w = (Inr y, w') \<longleftrightarrow> m w = (Inr y, w')"
  by (auto simp: io_wrap_def split: prod.splits sum.splits)

lemma io_return_Inr [simp, io_success]: "io_return x w = (Inr y, w') \<longleftrightarrow> y = x \<and> w' = w"
  by (auto simp: io_return_def)

lemma io_fail_Inr [simp, io_success]: "io_fail e w \<noteq> (Inr y, w')"
  by (simp add: io_fail_def)

lemma io_try_Inr [io_success]: "io_try m w = (Inr r, w') \<longleftrightarrow> m w = (r, w')"
  by (auto simp: io_try_def split: prod.splits)

lemma io_pure_Inr [io_success]: "io_pure f w = (Inr x, w') \<longleftrightarrow> f w = (x, w')"
  by (auto simp: io_pure_def split: prod.splits)

lemma io_lift_Inr [io_success]: "io_lift r w = (Inr x, w') \<longleftrightarrow> r = Inr x \<and> w' = w"
  by (auto simp: io_lift_def)

lemma io_never_fails [simp]: "io_try m w \<noteq> (Inl e, w')" "io_pure f w \<noteq> (Inl e, w')" "io_return x w \<noteq> (Inl e, w')"
  by (auto simp: io_try_def io_pure_def io_return_def split: prod.splits)

lemma io_bind_Inl:
  "io_bind m f w = (Inl e, w'') \<longleftrightarrow> m w = (Inl e, w'') \<or> (\<exists>x w'. m w = (Inr x, w') \<and> f x w' = (Inl e, w''))"
  by (auto simp: io_bind_def split: prod.splits sum.splits)

text \<open>A loop that succeeds keeps what every successful round keeps.\<close>

lemma io_each_invariant:
  assumes "io_each f xs w = (Inr (), w')" "I [] w"
    and "\<And>ys x zs v v'. xs = ys @ x # zs \<Longrightarrow> I ys v \<Longrightarrow> f x v = (Inr (), v') \<Longrightarrow> I (ys @ [x]) v'"
  shows "I xs w'"
proof -
  have "I (done @ todo) w'"
    if "io_each f todo v = (Inr (), w')" "I done v" "xs = done @ todo" for "done" todo v
    using that
  proof (induction todo arbitrary: "done" v)
    case Nil
    then show ?case by simp
  next
    case (Cons x todo)
    from Cons.prems(1) obtain v' where v': "f x v = (Inr (), v')" "io_each f todo v' = (Inr (), w')"
      by (auto simp: io_bind_Inr)
    from Cons.IH[OF v'(2), of "done @ [x]"] assms(3)[OF Cons.prems(3,2) v'(1)] Cons.prems(3) show ?case
      by simp
  qed
  from this[OF assms(1,2)] show ?thesis by simp
qed

text \<open>\<open>io_keeps f m\<close>: \<open>m\<close> leaves the component \<open>f\<close> of the state alone, whether it succeeds or fails.\<close>

definition io_keeps :: "('w \<Rightarrow> 'b) \<Rightarrow> ('w, 'a) io \<Rightarrow> bool" where
  "io_keeps f m \<longleftrightarrow> (\<forall>w. f (snd (m w)) = f w)"

lemma io_keepsD: "io_keeps f m \<Longrightarrow> m w = (r, w') \<Longrightarrow> f w' = f w"
  by (metis io_keeps_def snd_conv)

lemma io_keeps_return [io_keeps_intros]: "io_keeps f (io_return x)"
  by (simp add: io_keeps_def io_return_def)

lemma io_keeps_fail [io_keeps_intros]: "io_keeps f (io_fail e)"
  by (simp add: io_keeps_def io_fail_def)

lemma io_keeps_bind [io_keeps_intros]:
  assumes m: "io_keeps f m" and g: "\<And>x. io_keeps f (g x)"
  shows "io_keeps f (io_bind m g)"
  unfolding io_keeps_def
proof
  fix w
  obtain r w' where r: "m w = (r, w')" by fastforce
  show "f (snd (io_bind m g w)) = f w"
    using io_keepsD[OF m r] g r by (cases r) (simp_all add: io_bind_def io_keeps_def)
qed

lemma io_keeps_wrap [io_keeps_intros]:
  assumes m: "io_keeps f m"
  shows "io_keeps f (io_wrap g m)"
  unfolding io_keeps_def
proof
  fix w
  obtain r w' where r: "m w = (r, w')" by fastforce
  show "f (snd (io_wrap g m w)) = f w"
    using io_keepsD[OF m r] r by (cases r) (simp_all add: io_wrap_def)
qed

lemma io_keeps_each [io_keeps_intros]: "(\<And>x. io_keeps f (g x)) \<Longrightarrow> io_keeps f (io_each g xs)"
  by (induction xs) (auto intro: io_keeps_intros)

lemma io_keeps_try [io_keeps_intros]: "io_keeps f m \<Longrightarrow> io_keeps f (io_try m)"
  unfolding io_keeps_def io_try_def by (metis (no_types, lifting) case_prod_conv prod.collapse snd_conv)

lemma io_keeps_lift [io_keeps_intros]: "io_keeps f (io_lift r)"
  by (simp add: io_keeps_def io_lift_def)

lemma io_keeps_if [io_keeps_intros]: "io_keeps f m \<Longrightarrow> io_keeps f m' \<Longrightarrow> io_keeps f (if b then m else m')"
  by simp

end
