(* ===== verification/Go_Strings.thy ===== *)
theory Go_Strings
  imports Pinguin_Prelude
begin

text \<open>
  The functions of Go's \<open>strings\<close>, \<open>strconv\<close> and \<open>unicode/utf8\<close> packages the program calls.
  A Go string is the list of its bytes. \<open>TrimSpace\<close> and \<open>Fields\<close> know the UTF-8 encoding of
  every code point for which \<open>unicode.IsSpace\<close> holds. \<open>ToLower\<close> and \<open>ToUpper\<close> map the ASCII
  letters and leave every other byte as it is: the case mapping of non-ASCII letters is the one
  part of these functions that is not modelled.
\<close>

subsection \<open>White space\<close>

definition space_runes :: "string list" where
  "space_runes =
     [[CHR 0x09], [CHR 0x0A], [CHR 0x0B], [CHR 0x0C], [CHR 0x0D], [CHR 0x20],
      [CHR 0xC2, CHR 0x85], [CHR 0xC2, CHR 0xA0], [CHR 0xE1, CHR 0x9A, CHR 0x80],
      [CHR 0xE2, CHR 0x80, CHR 0x80], [CHR 0xE2, CHR 0x80, CHR 0x81], [CHR 0xE2, CHR 0x80, CHR 0x82],
      [CHR 0xE2, CHR 0x80, CHR 0x83], [CHR 0xE2, CHR 0x80, CHR 0x84], [CHR 0xE2, CHR 0x80, CHR 0x85],
      [CHR 0xE2, CHR 0x80, CHR 0x86], [CHR 0xE2, CHR 0x80, CHR 0x87], [CHR 0xE2, CHR 0x80, CHR 0x88],
      [CHR 0xE2, CHR 0x80, CHR 0x89], [CHR 0xE2, CHR 0x80, CHR 0x8A], [CHR 0xE2, CHR 0x80, CHR 0xA8],
      [CHR 0xE2, CHR 0x80, CHR 0xA9], [CHR 0xE2, CHR 0x80, CHR 0xAF], [CHR 0xE2, CHR 0x81, CHR 0x9F],
      [CHR 0xE3, CHR 0x80, CHR 0x80]]"

definition rune_at :: "string list \<Rightarrow> string \<Rightarrow> string option" where
  "rune_at R s = find (\<lambda>r. r \<noteq> [] \<and> prefix r s) R"

lemma rune_at_Some: "rune_at R s = Some r \<Longrightarrow> r \<in> set R \<and> r \<noteq> [] \<and> prefix r s"
  by (auto simp: rune_at_def find_Some_iff dest: nth_mem)

lemma rune_at_None: "rune_at R s = None \<longleftrightarrow> (\<forall>r \<in> set R. r \<noteq> [] \<longrightarrow> \<not> prefix r s)"
  by (auto simp: rune_at_def find_None_iff)

function trim_runes :: "string list \<Rightarrow> string \<Rightarrow> string" where
  "trim_runes R s = (case rune_at R s of None \<Rightarrow> s | Some r \<Rightarrow> trim_runes R (drop (length r) s))"
  by pat_completeness auto
termination
  by (relation "measure (\<lambda>(R, s). length s)")
    (auto dest!: rune_at_Some simp: prefix_def)

declare trim_runes.simps [simp del]

definition TrimSpace :: "string \<Rightarrow> string" where
  "TrimSpace s = rev (trim_runes (map rev space_runes) (rev (trim_runes space_runes s)))"

lemma trim_runes_suffix: "suffix (trim_runes R s) s"
proof (induction R s rule: trim_runes.induct)
  case (1 R s)
  show ?case
  proof (cases "rune_at R s")
    case None
    then show ?thesis by (simp add: trim_runes.simps)
  next
    case (Some r)
    with 1 have "suffix (trim_runes R (drop (length r) s)) (drop (length r) s)" by simp
    with Some show ?thesis
      by (metis option.simps(5) suffix_drop suffix_order.trans trim_runes.simps)
  qed
qed

lemma rune_at_trim_runes: "rune_at R (trim_runes R s) = None"
proof (induction R s rule: trim_runes.induct)
  case (1 R s)
  then show ?case
    by (cases "rune_at R s") (simp_all add: trim_runes.simps[of R s])
qed

lemma trim_runes_id: "rune_at R s = None \<Longrightarrow> trim_runes R s = s"
  by (simp add: trim_runes.simps)

lemma rune_at_prefix: "rune_at R s = None \<Longrightarrow> prefix t s \<Longrightarrow> rune_at R t = None"
  by (auto simp: rune_at_None dest: prefix_order.trans)

definition trimmed :: "string \<Rightarrow> bool" where
  "trimmed s \<longleftrightarrow> rune_at space_runes s = None \<and> rune_at (map rev space_runes) (rev s) = None"

lemma trimmed_TrimSpace [simp]: "trimmed (TrimSpace s)"
proof -
  let ?l = "trim_runes space_runes s"
  have "prefix (TrimSpace s) ?l"
    unfolding TrimSpace_def
    by (metis rev_rev_ident suffix_to_prefix trim_runes_suffix)
  then have "rune_at space_runes (TrimSpace s) = None"
    using rune_at_prefix rune_at_trim_runes by blast
  then show ?thesis
    by (simp add: trimmed_def TrimSpace_def rune_at_trim_runes)
qed

lemma TrimSpace_id: "trimmed s \<Longrightarrow> TrimSpace s = s"
  by (simp add: TrimSpace_def trimmed_def trim_runes_id)

lemma TrimSpace_idem [simp, norm_simps]: "TrimSpace (TrimSpace s) = TrimSpace s"
  by (simp add: TrimSpace_id)

lemma trimmed_iff: "trimmed s \<longleftrightarrow> TrimSpace s = s"
  by (metis TrimSpace_id trimmed_TrimSpace)

lemma trimmed_Nil [simp]: "trimmed ''''"
  by (simp add: trimmed_def rune_at_def space_runes_def)

lemma TrimSpace_Nil [simp]: "TrimSpace [] = []"
  by (simp add: TrimSpace_id)

lemma TrimSpace_sublist: "sublist (TrimSpace s) s"
proof -
  have "sublist (TrimSpace s) (trim_runes space_runes s)"
    unfolding TrimSpace_def
    by (metis prefix_imp_sublist rev_rev_ident suffix_to_prefix trim_runes_suffix)
  then show ?thesis
    by (meson sublist_order.order.trans suffix_imp_sublist trim_runes_suffix)
qed

lemma set_TrimSpace: "set (TrimSpace s) \<subseteq> set s"
  by (rule set_mono_sublist[OF TrimSpace_sublist])

lemma length_TrimSpace: "length (TrimSpace s) \<le> length s"
  by (rule sublist_length_le[OF TrimSpace_sublist])

subsection \<open>Letter case\<close>

definition lower_byte :: "char \<Rightarrow> char" where
  "lower_byte c = (let n = (of_char c :: nat) in if 65 \<le> n \<and> n \<le> 90 then char_of (n + 32) else c)"

definition upper_byte :: "char \<Rightarrow> char" where
  "upper_byte c = (let n = (of_char c :: nat) in if 97 \<le> n \<and> n \<le> 122 then char_of (n - 32) else c)"

definition ToLower :: "string \<Rightarrow> string" where
  "ToLower s = map lower_byte s"

definition ToUpper :: "string \<Rightarrow> string" where
  "ToUpper s = map upper_byte s"

definition EqualFold :: "string \<Rightarrow> string \<Rightarrow> bool" where
  "EqualFold s t \<longleftrightarrow> ToLower s = ToLower t"

lemma of_char_lower: "(of_char (lower_byte c) :: nat) =
    (let n = of_char c in if 65 \<le> n \<and> n \<le> 90 then n + 32 else n)"
  by (simp add: lower_byte_def Let_def)

lemma lower_byte_idem [simp, norm_simps]: "lower_byte (lower_byte c) = lower_byte c"
  by (auto simp: lower_byte_def Let_def)

lemma ToLower_idem [simp, norm_simps]: "ToLower (ToLower s) = ToLower s"
  by (simp add: ToLower_def)

lemma ToLower_Nil [simp]: "ToLower [] = []"
  by (simp add: ToLower_def)

lemma ToLower_eq_Nil [simp]: "ToLower s = [] \<longleftrightarrow> s = []"
  by (simp add: ToLower_def)

lemma length_ToLower [simp]: "length (ToLower s) = length s"
  by (simp add: ToLower_def)

lemma ToLower_append [simp]: "ToLower (s @ t) = ToLower s @ ToLower t"
  by (simp add: ToLower_def)

text \<open>Bytes that no letter maps to: a white-space byte occurs in the lower-cased string where it
  occurs in the string.\<close>

definition caseless :: "char \<Rightarrow> bool" where
  "caseless c \<longleftrightarrow> (let n = (of_char c :: nat) in \<not> (65 \<le> n \<and> n \<le> 90) \<and> \<not> (97 \<le> n \<and> n \<le> 122))"

lemma lower_byte_caseless: "caseless c \<Longrightarrow> lower_byte x = c \<longleftrightarrow> x = c"
proof -
  assume c: "caseless c"
  have "(of_char (lower_byte x) = (of_char c :: nat)) \<longleftrightarrow> of_char x = (of_char c :: nat)"
    using c by (auto simp: of_char_lower caseless_def Let_def split: if_splits)
  then show ?thesis by simp
qed

lemma caseless_in_ToLower: "caseless c \<Longrightarrow> c \<in> set (ToLower s) \<longleftrightarrow> c \<in> set s"
  unfolding ToLower_def set_map image_iff by (metis lower_byte_caseless)

lemma prefix_ToLower_caseless:
  "\<forall>c \<in> set r. caseless c \<Longrightarrow> prefix r (map lower_byte s) \<longleftrightarrow> prefix r s"
proof (induction r arbitrary: s)
  case Nil
  then show ?case by simp
next
  case (Cons c r)
  show ?case
  proof (cases s)
    case Nil
    then show ?thesis by simp
  next
    case (Cons x t)
    have "c = lower_byte x \<longleftrightarrow> c = x"
      using lower_byte_caseless[of c x] Cons.prems by auto
    with Cons Cons.IH Cons.prems show ?thesis by simp
  qed
qed

lemma space_runes_caseless: "r \<in> set space_runes \<Longrightarrow> c \<in> set r \<Longrightarrow> caseless c"
proof -
  have "\<forall>r \<in> set space_runes. \<forall>c \<in> set r. caseless c"
    by (simp add: space_runes_def caseless_def)
  then show "r \<in> set space_runes \<Longrightarrow> c \<in> set r \<Longrightarrow> caseless c" by blast
qed

lemma trimmed_ToLower [simp]: "trimmed (ToLower s) \<longleftrightarrow> trimmed s"
proof -
  have "rune_at space_runes (map lower_byte s) = None \<longleftrightarrow> rune_at space_runes s = None"
    unfolding rune_at_None by (metis prefix_ToLower_caseless space_runes_caseless)
  moreover have "rune_at (map rev space_runes) (map lower_byte (rev s)) = None \<longleftrightarrow>
      rune_at (map rev space_runes) (rev s) = None"
    unfolding rune_at_None set_map ball_simps
    by (metis prefix_ToLower_caseless set_rev space_runes_caseless)
  ultimately show ?thesis
    by (simp add: trimmed_def ToLower_def rev_map)
qed

lemma TrimSpace_ToLower_TrimSpace [simp, norm_simps]:
  "TrimSpace (ToLower (TrimSpace s)) = ToLower (TrimSpace s)"
  by (simp add: TrimSpace_id)

subsection \<open>Searching and splitting\<close>

definition HasPrefix :: "string \<Rightarrow> string \<Rightarrow> bool" where
  "HasPrefix s p \<longleftrightarrow> prefix p s"

definition TrimPrefix :: "string \<Rightarrow> string \<Rightarrow> string" where
  "TrimPrefix s p = (if prefix p s then drop (length p) s else s)"

definition TrimSuffix :: "string \<Rightarrow> string \<Rightarrow> string" where
  "TrimSuffix s p = (if suffix p s then take (length s - length p) s else s)"

definition TrimRight :: "string \<Rightarrow> char list \<Rightarrow> string" where
  "TrimRight s cutset = rev (dropWhile (\<lambda>c. c \<in> set cutset) (rev s))"

definition Contains :: "string \<Rightarrow> string \<Rightarrow> bool" where
  "Contains s t \<longleftrightarrow> sublist t s"

definition ContainsAny :: "string \<Rightarrow> char list \<Rightarrow> bool" where
  "ContainsAny s cs \<longleftrightarrow> (\<exists>c \<in> set s. c \<in> set cs)"

fun Index :: "string \<Rightarrow> string \<Rightarrow> nat option" where
  "Index [] t = (if t = [] then Some 0 else None)"
| "Index (c # s) t = (if prefix t (c # s) then Some 0 else map_option Suc (Index s t))"

text \<open>\<open>strings.Cut\<close> at a single byte: the text before, the text after, whether it was found.\<close>

definition Cut :: "string \<Rightarrow> char \<Rightarrow> string \<times> string \<times> bool" where
  "Cut s c =
     (case dropWhile (\<lambda>x. x \<noteq> c) s of
        [] \<Rightarrow> (s, [], False)
      | _ # rest \<Rightarrow> (takeWhile (\<lambda>x. x \<noteq> c) s, rest, True))"

fun Split :: "string \<Rightarrow> char \<Rightarrow> string list" where
  "Split [] c = [[]]"
| "Split (x # s) c =
     (if x = c then [] # Split s c
      else (case Split s c of [] \<Rightarrow> [[x]] | p # ps \<Rightarrow> (x # p) # ps))"

fun Join :: "string list \<Rightarrow> string \<Rightarrow> string" where
  "Join [] sep = []"
| "Join [x] sep = x"
| "Join (x # xs) sep = x @ sep @ Join xs sep"

fun take_word :: "string \<Rightarrow> string \<times> string" where
  "take_word [] = ([], [])"
| "take_word (c # s) =
     (if rune_at space_runes (c # s) \<noteq> None then ([], c # s)
      else (let (w, rest) = take_word s in (c # w, rest)))"

lemma take_word_append: "take_word s = (w, rest) \<Longrightarrow> s = w @ rest"
  by (induction s arbitrary: w rest) (auto simp: Let_def split: if_splits prod.splits)

function Fields :: "string \<Rightarrow> string list" where
  "Fields s =
     (case trim_runes space_runes s of
        [] \<Rightarrow> []
      | c # t \<Rightarrow> (let (w, rest) = take_word t in (c # w) # Fields rest))"
  by pat_completeness auto
termination
proof (relation "measure length", goal_cases)
  case 1
  then show ?case by simp
next
  case (2 s c t x w rest)
  from 2 have "length rest \<le> length t"
    by (metis take_word_append length_append le_add2)
  moreover have "length (c # t) \<le> length s"
    using 2(1) trim_runes_suffix[of space_runes s] suffix_length_le by fastforce
  ultimately show ?case by simp
qed

declare Fields.simps [simp del]

lemma Split_nonempty [simp]: "Split s c \<noteq> []"
  by (induction s c rule: Split.induct) (auto split: list.splits)

lemma Join_Split: "Join (Split s c) [c] = s"
proof (induction s c rule: Split.induct)
  case (1 c)
  then show ?case by simp
next
  case (2 x s c)
  obtain p ps where "Split s c = p # ps" by (cases "Split s c") auto
  with 2 show ?case by (cases ps) (auto split: if_splits)
qed

lemma Split_no_sep: "p \<in> set (Split s c) \<Longrightarrow> c \<notin> set p"
  by (induction s c arbitrary: p rule: Split.induct) (fastforce split: list.splits if_splits)+

lemma hd_Split: "hd (Split s c) = takeWhile (\<lambda>x. x \<noteq> c) s"
  by (induction s c rule: Split.induct) (auto split: list.splits)

lemma Split_absent: "c \<notin> set s \<Longrightarrow> Split s c = [s]"
  by (induction s c rule: Split.induct) auto

lemma Cut_found: "Cut s c = (a, b, True) \<longleftrightarrow> s = a @ c # b \<and> c \<notin> set a"
proof
  assume "Cut s c = (a, b, True)"
  then obtain x where d: "dropWhile (\<lambda>x. x \<noteq> c) s = x # b" and a: "a = takeWhile (\<lambda>x. x \<noteq> c) s"
    by (auto simp: Cut_def split: list.splits)
  from d have "x = c" by (metis (mono_tags, lifting) dropWhile_eq_Cons_conv)
  then show "s = a @ c # b \<and> c \<notin> set a"
    using d a by (metis (mono_tags, lifting) set_takeWhileD takeWhile_dropWhile_id)
next
  assume h: "s = a @ c # b \<and> c \<notin> set a"
  then have "dropWhile (\<lambda>x. x \<noteq> c) s = c # b" "takeWhile (\<lambda>x. x \<noteq> c) s = a"
    by (induction a arbitrary: s) auto
  then show "Cut s c = (a, b, True)" by (simp add: Cut_def)
qed

lemma Cut_absent: "c \<notin> set s \<Longrightarrow> Cut s c = (s, [], False)"
proof -
  assume "c \<notin> set s"
  then have "dropWhile (\<lambda>x. x \<noteq> c) s = []"
    by (induction s) auto
  then show ?thesis by (simp only: Cut_def list.case)
qed

lemma Index_Some: "Index s t = Some i \<Longrightarrow> i + length t \<le> length s \<and> prefix t (drop i s)"
  by (induction s t arbitrary: i rule: Index.induct)
    (auto split: if_splits dest: prefix_length_le)

lemma Index_None: "Index s t = None \<longleftrightarrow> \<not> sublist t s"
proof (induction s t rule: Index.induct)
  case (1 t)
  then show ?case by auto
next
  case (2 c s t)
  then show ?case
    by (cases "prefix t (c # s)") (auto simp: sublist_Cons_right)
qed

subsection \<open>Numbers and code points\<close>

fun nat_digits :: "nat \<Rightarrow> string" where
  "nat_digits n = (if n < 10 then [char_of (48 + n)]
     else nat_digits (n div 10) @ [char_of (48 + n mod 10)])"

declare nat_digits.simps [simp del]

definition Itoa :: "int \<Rightarrow> string" where
  "Itoa z = (if z < 0 then CHR ''-'' # nat_digits (nat (- z)) else nat_digits (nat z))"

text \<open>
  \<open>utf8.RuneCountInString\<close>: each byte of a string that is not part of a valid UTF-8 sequence
  counts as one code point. The table of leading bytes and of the range of the second byte is
  the one of RFC 3629.
\<close>

definition cont_byte :: "char \<Rightarrow> bool" where
  "cont_byte c \<longleftrightarrow> (let n = (of_char c :: nat) in 128 \<le> n \<and> n \<le> 191)"

definition second_ok :: "nat \<Rightarrow> char \<Rightarrow> bool" where
  "second_ok lead c \<longleftrightarrow> (let n = (of_char c :: nat) in
     if lead = 0xE0 then 0xA0 \<le> n \<and> n \<le> 0xBF
     else if lead = 0xED then 0x80 \<le> n \<and> n \<le> 0x9F
     else if lead = 0xF0 then 0x90 \<le> n \<and> n \<le> 0xBF
     else if lead = 0xF4 then 0x80 \<le> n \<and> n \<le> 0x8F
     else cont_byte c)"

fun rune_width :: "string \<Rightarrow> nat" where
  "rune_width [] = 0"
| "rune_width [c] = 1"
| "rune_width [c, d] = (if 0xC2 \<le> (of_char c :: nat) \<and> of_char c \<le> (0xDF :: nat) \<and> cont_byte d then 2 else 1)"
| "rune_width [c, d, e] =
     (if 0xC2 \<le> (of_char c :: nat) \<and> of_char c \<le> (0xDF :: nat) \<and> cont_byte d then 2
      else if 0xE0 \<le> (of_char c :: nat) \<and> of_char c \<le> (0xEF :: nat) \<and> second_ok (of_char c) d \<and> cont_byte e
      then 3 else 1)"
| "rune_width (c # d # e # f # s) =
     (if 0xC2 \<le> (of_char c :: nat) \<and> of_char c \<le> (0xDF :: nat) \<and> cont_byte d then 2
      else if 0xE0 \<le> (of_char c :: nat) \<and> of_char c \<le> (0xEF :: nat) \<and> second_ok (of_char c) d \<and> cont_byte e
      then 3
      else if 0xF0 \<le> (of_char c :: nat) \<and> of_char c \<le> (0xF4 :: nat) \<and> second_ok (of_char c) d \<and> cont_byte e
        \<and> cont_byte f then 4 else 1)"

lemma rune_width_pos: "s \<noteq> [] \<Longrightarrow> 0 < rune_width s"
  by (cases s rule: rune_width.cases) auto

lemma rune_width_le: "rune_width s \<le> length s"
  by (cases s rule: rune_width.cases) auto

function RuneCountInString :: "string \<Rightarrow> nat" where
  "RuneCountInString s = (if s = [] then 0 else Suc (RuneCountInString (drop (rune_width s) s)))"
  by pat_completeness auto
termination
  by (relation "measure length") (auto simp: rune_width_pos)

declare RuneCountInString.simps [simp del]

lemma RuneCountInString_le: "RuneCountInString s \<le> length s"
proof (induction s rule: RuneCountInString.induct)
  case (1 s)
  then show ?case
    using rune_width_pos[of s] rune_width_le[of s]
    by (cases "s = []") (auto simp: RuneCountInString.simps[of s] RuneCountInString.simps[of "[]"])
qed

text \<open>
  \<open>strconv.Quote\<close> (the verb \<open>%q\<close>) on ASCII text; bytes of a longer code point are kept, as for the
  printable code points.
\<close>

definition hex_digit :: "nat \<Rightarrow> char" where
  "hex_digit n = ''0123456789abcdef'' ! (n mod 16)"

definition quote_byte :: "char \<Rightarrow> string" where
  "quote_byte c =
     (let n = (of_char c :: nat); bs = CHR 0x5C in
      if n = 0x22 \<or> n = 0x5C then [bs, c]
      else if 0x20 \<le> n \<and> n < 0x7F \<or> 0x80 \<le> n then [c]
      else if n = 7 then [bs, CHR ''a''] else if n = 8 then [bs, CHR ''b'']
      else if n = 12 then [bs, CHR ''f''] else if n = 10 then [bs, CHR ''n'']
      else if n = 13 then [bs, CHR ''r''] else if n = 9 then [bs, CHR ''t'']
      else if n = 11 then [bs, CHR ''v'']
      else [bs, CHR ''x'', hex_digit (n div 16), hex_digit n])"

definition Quote :: "string \<Rightarrow> string" where
  "Quote s = [CHR 0x22] @ concat (map quote_byte s) @ [CHR 0x22]"

definition space_bytes :: "char list" where
  "space_bytes = concat space_runes"

lemma trimmed_no_space_bytes: "set s \<inter> set space_bytes = {} \<Longrightarrow> trimmed s"
proof -
  assume d: "set s \<inter> set space_bytes = {}"
  have "\<not> prefix r s \<and> \<not> prefix (rev r) (rev s)" if "r \<in> set space_runes" "r \<noteq> []" for r
  proof -
    have sub: "set r \<subseteq> set space_bytes" using that(1) by (auto simp: space_bytes_def)
    have "set t \<subseteq> set u" if "prefix t u" for t u :: string using that by (auto simp: prefix_def)
    from this[of r s] this[of "rev r" "rev s"] d sub that(2) show ?thesis
      by (metis Int_absorb2 Int_assoc Int_commute inf_bot_right set_empty set_rev)
  qed
  then show "trimmed s" by (auto simp: trimmed_def rune_at_None)
qed

end
