(* ===== verification/Smtp_Client.thy ===== *)
theory Smtp_Client
  imports Go_Strings
begin

text \<open>
  The SMTP client of Go's library (\<open>net/smtp\<close>, \<open>net\<close>, \<open>crypto/tls\<close>) as the senders and relays
  use it. A client is an argument of the model: \<open>sa_call\<close> performs one call of the dialogue on a
  world state, \<open>sa_extension\<close> is \<open>client.Extension\<close> and \<open>sa_ctxErr\<close> is \<open>ctx.Err()\<close>.

  To state what code says to a server, a client is run over the log of the calls made so far: an
  oracle decides from that log whether the next call is accepted, so it stands for every server
  and network. \<open>play\<close> is the reference dialogue: the calls of a list in order, up to the first
  that is refused. \<open>plays\<close> relates code to the dialogue it holds and composes along the
  sequencing of the code.
\<close>

datatype smtp_call =
    CDial duration string
  | CDialTLS duration string string
  | CSetDeadline duration
  | CNewClient string
  | CHello string
  | CStartTLS string
  | CAuth string string string
  | CMail string
  | CRcpt string
  | CData
  | CWrite bytes
  | CCloseData
  | CQuit
  | CCloseClient
  | CCloseConn
  | CSendMail string string string string string "string list" bytes

record 'w smtp_api =
  sa_call :: "smtp_call \<Rightarrow> ('w, unit) io"
  sa_extension :: "string \<Rightarrow> 'w \<Rightarrow> bool"
  sa_ctxErr :: "'w \<Rightarrow> go_error option"

type_synonym smtp_peer = "smtp_call list \<Rightarrow> smtp_call \<Rightarrow> unit result"

definition JoinHostPort :: "string \<Rightarrow> string \<Rightarrow> string" where
  "JoinHostPort host port =
     (if CHR '':'' \<in> set host \<or> CHR ''%'' \<in> set host then ''['' @ host @ '']:'' @ port else host @ '':'' @ port)"

definition logged :: "smtp_peer \<Rightarrow> smtp_call \<Rightarrow> (smtp_call list, unit) io" where
  "logged O' c log = (O' log c, log @ [c])"

definition logging_client :: "smtp_peer \<Rightarrow> (smtp_call list \<Rightarrow> bool) \<Rightarrow> (smtp_call list) smtp_api" where
  "logging_client O' offersTLS = \<lparr>sa_call = logged O', sa_extension = (\<lambda>_. offersTLS), sa_ctxErr = (\<lambda>_. None)\<rparr>"

fun play :: "smtp_peer \<Rightarrow> smtp_call list \<Rightarrow> smtp_call list \<Rightarrow> bool \<times> smtp_call list" where
  "play O' log [] = (True, log)"
| "play O' log (c # cs) = (if is_ok (O' log c) then play O' (log @ [c]) cs else (False, log @ [c]))"

definition plays :: "smtp_peer \<Rightarrow> (smtp_call list, 'a) io \<Rightarrow> smtp_call list \<Rightarrow> bool" where
  "plays O' m cs \<longleftrightarrow> (\<forall>log. is_ok (fst (m log)) = fst (play O' log cs) \<and> snd (m log) = snd (play O' log cs))"

lemma play_append:
  "play O' log (cs @ ds) = (case play O' log cs of (ok, log') \<Rightarrow> if ok then play O' log' ds else (False, log'))"
  by (induction O' log cs rule: play.induct) auto

lemma play_ok_log: "play O' log cs = (True, log') \<Longrightarrow> log' = log @ cs"
  by (induction O' log cs arbitrary: log' rule: play.induct) (auto split: if_splits)

text \<open>A dialogue that was broken off ends with the call that was refused.\<close>

lemma play_refused:
  assumes "play O' log cs = (False, log')"
  obtains done' c rest where "cs = done' @ c # rest" "log' = log @ done' @ [c]" "\<not> is_ok (O' (log @ done') c)"
  using assms
proof (induction O' log cs arbitrary: thesis rule: play.induct)
  case (1 O' log)
  then show ?case by simp
next
  case (2 O' log c cs)
  show ?case
  proof (cases "is_ok (O' log c)")
    case True
    with 2(3) have "play O' (log @ [c]) cs = (False, log')" by simp
    then obtain done' d rest where d: "cs = done' @ d # rest" "log' = (log @ [c]) @ done' @ [d]"
        "\<not> is_ok (O' ((log @ [c]) @ done') d)"
      using 2(1)[OF True] by blast
    show ?thesis by (rule 2(2)[of "c # done'" d rest]) (use d in simp_all)
  next
    case False
    with 2(3) show ?thesis by (intro 2(2)[of "[]" c cs]) simp_all
  qed
qed

lemma play_length: "cs \<noteq> [] \<Longrightarrow> length log < length (snd (play O' log cs))"
proof (cases "fst (play O' log cs)")
  case True
  then show "cs \<noteq> [] \<Longrightarrow> ?thesis" using play_ok_log[of O' log cs "snd (play O' log cs)"] by (simp add: prod_eq_iff)
next
  case False
  then have "play O' log cs = (False, snd (play O' log cs))" by (simp add: prod_eq_iff)
  then show ?thesis by (rule play_refused) simp
qed

lemma bind_call:
  "io_bind (io_wrap g (logged O' c)) f log =
     (case O' log c of Inl e \<Rightarrow> (Inl (g e), log @ [c]) | Inr u \<Rightarrow> f u (log @ [c]))"
  "io_bind (logged O' c) f log = (case O' log c of Inl e \<Rightarrow> (Inl e, log @ [c]) | Inr u \<Rightarrow> f u (log @ [c]))"
  by (simp_all add: io_bind_def io_wrap_def logged_def split: sum.splits)

lemma defer_call: "io_defer m (logged O' c) log = (fst (m log), snd (m log) @ [c])"
  by (simp add: io_defer_def logged_def split: prod.splits)

lemma plays_call: "plays O' (logged O' c) [c]"
  by (simp add: plays_def logged_def)

lemma fst_snd_wrap:
  "is_ok (fst (io_wrap g m w)) = is_ok (fst (m w))" "snd (io_wrap g m w) = snd (m w)"
  by (cases "m w"; cases "fst (m w)"; simp add: io_wrap_def)+

lemma plays_wrap: "plays O' m cs \<Longrightarrow> plays O' (io_wrap g m) cs"
  by (simp add: plays_def fst_snd_wrap)

lemma plays_return: "plays O' (io_return x) []"
  by (simp add: plays_def io_return_def)

lemma plays_bind:
  assumes "plays O' m cs" "\<And>x. plays O' (f x) ds"
  shows "plays O' (io_bind m f) (cs @ ds)"
  unfolding plays_def
proof
  fix log
  obtain r log' where m: "m log = (r, log')" by fastforce
  with assms(1) have p: "play O' log cs = (is_ok r, log')" by (auto simp: plays_def prod_eq_iff)
  show "is_ok (fst (io_bind m f log)) = fst (play O' log (cs @ ds)) \<and> snd (io_bind m f log) = snd (play O' log (cs @ ds))"
    using assms(2) m p by (cases r) (auto simp: io_bind_def play_append plays_def)
qed

lemma plays_each:
  assumes "\<And>x. plays O' (f x) [g x]"
  shows "plays O' (io_each f xs) (map g xs)"
proof (induction xs)
  case Nil
  then show ?case by (simp add: plays_return)
next
  case (Cons x xs)
  then show ?case using plays_bind[OF assms[of x]] by fastforce
qed

lemma playsD:
  assumes "plays O' m cs"
  obtains r log' where "m log = (r, log')" "play O' log cs = (is_ok r, log')"
proof (rule that)
  show "m log = (fst (m log), snd (m log))" by simp
  have "is_ok (fst (m log)) = fst (play O' log cs)" "snd (m log) = snd (play O' log cs)"
    using assms unfolding plays_def by blast+
  then show "play O' log cs = (is_ok (fst (m log)), snd (m log))" by simp
qed

end
