(* ===== verification/Go_Base64.thy ===== *)
theory Go_Base64
  imports Go_Strings
begin

text \<open>
  Go's \<open>encoding/base64\<close> as the code uses it: \<open>StdEncoding\<close> (padded; SMTP log-in tokens and e-mail
  attachments) and \<open>RawURLEncoding\<close> (no padding; list cursors, credentials). Decoding skips
  carriage returns and line feeds anywhere, rejects any other byte outside the alphabet, and ignores
  the unused low bits of a last incomplete group, as Go does unless \<open>Strict\<close> is asked for.
\<close>

definition std_alphabet :: string where
  "std_alphabet = ''ABCDEFGHIJKLMNOPQRSTUVWXYZabcdefghijklmnopqrstuvwxyz0123456789+/''"

definition url_alphabet :: string where
  "url_alphabet = ''ABCDEFGHIJKLMNOPQRSTUVWXYZabcdefghijklmnopqrstuvwxyz0123456789-_''"

fun index_of :: "'a \<Rightarrow> 'a list \<Rightarrow> nat option" where
  "index_of x [] = None"
| "index_of x (y # ys) = (if x = y then Some 0 else map_option Suc (index_of x ys))"

definition byte :: "nat \<Rightarrow> char" where
  "byte n = char_of n"

fun b64_groups :: "nat list \<Rightarrow> nat list list" where
  "b64_groups [] = []"
| "b64_groups [a] = [[a div 4, (a mod 4) * 16]]"
| "b64_groups [a, b] = [[a div 4, (a mod 4) * 16 + b div 16, (b mod 16) * 4]]"
| "b64_groups (a # b # c # rest) =
     [a div 4, (a mod 4) * 16 + b div 16, (b mod 16) * 4 + c div 64, c mod 64] # b64_groups rest"

definition b64_pad :: "string \<Rightarrow> string" where
  "b64_pad g = g @ replicate (4 - length g) (CHR ''='')"

definition StdEncodeToString :: "bytes \<Rightarrow> string" where
  "StdEncodeToString s =
     concat (map (\<lambda>g. b64_pad (map (\<lambda>i. std_alphabet ! i) g)) (b64_groups (map of_char s)))"

definition RawURLEncodeToString :: "bytes \<Rightarrow> string" where
  "RawURLEncodeToString s =
     concat (map (map (\<lambda>i. url_alphabet ! i)) (b64_groups (map of_char s)))"

definition strip_newlines :: "string \<Rightarrow> string" where
  "strip_newlines s = filter (\<lambda>c. c \<noteq> CHR 0x0D \<and> c \<noteq> CHR 0x0A) s"

definition b64_out :: "nat list \<Rightarrow> bytes" where
  "b64_out g =
     (case g of
        [x, y] \<Rightarrow> [byte (x * 4 + y div 16)]
      | [x, y, z] \<Rightarrow> [byte (x * 4 + y div 16), byte ((y mod 16) * 16 + z div 4)]
      | [x, y, z, w] \<Rightarrow> [byte (x * 4 + y div 16), byte ((y mod 16) * 16 + z div 4), byte ((z mod 4) * 64 + w)]
      | _ \<Rightarrow> [])"

fun b64_values :: "string \<Rightarrow> string \<Rightarrow> nat list option" where
  "b64_values alphabet [] = Some []"
| "b64_values alphabet (c # cs) =
     (case (index_of c alphabet, b64_values alphabet cs) of
        (Some v, Some vs) \<Rightarrow> Some (v # vs)
      | _ \<Rightarrow> None)"

fun raw_decode :: "string \<Rightarrow> string \<Rightarrow> bytes option" where
  "raw_decode alphabet (a # b # c # d # rest) =
     (case (b64_values alphabet [a, b, c, d], raw_decode alphabet rest) of
        (Some g, Some out) \<Rightarrow> Some (b64_out g @ out)
      | _ \<Rightarrow> None)"
| "raw_decode alphabet [] = Some []"
| "raw_decode alphabet [a] = None"
| "raw_decode alphabet g = map_option b64_out (b64_values alphabet g)"

fun padded_decode :: "string \<Rightarrow> string \<Rightarrow> bytes option" where
  "padded_decode alphabet [] = Some []"
| "padded_decode alphabet (a # b # c # d # rest) =
     (if rest = [] \<and> c = CHR ''='' \<and> d = CHR ''='' then map_option b64_out (b64_values alphabet [a, b])
      else if rest = [] \<and> d = CHR ''='' then map_option b64_out (b64_values alphabet [a, b, c])
      else (case (b64_values alphabet [a, b, c, d], padded_decode alphabet rest) of
          (Some g, Some out) \<Rightarrow> Some (b64_out g @ out)
        | _ \<Rightarrow> None))"
| "padded_decode alphabet _ = None"

definition StdDecodeString :: "string \<Rightarrow> bytes option" where
  "StdDecodeString s = padded_decode std_alphabet (strip_newlines s)"

definition RawURLDecodeString :: "string \<Rightarrow> bytes option" where
  "RawURLDecodeString s = raw_decode url_alphabet (strip_newlines s)"

subsection \<open>Round trips\<close>

lemma byte_of_char [simp]: "byte (of_char c) = c"
  by (simp add: byte_def)

lemma index_of_nth: "distinct xs \<Longrightarrow> i < length xs \<Longrightarrow> index_of (xs ! i) xs = Some i"
proof (induction xs arbitrary: i)
  case (Cons x xs)
  then show ?case by (cases i) auto
qed simp

lemma alphabets:
  "distinct std_alphabet" "length std_alphabet = 64" "distinct url_alphabet" "length url_alphabet = 64"
  "CHR ''='' \<notin> set std_alphabet" "CHR 0x0D \<notin> set std_alphabet" "CHR 0x0A \<notin> set std_alphabet"
  "CHR 0x0D \<notin> set url_alphabet" "CHR 0x0A \<notin> set url_alphabet"
  by (simp_all add: std_alphabet_def url_alphabet_def)

lemma b64_values_map:
  "distinct al \<Longrightarrow> \<forall>i \<in> set is. i < length al \<Longrightarrow> b64_values al (map ((!) al) is) = Some is"
  by (induction "is") (auto simp: index_of_nth)

lemma b64_groups_lt: "\<forall>a \<in> set bs. a < 256 \<Longrightarrow> g \<in> set (b64_groups bs) \<Longrightarrow> i \<in> set g \<Longrightarrow> i < 64"
  by (induction bs rule: b64_groups.induct) (fastforce simp: less_mult_imp_div_less)+

lemma of_char_lt: "a \<in> set (map of_char s) \<Longrightarrow> (a :: nat) < 256"
  by auto

lemma pack_unpack:
  fixes x y m :: nat
  assumes "y < m"
  shows "(x * m + y) div m = x" and "(x * m + y) mod m = y"
  using assms by simp_all

lemma b64_arith:
  fixes a b c :: nat
  shows "a div 4 * 4 + a mod 4 * 16 div 16 = a"
    and "b < 256 \<Longrightarrow> a div 4 * 4 + (a mod 4 * 16 + b div 16) div 16 = a"
    and "b < 256 \<Longrightarrow> (a mod 4 * 16 + b div 16) mod 16 * 16 + b mod 16 * 4 div 4 = b"
    and "b < 256 \<Longrightarrow> c < 256 \<Longrightarrow> (a mod 4 * 16 + b div 16) mod 16 * 16 + (b mod 16 * 4 + c div 64) div 4 = b"
    and "c < 256 \<Longrightarrow> (b mod 16 * 4 + c div 64) mod 4 * 64 + c mod 64 = c"
proof -
  have lo: "b div 16 < 16" if "b < 256" for b :: nat using that by (simp add: less_mult_imp_div_less)
  have hi: "c div 64 < 4" if "c < 256" for c :: nat using that by (simp add: less_mult_imp_div_less)
  show "a div 4 * 4 + a mod 4 * 16 div 16 = a" by (simp add: div_mult_mod_eq)
  show "a div 4 * 4 + (a mod 4 * 16 + b div 16) div 16 = a" if "b < 256"
    unfolding pack_unpack(1)[OF lo[OF that]] by (rule div_mult_mod_eq)
  show "(a mod 4 * 16 + b div 16) mod 16 * 16 + b mod 16 * 4 div 4 = b" if "b < 256"
    unfolding pack_unpack(2)[OF lo[OF that]] by (simp add: div_mult_mod_eq)
  show "(a mod 4 * 16 + b div 16) mod 16 * 16 + (b mod 16 * 4 + c div 64) div 4 = b" if "b < 256" "c < 256"
    unfolding pack_unpack(2)[OF lo[OF that(1)]] pack_unpack(1)[OF hi[OF that(2)]] by (rule div_mult_mod_eq)
  show "(b mod 16 * 4 + c div 64) mod 4 * 64 + c mod 64 = c" if "c < 256"
    unfolding pack_unpack(2)[OF hi[OF that]] by (rule div_mult_mod_eq)
qed

lemma b64_out_groups:
  fixes a b c :: nat
  assumes "b < 256" "c < 256"
  shows "b64_out [a div 4, a mod 4 * 16] = [byte a]"
    and "b64_out [a div 4, a mod 4 * 16 + b div 16, b mod 16 * 4] = [byte a, byte b]"
    and "b64_out [a div 4, a mod 4 * 16 + b div 16, b mod 16 * 4 + c div 64, c mod 64] = [byte a, byte b, byte c]"
  unfolding b64_out_def list.case b64_arith(2,3)[OF assms(1)] b64_arith(4)[OF assms] b64_arith(5)[OF assms(2)] b64_arith(1)
  by (rule refl)+

lemma b64_index_lt:
  fixes a b c :: nat
  assumes "a < 256" "b < 256" "c < 256"
  shows "a div 4 < 64" "a mod 4 * 16 < 64" "a mod 4 * 16 + b div 16 < 64"
    "b mod 16 * 4 < 64" "b mod 16 * 4 + c div 64 < 64" "c mod 64 < 64"
proof -
  have m: "a mod 4 < 4" "b mod 16 < 16" "b div 16 < 16" "c div 64 < 4"
    using assms by (simp_all add: less_mult_imp_div_less)
  show "a div 4 < 64" using assms by (simp add: less_mult_imp_div_less)
  show "a mod 4 * 16 < 64" "a mod 4 * 16 + b div 16 < 64" "b mod 16 * 4 < 64"
    "b mod 16 * 4 + c div 64 < 64" "c mod 64 < 64"
    using m by linarith+
qed

lemma raw_roundtrip:
  assumes al: "distinct al" "length al = 64"
  shows "\<forall>a \<in> set bs. a < 256 \<Longrightarrow> raw_decode al (concat (map (map ((!) al)) (b64_groups bs))) = Some (map byte bs)"
proof (induction bs rule: b64_groups.induct)
  case (2 a)
  then show ?case
    using b64_values_map[OF al(1), of "[a div 4, a mod 4 * 16]"] b64_index_lt[of a 0 0] b64_out_groups(1)[of 0 0 a]
    by (simp add: al(2))
next
  case (3 a b)
  then show ?case
    using b64_values_map[OF al(1), of "[a div 4, a mod 4 * 16 + b div 16, b mod 16 * 4]"]
      b64_index_lt[of a b 0] b64_out_groups(2)[of b 0 a]
    by (simp add: al(2))
next
  case (4 a b c rest)
  then show ?case
    using b64_values_map[OF al(1), of "[a div 4, a mod 4 * 16 + b div 16, b mod 16 * 4 + c div 64, c mod 64]"]
      b64_index_lt[of a b c] b64_out_groups(3)[of b c a]
    by (simp add: al(2))
qed simp

lemma std_neq_pad: "i < 64 \<Longrightarrow> std_alphabet ! i \<noteq> CHR ''=''"
  using alphabets(2,5) by (metis nth_mem)

lemma padded_roundtrip:
  "\<forall>a \<in> set bs. a < 256 \<Longrightarrow>
   padded_decode std_alphabet (concat (map (\<lambda>g. b64_pad (map ((!) std_alphabet) g)) (b64_groups bs))) = Some (map byte bs)"
proof (induction bs rule: b64_groups.induct)
  case (2 a)
  then show ?case
    using b64_values_map[OF alphabets(1), of "[a div 4, a mod 4 * 16]"] b64_index_lt[of a 0 0]
      b64_out_groups(1)[of 0 0 a]
    by (simp add: alphabets(2) b64_pad_def numeral_2_eq_2)
next
  case (3 a b)
  then show ?case
    using b64_values_map[OF alphabets(1), of "[a div 4, a mod 4 * 16 + b div 16, b mod 16 * 4]"]
      b64_index_lt[of a b 0] b64_out_groups(2)[of b 0 a]
    by (simp add: alphabets(2) b64_pad_def std_neq_pad)
next
  case (4 a b c rest)
  then show ?case
    using b64_values_map[OF alphabets(1), of "[a div 4, a mod 4 * 16 + b div 16, b mod 16 * 4 + c div 64, c mod 64]"]
      b64_index_lt[of a b c] b64_out_groups(3)[of b c a]
    by (simp add: alphabets(2) b64_pad_def std_neq_pad)
qed simp

lemma strip_newlines_id: "CHR 0x0D \<notin> set s \<Longrightarrow> CHR 0x0A \<notin> set s \<Longrightarrow> strip_newlines s = s"
  unfolding strip_newlines_def by (rule filter_True) auto

lemma char_groups_lt: "g \<in> set (b64_groups (map of_char (s :: string))) \<Longrightarrow> i \<in> set g \<Longrightarrow> i < 64"
  by (rule b64_groups_lt[of "map of_char s"]) (use of_char_lt in blast)+

lemma set_groups_alphabet:
  assumes "length al = 64"
  shows "set (concat (map (map ((!) al)) (b64_groups (map of_char (s :: string))))) \<subseteq> set al"
proof -
  have "set (map ((!) al) g) \<subseteq> set al" if "g \<in> set (b64_groups (map of_char s))" for g
    using char_groups_lt[OF that] assms by auto
  then show ?thesis by (auto simp: subset_iff)
qed

lemma RawURL_roundtrip: "RawURLDecodeString (RawURLEncodeToString s) = Some s"
proof -
  let ?e = "concat (map (map ((!) url_alphabet)) (b64_groups (map of_char s)))"
  have "strip_newlines ?e = ?e"
    using set_groups_alphabet[OF alphabets(4), of s] alphabets(8,9) by (blast intro: strip_newlines_id)
  then show ?thesis
    using raw_roundtrip[OF alphabets(3,4), of "map of_char s"] of_char_lt[of _ s]
    by (simp add: RawURLDecodeString_def RawURLEncodeToString_def comp_def)
qed

lemma set_StdEncode: "set (StdEncodeToString s) \<subseteq> insert (CHR ''='') (set std_alphabet)"
proof -
  have "set (b64_pad (map ((!) std_alphabet) g)) \<subseteq> insert (CHR ''='') (set std_alphabet)"
    if "g \<in> set (b64_groups (map of_char s))" for g
    using char_groups_lt[OF that] alphabets(2) by (auto simp: b64_pad_def)
  then show ?thesis unfolding StdEncodeToString_def set_concat set_map by blast
qed

lemma Std_roundtrip: "StdDecodeString (StdEncodeToString s) = Some s"
proof -
  have "CHR 0x0D \<notin> set (StdEncodeToString s)" "CHR 0x0A \<notin> set (StdEncodeToString s)"
    using set_StdEncode[of s] alphabets(6,7) by auto
  then have "strip_newlines (StdEncodeToString s) = StdEncodeToString s"
    by (rule strip_newlines_id)
  then show ?thesis
    using padded_roundtrip[of "map of_char s"] of_char_lt[of _ s]
    by (simp add: StdDecodeString_def StdEncodeToString_def comp_def)
qed

lemma length_StdEncode: "length (StdEncodeToString s) = 4 * ((length s + 2) div 3)"
proof -
  have "length (concat (map (\<lambda>g. b64_pad (map ((!) std_alphabet) g)) (b64_groups bs))) = 4 * ((length bs + 2) div 3)"
    for bs :: "nat list"
  proof (induction bs rule: b64_groups.induct)
    case (4 a b c rest)
    have "(length (a # b # c # rest) + 2) div 3 = Suc ((length rest + 2) div 3)" by simp
    with 4 show ?case by (simp add: b64_pad_def)
  qed (simp_all add: b64_pad_def)
  then show ?thesis by (simp add: StdEncodeToString_def)
qed

lemma trimmed_RawURL: "trimmed (RawURLEncodeToString s)"
proof (rule trimmed_no_space_bytes)
  have "set url_alphabet \<inter> set space_bytes = {}" by code_simp
  moreover have "set (RawURLEncodeToString s) \<subseteq> set url_alphabet"
    using set_groups_alphabet[OF alphabets(4), of s] by (simp add: RawURLEncodeToString_def)
  ultimately show "set (RawURLEncodeToString s) \<inter> set space_bytes = {}" by blast
qed

lemma RawURL_eq_Nil: "RawURLEncodeToString s = [] \<longleftrightarrow> s = []"
proof
  assume "RawURLEncodeToString s = []"
  then show "s = []"
    using RawURL_roundtrip[of s] by (simp add: RawURLDecodeString_def strip_newlines_def)
qed (simp add: RawURLEncodeToString_def)

end
