(* ===== verification/Gorm.thy ===== *)
theory Gorm
  imports Go_Strings
begin

text \<open>
  The object-relational mapper (GORM over SQLite) is no part of the repository: a table of it is an
  argument of the model, a record of the calls the code makes, over an opaque database state
  \<open>'d\<close>. A query is the row predicate its \<open>Where\<close> clauses denote, a comparison for its
  \<open>Order\<close> clauses and a limit; an association named in \<open>Preload\<close> is a field of the row. The
  documented behaviour the proofs rely on is stated call by call over \<open>rows\<close>, the rows the
  database holds: \<open>find_law\<close>, \<open>first_law\<close>, \<open>create_law\<close>, \<open>save_law\<close>, \<open>update_law\<close>,
  \<open>delete_law\<close>. Every call may also fail with an error and then changes nothing. \<open>list_table\<close>, a
  table kept as a list, satisfies all of them.
\<close>

record ('d, 'r) gorm_table =
  g_Create :: "'r \<Rightarrow> 'd \<Rightarrow> 'r result \<times> 'd"
  g_Save :: "'r \<Rightarrow> 'd \<Rightarrow> 'r result \<times> 'd"
  g_Find :: "('r \<Rightarrow> bool) \<Rightarrow> ('r \<Rightarrow> 'r \<Rightarrow> bool) \<Rightarrow> nat option \<Rightarrow> 'd \<Rightarrow> 'r list result"
  g_First :: "('r \<Rightarrow> bool) \<Rightarrow> 'd \<Rightarrow> 'r result"
  g_Updates :: "('r \<Rightarrow> bool) \<Rightarrow> ('r \<Rightarrow> 'r) \<Rightarrow> 'd \<Rightarrow> nat result \<times> 'd"
  g_Delete :: "('r \<Rightarrow> bool) \<Rightarrow> 'd \<Rightarrow> nat result \<times> 'd"

definition ErrRecordNotFound :: go_error where
  "ErrRecordNotFound = External ''record not found''"

text \<open>\<open>Where(&Struct{Field: v})\<close> leaves out the condition of a field that has its zero value.\<close>

definition where_field :: "string \<Rightarrow> string \<Rightarrow> bool" where
  "where_field v x \<longleftrightarrow> v = '''' \<or> x = v"

definition any_order :: "'r \<Rightarrow> 'r \<Rightarrow> bool" where
  "any_order a b \<longleftrightarrow> True"

definition take_limit :: "nat option \<Rightarrow> 'r list \<Rightarrow> 'r list" where
  "take_limit lim rs = (case lim of None \<Rightarrow> rs | Some n \<Rightarrow> take n rs)"

definition find_law :: "('d, 'r) gorm_table \<Rightarrow> ('d \<Rightarrow> 'r list) \<Rightarrow> bool" where
  "find_law T rows \<longleftrightarrow>
     (\<forall>p le lim d rs. total_preorder le \<longrightarrow> g_Find T p le lim d = Inr rs \<longrightarrow>
        (\<exists>ys. mset ys = mset (filter p (rows d)) \<and> sorted_wrt le ys \<and> rs = take_limit lim ys))"

definition find_succeeds :: "('d, 'r) gorm_table \<Rightarrow> 'd \<Rightarrow> bool" where
  "find_succeeds T d \<longleftrightarrow> (\<forall>p le lim. is_ok (g_Find T p le lim d))"

definition first_law :: "('d, 'r) gorm_table \<Rightarrow> ('d \<Rightarrow> 'r list) \<Rightarrow> bool" where
  "first_law T rows \<longleftrightarrow>
     (\<forall>p d r. g_First T p d = Inr r \<longrightarrow> r \<in> set (rows d) \<and> p r)
     \<and> (\<forall>p d. g_First T p d = Inl ErrRecordNotFound \<longrightarrow> filter p (rows d) = [])"

text \<open>\<open>same r r'\<close>: the stored \<open>r'\<close> is \<open>r\<close> up to what the mapper fills in (key, time stamps).\<close>

definition create_law :: "('d, 'r) gorm_table \<Rightarrow> ('d \<Rightarrow> 'r list) \<Rightarrow> ('r \<Rightarrow> nat) \<Rightarrow> ('r \<Rightarrow> 'r \<Rightarrow> bool) \<Rightarrow> bool" where
  "create_law T rows key same \<longleftrightarrow>
     (\<forall>r d r' d'. g_Create T r d = (Inr r', d') \<longrightarrow>
        rows d' = rows d @ [r'] \<and> same r r' \<and> key r' \<noteq> 0 \<and> key r' \<notin> key ` set (rows d))
     \<and> (\<forall>r d e d'. g_Create T r d = (Inl e, d') \<longrightarrow> rows d' = rows d)"

definition save_law :: "('d, 'r) gorm_table \<Rightarrow> ('d \<Rightarrow> 'r list) \<Rightarrow> ('r \<Rightarrow> nat) \<Rightarrow> ('r \<Rightarrow> 'r \<Rightarrow> bool) \<Rightarrow> bool" where
  "save_law T rows key same \<longleftrightarrow>
     (\<forall>r d r' d'. g_Save T r d = (Inr r', d') \<longrightarrow> key r \<in> key ` set (rows d) \<longrightarrow>
        rows d' = map (\<lambda>x. if key x = key r then r' else x) (rows d) \<and> same r r' \<and> key r' = key r)
     \<and> (\<forall>r d e d'. g_Save T r d = (Inl e, d') \<longrightarrow> rows d' = rows d)"

definition update_law :: "('d, 'r) gorm_table \<Rightarrow> ('d \<Rightarrow> 'r list) \<Rightarrow> bool" where
  "update_law T rows \<longleftrightarrow>
     (\<forall>p f d n d'. g_Updates T p f d = (Inr n, d') \<longrightarrow>
        rows d' = map (\<lambda>x. if p x then f x else x) (rows d) \<and> n = length (filter p (rows d)))
     \<and> (\<forall>p f d e d'. g_Updates T p f d = (Inl e, d') \<longrightarrow> rows d' = rows d)"

definition delete_law :: "('d, 'r) gorm_table \<Rightarrow> ('d \<Rightarrow> 'r list) \<Rightarrow> bool" where
  "delete_law T rows \<longleftrightarrow>
     (\<forall>p d n d'. g_Delete T p d = (Inr n, d') \<longrightarrow>
        rows d' = filter (\<lambda>x. \<not> p x) (rows d) \<and> n = length (filter p (rows d)))
     \<and> (\<forall>p d e d'. g_Delete T p d = (Inl e, d') \<longrightarrow> rows d' = rows d)"

text \<open>The keys of a table are positive and pairwise different.\<close>

definition keys_ok :: "('r \<Rightarrow> nat) \<Rightarrow> 'r list \<Rightarrow> bool" where
  "keys_ok key rs \<longleftrightarrow> distinct (map key rs) \<and> (\<forall>r \<in> set rs. key r \<noteq> 0)"

subsection \<open>A table kept as a list\<close>

definition next_key :: "('r \<Rightarrow> nat) \<Rightarrow> 'r list \<Rightarrow> nat" where
  "next_key key rs = Suc (foldr max (map key rs) 0)"

definition list_table ::
  "('d \<Rightarrow> 'r list) \<Rightarrow> ('r list \<Rightarrow> 'd \<Rightarrow> 'd) \<Rightarrow> ('r \<Rightarrow> nat) \<Rightarrow> (nat \<Rightarrow> 'r \<Rightarrow> 'r) \<Rightarrow> ('d, 'r) gorm_table" where
  "list_table rows put key set_key =
     \<lparr>g_Create = (\<lambda>r d. let r' = set_key (next_key key (rows d)) r in (Inr r', put (rows d @ [r']) d)),
      g_Save = (\<lambda>r d. (Inr r, put (map (\<lambda>x. if key x = key r then r else x) (rows d)) d)),
      g_Find = (\<lambda>p le lim d. Inr (take_limit lim (sort_by le (filter p (rows d))))),
      g_First = (\<lambda>p d. case filter p (rows d) of [] \<Rightarrow> Inl ErrRecordNotFound | r # _ \<Rightarrow> Inr r),
      g_Updates = (\<lambda>p f d. (Inr (length (filter p (rows d))), put (map (\<lambda>x. if p x then f x else x) (rows d)) d)),
      g_Delete = (\<lambda>p d. (Inr (length (filter p (rows d))), put (filter (\<lambda>x. \<not> p x) (rows d)) d))\<rparr>"

subsection \<open>Consequences of the laws\<close>

lemma any_order_total [simp]: "total_preorder any_order"
  by (simp add: total_preorder_def any_order_def)

lemma find_set:
  assumes "find_law T rows" "total_preorder le" "g_Find T p le lim d = Inr rs" "r \<in> set rs"
  shows "r \<in> set (rows d) \<and> p r"
proof -
  from assms(1-3) obtain ys where "mset ys = mset (filter p (rows d))" "rs = take_limit lim ys"
    unfolding find_law_def by blast
  with assms(4) have "r \<in> set ys" by (auto simp: take_limit_def dest: in_set_takeD split: option.splits)
  moreover have "set ys = set (filter p (rows d))"
    using \<open>mset ys = mset (filter p (rows d))\<close> by (metis set_mset_mset)
  ultimately show ?thesis by simp
qed

lemma find_all_set:
  assumes "find_law T rows" "total_preorder le" "g_Find T p le None d = Inr rs"
  shows "set rs = {r \<in> set (rows d). p r}"
proof -
  from assms obtain ys where "mset ys = mset (filter p (rows d))" "rs = take_limit None ys"
    unfolding find_law_def by blast
  then show ?thesis by (metis option.case(1) set_filter set_mset_mset take_limit_def)
qed

text \<open>A read that finds no row reports \<open>ErrRecordNotFound\<close>; \<open>first_total\<close> rules out other failures.\<close>

definition first_total :: "('d, 'r) gorm_table \<Rightarrow> 'd \<Rightarrow> bool" where
  "first_total T d \<longleftrightarrow> (\<forall>p. is_ok (g_First T p d) \<or> g_First T p d = Inl ErrRecordNotFound)"

lemma first_some:
  assumes "first_law T rows" "first_total T d" "x \<in> set (rows d)" "p x"
  obtains y where "g_First T p d = Inr y" "y \<in> set (rows d)" "p y"
proof (cases "g_First T p d")
  case (Inl e)
  with assms(2) have "g_First T p d = Inl ErrRecordNotFound" unfolding first_total_def by (metis is_ok_simps(2))
  with assms(1) have "filter p (rows d) = []" unfolding first_law_def by blast
  with assms(3,4) show thesis by (metis filter_empty_conv)
next
  case (Inr y)
  with assms(1) that show thesis unfolding first_law_def by blast
qed

lemma first_none:
  assumes "first_law T rows" "first_total T d" "\<And>x. x \<in> set (rows d) \<Longrightarrow> \<not> p x"
  shows "g_First T p d = Inl ErrRecordNotFound"
proof (cases "g_First T p d")
  case (Inl e)
  with assms(2) show ?thesis unfolding first_total_def by (metis is_ok_simps(2))
next
  case (Inr y)
  with assms(1,3) show ?thesis unfolding first_law_def by blast
qed

lemma keys_ok_unique: "keys_ok key rs \<Longrightarrow> a \<in> set rs \<Longrightarrow> b \<in> set rs \<Longrightarrow> key a = key b \<Longrightarrow> a = b"
  by (auto simp: keys_ok_def distinct_map dest: inj_onD)

text \<open>A query ordered so that only equal rows tie has one answer, the sorted selection.\<close>

lemma find_sorted:
  assumes law: "find_law T rows" and le: "total_preorder le"
    and anti: "\<And>a b. a \<in> set (rows d) \<Longrightarrow> b \<in> set (rows d) \<Longrightarrow> le a b \<Longrightarrow> le b a \<Longrightarrow> a = b"
    and f: "g_Find T p le lim d = Inr rs"
  shows "rs = take_limit lim (sort_by le (filter p (rows d)))"
proof -
  from law le f obtain ys where ys: "mset ys = mset (filter p (rows d))" "sorted_wrt le ys" "rs = take_limit lim ys"
    unfolding find_law_def by blast
  have sub: "set ys \<subseteq> set (rows d)" using ys(1) by (metis filter_is_subset set_mset_mset)
  have "ys = sort_by le (filter p (rows d))"
  proof (rule sorted_mset_unique[of ys le])
    show "le x x" for x using le by (auto simp: total_preorder_def)
    show "x = y" if "x \<in> set ys" "y \<in> set ys" "le x y" "le y x" for x y using that anti sub by blast
    show "sorted_wrt le (sort_by le (filter p (rows d)))" by (rule sorted_sort_by[OF le])
  qed (use ys in simp_all)
  with ys(3) show ?thesis by simp
qed

subsection \<open>The list table satisfies the laws\<close>

lemma next_key_fresh: "r \<in> set rs \<Longrightarrow> key r < next_key key rs"
proof -
  have "r \<in> set rs \<Longrightarrow> key r \<le> foldr max (map key rs) 0" by (induction rs) (auto simp: le_max_iff_disj)
  then show "r \<in> set rs \<Longrightarrow> key r < next_key key rs" by (simp add: next_key_def less_Suc_eq_le)
qed

lemma list_table_reads:
  "find_law (list_table rows put key set_key) rows" "first_law (list_table rows put key set_key) rows"
proof -
  show "find_law (list_table rows put key set_key) rows"
    unfolding find_law_def list_table_def
    by (simp add: take_limit_def) (metis mset_filter mset_sort_by sorted_sort_by)
  show "first_law (list_table rows put key set_key) rows"
    unfolding first_law_def
  proof (intro conjI allI impI)
    fix p d r
    assume "g_First (list_table rows put key set_key) p d = Inr r"
    then have "r \<in> set (filter p (rows d))"
      by (cases "filter p (rows d)") (simp_all add: list_table_def)
    then show "r \<in> set (rows d)" "p r" by simp_all
  next
    fix p d
    assume "g_First (list_table rows put key set_key) p d = Inl ErrRecordNotFound"
    then show "filter p (rows d) = []"
      by (cases "filter p (rows d)") (simp_all add: list_table_def)
  qed
qed

lemma list_table_laws:
  assumes "\<And>rs d. rows (put rs d) = rs" "\<And>n r. key (set_key n r) = n" "\<And>n r. same r (set_key n r)" "\<And>r. same r r"
  shows "find_law (list_table rows put key set_key) rows"
    and "first_law (list_table rows put key set_key) rows"
    and "create_law (list_table rows put key set_key) rows key same"
    and "save_law (list_table rows put key set_key) rows key same"
    and "update_law (list_table rows put key set_key) rows"
    and "delete_law (list_table rows put key set_key) rows"
proof -
  show "find_law (list_table rows put key set_key) rows" "first_law (list_table rows put key set_key) rows"
    by (rule list_table_reads)+
  show "create_law (list_table rows put key set_key) rows key same"
  proof -
    have "next_key key rs \<notin> key ` set rs" for rs
      by (metis (no_types, lifting) imageE less_irrefl next_key_fresh)
    moreover have "next_key key rs \<noteq> 0" for rs by (simp add: next_key_def)
    ultimately show ?thesis
      unfolding create_law_def list_table_def Let_def using assms by simp
  qed
  show "save_law (list_table rows put key set_key) rows key same"
    using assms by (auto simp: save_law_def list_table_def)
  show "update_law (list_table rows put key set_key) rows"
    using assms by (auto simp: update_law_def list_table_def)
  show "delete_law (list_table rows put key set_key) rows"
    using assms by (auto simp: delete_law_def list_table_def)
qed

lemma list_table_first_total [simp]: "first_total (list_table rows put key set_key) d"
  by (auto simp: first_total_def list_table_def split: list.split)

lemma list_table_find_succeeds [simp]: "find_succeeds (list_table rows put key set_key) d"
  by (simp add: find_succeeds_def list_table_def)

end
