(* ===== verification/Notification_Model.thy ===== *)
theory Notification_Model
  imports Go_Base64 Gorm
begin

text \<open>
  The notification model (\<open>internal/model/notification_request.go\<close>, \<open>models.go\<close>): validation of a
  request, the stored row and the response shape, list filters, list cursors and pages, and the
  queries. Times are nanoseconds (\<open>UTC()\<close> only changes how a time prints), \<open>nil\<close> and
  empty slices are both \<open>[]\<close>, pointers are options. The JSON form of a cursor and the RFC 3339
  form of a time are arguments (\<open>cursor_codec\<close>), as is the meaning of SQL's \<open>LIKE\<close>.
\<close>

subsection \<open>Requests\<close>

definition NotificationEmail :: string where "NotificationEmail = ''email''"
definition NotificationSMS :: string where "NotificationSMS = ''sms''"

record email_attachment =
  ea_Filename :: string
  ea_ContentType :: string
  ea_Data :: bytes

record notification_request =
  nr_notificationType :: string
  nr_recipient :: string
  nr_subject :: string
  nr_message :: string
  nr_scheduledFor :: "time option"
  nr_attachments :: "email_attachment list"

definition maxNotificationAttachmentCount :: int where
  "maxNotificationAttachmentCount = 10"
definition maxNotificationAttachmentSizeBytes :: int where
  "maxNotificationAttachmentSizeBytes = 5 * 1024 * 1024"
definition maxNotificationAttachmentsTotalBytes :: int where
  "maxNotificationAttachmentsTotalBytes = 25 * 1024 * 1024"
definition defaultAttachmentContentType :: string where
  "defaultAttachmentContentType = ''application/octet-stream''"

definition ErrNotificationRecipientRequired :: go_error where
  "ErrNotificationRecipientRequired = ErrorsNew ''notification.request.recipient_required''"
definition ErrNotificationMessageRequired :: go_error where
  "ErrNotificationMessageRequired = ErrorsNew ''notification.request.message_required''"
definition ErrNotificationTypeUnsupported :: go_error where
  "ErrNotificationTypeUnsupported = ErrorsNew ''notification.request.invalid_type''"
definition ErrNotificationAttachmentsNotAllowed :: go_error where
  "ErrNotificationAttachmentsNotAllowed = ErrorsNew ''notification.request.attachments_not_allowed''"
definition ErrNotificationAttachmentsTooMany :: go_error where
  "ErrNotificationAttachmentsTooMany = ErrorsNew ''notification.request.attachments_count_exceeded''"
definition ErrNotificationAttachmentFilenameRequired :: go_error where
  "ErrNotificationAttachmentFilenameRequired = ErrorsNew ''notification.request.attachment_filename_required''"
definition ErrNotificationAttachmentDataRequired :: go_error where
  "ErrNotificationAttachmentDataRequired = ErrorsNew ''notification.request.attachment_data_required''"
definition ErrNotificationAttachmentTooLarge :: go_error where
  "ErrNotificationAttachmentTooLarge = ErrorsNew ''notification.request.attachment_size_exceeded''"
definition ErrNotificationAttachmentsTooLarge :: go_error where
  "ErrNotificationAttachmentsTooLarge = ErrorsNew ''notification.request.attachments_total_size_exceeded''"

definition isSupportedNotificationType :: "string \<Rightarrow> bool" where
  "isSupportedNotificationType t \<longleftrightarrow> t = NotificationEmail \<or> t = NotificationSMS"

fun normalizeAttachmentLoop ::
  "nat \<Rightarrow> int \<Rightarrow> email_attachment list \<Rightarrow> email_attachment list \<Rightarrow> (int \<times> email_attachment list) result" where
  "normalizeAttachmentLoop attachmentIndex totalSize normalized [] = Inr (totalSize, normalized)"
| "normalizeAttachmentLoop attachmentIndex totalSize normalized (attachment # rest) =
     (let filename = TrimSpace (ea_Filename attachment) in
      if filename = ''''
      then Inl (Errorf '''' ErrNotificationAttachmentFilenameRequired ('': attachment '' @ Itoa (int attachmentIndex + 1)))
      else let payloadSize = int (length (ea_Data attachment)) in
      if payloadSize = 0
      then Inl (Errorf '''' ErrNotificationAttachmentDataRequired ('': attachment '' @ Quote filename))
      else if payloadSize > maxNotificationAttachmentSizeBytes
      then Inl (Errorf '''' ErrNotificationAttachmentTooLarge ('': attachment '' @ Quote filename))
      else let contentType = TrimSpace (ea_ContentType attachment);
               contentType' = (if contentType = '''' then defaultAttachmentContentType else contentType) in
      normalizeAttachmentLoop (Suc attachmentIndex) (totalSize + payloadSize)
        (normalized @ [\<lparr>ea_Filename = filename, ea_ContentType = contentType', ea_Data = ea_Data attachment\<rparr>]) rest)"

definition normalizeNotificationAttachments ::
  "string \<Rightarrow> email_attachment list \<Rightarrow> email_attachment list result" where
  "normalizeNotificationAttachments notificationType attachments =
     (if attachments = [] then Inr []
      else if notificationType \<noteq> NotificationEmail then Inl ErrNotificationAttachmentsNotAllowed
      else if int (length attachments) > maxNotificationAttachmentCount
      then Inl (Errorf '''' ErrNotificationAttachmentsTooMany ('': max '' @ Itoa maxNotificationAttachmentCount))
      else (case normalizeAttachmentLoop 0 0 [] attachments of
          Inl e \<Rightarrow> Inl e
        | Inr (totalSize, normalized) \<Rightarrow>
            if totalSize > maxNotificationAttachmentsTotalBytes
            then Inl (Errorf '''' ErrNotificationAttachmentsTooLarge ('': max '' @ Itoa maxNotificationAttachmentsTotalBytes))
            else Inr normalized))"

definition NewNotificationRequest ::
  "string \<Rightarrow> string \<Rightarrow> string \<Rightarrow> string \<Rightarrow> time option \<Rightarrow> email_attachment list \<Rightarrow> notification_request result" where
  "NewNotificationRequest notificationType recipient subject message scheduledFor attachments =
     (let normalizedRecipient = TrimSpace recipient in
      if normalizedRecipient = '''' then Inl ErrNotificationRecipientRequired
      else let normalizedMessage = TrimSpace message in
      if normalizedMessage = '''' then Inl ErrNotificationMessageRequired
      else if \<not> isSupportedNotificationType notificationType then Inl ErrNotificationTypeUnsupported
      else (case normalizeNotificationAttachments notificationType attachments of
          Inl e \<Rightarrow> Inl e
        | Inr normalizedAttachments \<Rightarrow>
            Inr \<lparr>nr_notificationType = notificationType, nr_recipient = normalizedRecipient,
                 nr_subject = TrimSpace subject, nr_message = message, nr_scheduledFor = scheduledFor,
                 nr_attachments = normalizedAttachments\<rparr>))"

definition cloneEmailAttachments :: "email_attachment list \<Rightarrow> email_attachment list" where
  "cloneEmailAttachments atts =
     map (\<lambda>a. \<lparr>ea_Filename = ea_Filename a, ea_ContentType = ea_ContentType a, ea_Data = ea_Data a\<rparr>) atts"

subsection \<open>Rows, statuses and responses\<close>

definition StatusQueued :: string where "StatusQueued = ''queued''"
definition StatusSent :: string where "StatusSent = ''sent''"
definition StatusErrored :: string where "StatusErrored = ''errored''"
definition StatusCancelled :: string where "StatusCancelled = ''cancelled''"
definition StatusUnknown :: string where "StatusUnknown = ''unknown''"

definition ErrNotificationNotFound :: go_error where
  "ErrNotificationNotFound = ErrorsNew ''notification not found''"
definition ErrInvalidNotificationCursor :: go_error where
  "ErrInvalidNotificationCursor = ErrorsNew ''invalid notification list cursor''"
definition ErrInvalidNotificationLimit :: go_error where
  "ErrInvalidNotificationLimit = ErrorsNew ''invalid notification list limit''"
definition ErrInvalidNotificationSearch :: go_error where
  "ErrInvalidNotificationSearch = ErrorsNew ''invalid notification search query''"

definition CanonicalStatus :: "string \<Rightarrow> string" where
  "CanonicalStatus status =
     (if status \<in> {StatusQueued, StatusSent, StatusErrored, StatusCancelled, StatusUnknown}
      then status else '''')"

record notification_attachment =
  na_ID :: nat
  na_TenantID :: string
  na_NotificationID :: string
  na_Filename :: string
  na_ContentType :: string
  na_Data :: bytes
  na_CreatedAt :: time
  na_UpdatedAt :: time

record notification =
  n_ID :: nat
  n_TenantID :: string
  n_NotificationID :: string
  n_NotificationType :: string
  n_Recipient :: string
  n_Subject :: string
  n_Message :: string
  n_ProviderMessageID :: string
  n_Status :: string
  n_RetryCount :: int
  n_LastAttemptedAt :: time
  n_ScheduledFor :: "time option"
  n_CreatedAt :: time
  n_UpdatedAt :: time
  n_Attachments :: "notification_attachment list"

record notification_response =
  r_NotificationID :: string
  r_TenantID :: string
  r_NotificationType :: string
  r_Recipient :: string
  r_Subject :: string
  r_Message :: string
  r_Status :: string
  r_ProviderMessageID :: string
  r_RetryCount :: int
  r_ScheduledFor :: "time option"
  r_CreatedAt :: time
  r_UpdatedAt :: time
  r_Attachments :: "email_attachment list"

definition convertEmailAttachments ::
  "string \<Rightarrow> string \<Rightarrow> email_attachment list \<Rightarrow> notification_attachment list" where
  "convertEmailAttachments tenantID notificationID attachments =
     map (\<lambda>att. \<lparr>na_ID = 0, na_TenantID = tenantID, na_NotificationID = notificationID,
                 na_Filename = ea_Filename att, na_ContentType = ea_ContentType att, na_Data = ea_Data att,
                 na_CreatedAt = zero_time, na_UpdatedAt = zero_time\<rparr>) attachments"

definition ToEmailAttachments :: "notification_attachment list \<Rightarrow> email_attachment list" where
  "ToEmailAttachments stored =
     map (\<lambda>att. \<lparr>ea_Filename = na_Filename att, ea_ContentType = na_ContentType att, ea_Data = na_Data att\<rparr>) stored"

definition NewNotification :: "time \<Rightarrow> string \<Rightarrow> string \<Rightarrow> notification_request \<Rightarrow> notification" where
  "NewNotification now notificationID tenantID req =
     \<lparr>n_ID = 0, n_TenantID = tenantID, n_NotificationID = notificationID,
      n_NotificationType = nr_notificationType req, n_Recipient = nr_recipient req,
      n_Subject = nr_subject req, n_Message = nr_message req, n_ProviderMessageID = '''',
      n_Status = StatusQueued, n_RetryCount = 0, n_LastAttemptedAt = zero_time,
      n_ScheduledFor = nr_scheduledFor req, n_CreatedAt = now, n_UpdatedAt = now,
      n_Attachments = convertEmailAttachments tenantID notificationID (nr_attachments req)\<rparr>"

definition NewNotificationResponse :: "notification \<Rightarrow> notification_response" where
  "NewNotificationResponse n =
     (let canonical = CanonicalStatus (n_Status n);
          status = (if canonical = '''' then StatusUnknown else canonical) in
      \<lparr>r_NotificationID = n_NotificationID n, r_TenantID = n_TenantID n,
       r_NotificationType = n_NotificationType n, r_Recipient = n_Recipient n, r_Subject = n_Subject n,
       r_Message = n_Message n, r_Status = status, r_ProviderMessageID = n_ProviderMessageID n,
       r_RetryCount = n_RetryCount n, r_ScheduledFor = n_ScheduledFor n, r_CreatedAt = n_CreatedAt n,
       r_UpdatedAt = n_UpdatedAt n, r_Attachments = ToEmailAttachments (n_Attachments n)\<rparr>)"

subsection \<open>List filters, cursors and page requests\<close>

definition maxNotificationListLimit :: int where "maxNotificationListLimit = 100"
definition defaultNotificationListLimit :: int where "defaultNotificationListLimit = 50"
definition maxNotificationSearchLength :: nat where "maxNotificationSearchLength = 200"

record notification_search_query =
  sq_value :: string

record notification_list_filters =
  lf_Statuses :: "string list"
  lf_SearchQuery :: notification_search_query

definition NewNotificationSearchQuery :: "string \<Rightarrow> notification_search_query result" where
  "NewNotificationSearchQuery rawValue =
     (let normalized = TrimSpace rawValue in
      if RuneCountInString normalized > maxNotificationSearchLength
      then Inl (Errorf '''' ErrInvalidNotificationSearch
                 ('': max length is '' @ Itoa (int maxNotificationSearchLength)))
      else Inr \<lparr>sq_value = normalized\<rparr>)"

definition sq_IsZero :: "notification_search_query \<Rightarrow> bool" where
  "sq_IsZero query \<longleftrightarrow> sq_value query = ''''"

fun normalizeStatusLoop :: "string set \<Rightarrow> string list \<Rightarrow> string list" where
  "normalizeStatusLoop seen [] = []"
| "normalizeStatusLoop seen (status # rest) =
     (let canonical = CanonicalStatus status in
      if canonical = '''' then normalizeStatusLoop seen rest
      else if canonical \<in> seen then normalizeStatusLoop seen rest
      else canonical # normalizeStatusLoop (insert canonical seen) rest)"

definition NormalizedStatuses :: "notification_list_filters \<Rightarrow> string list" where
  "NormalizedStatuses filters =
     (if lf_Statuses filters = [] then [] else normalizeStatusLoop {} (lf_Statuses filters))"

record notification_list_cursor =
  c_createdAt :: time
  c_id :: nat

record cursor_codec =
  json_Marshal :: "string \<Rightarrow> nat \<Rightarrow> bytes"
  json_Unmarshal :: "bytes \<Rightarrow> (string \<times> nat) option"
  rfc3339_Format :: "time \<Rightarrow> string"
  rfc3339_Parse :: "string \<Rightarrow> time option"

definition cursor_codec_law :: "cursor_codec \<Rightarrow> bool" where
  "cursor_codec_law C \<longleftrightarrow>
     (\<forall>s i. json_Unmarshal C (json_Marshal C s i) = Some (s, i) \<and> json_Marshal C s i \<noteq> [])
     \<and> (\<forall>t. rfc3339_Parse C (rfc3339_Format C t) = Some t)"

definition NewNotificationListCursor :: "time \<Rightarrow> nat \<Rightarrow> notification_list_cursor result" where
  "NewNotificationListCursor createdAt i =
     (if i = 0 then Inl (Errorf '''' ErrInvalidNotificationCursor '': id is required'')
      else Inr \<lparr>c_createdAt = createdAt, c_id = i\<rparr>)"

definition ParseNotificationListCursor :: "cursor_codec \<Rightarrow> string \<Rightarrow> notification_list_cursor option result" where
  "ParseNotificationListCursor C rawValue =
     (let normalized = TrimSpace rawValue in
      if normalized = '''' then Inr None
      else (case RawURLDecodeString normalized of
          None \<Rightarrow> Inl (Errorf '''' ErrInvalidNotificationCursor '': decode'')
        | Some decoded \<Rightarrow>
            (case json_Unmarshal C decoded of
               None \<Rightarrow> Inl (Errorf '''' ErrInvalidNotificationCursor '': payload'')
             | Some (createdAtText, i) \<Rightarrow>
                 (case rfc3339_Parse C createdAtText of
                    None \<Rightarrow> Inl (Errorf '''' ErrInvalidNotificationCursor '': created_at'')
                  | Some createdAt \<Rightarrow>
                      (case NewNotificationListCursor createdAt i of
                         Inl e \<Rightarrow> Inl e
                       | Inr cursor \<Rightarrow> Inr (Some cursor))))))"

definition cursor_Encode :: "cursor_codec \<Rightarrow> notification_list_cursor \<Rightarrow> string" where
  "cursor_Encode C cursor =
     RawURLEncodeToString (json_Marshal C (rfc3339_Format C (c_createdAt cursor)) (c_id cursor))"

record notification_list_page_request =
  pr_limit :: int
  pr_cursor :: "notification_list_cursor option"

definition NewNotificationListPageRequest ::
  "int \<Rightarrow> notification_list_cursor option \<Rightarrow> notification_list_page_request result" where
  "NewNotificationListPageRequest limit cursor =
     (if limit < 1 \<or> limit > maxNotificationListLimit
      then Inl (Errorf '''' ErrInvalidNotificationLimit
                 ('': limit must be between 1 and '' @ Itoa maxNotificationListLimit))
      else Inr \<lparr>pr_limit = limit, pr_cursor = cursor\<rparr>)"

definition DefaultNotificationListPageRequest :: notification_list_page_request where
  "DefaultNotificationListPageRequest = \<lparr>pr_limit = defaultNotificationListLimit, pr_cursor = None\<rparr>"

record notification_list_page =
  np_Notifications :: "notification list"
  np_NextCursor :: string

record notification_list_response_page =
  rp_Notifications :: "notification_response list"
  rp_NextCursor :: string

subsection \<open>Queries\<close>

type_synonym sql_like = "string \<Rightarrow> string \<Rightarrow> bool"
type_synonym 'd notification_table = "('d, notification) gorm_table"

definition CreateNotification ::
  "'d notification_table \<Rightarrow> notification \<Rightarrow> 'd \<Rightarrow> notification result \<times> 'd" where
  "CreateNotification T n d = g_Create T n d"

definition GetNotificationByID ::
  "'d notification_table \<Rightarrow> string \<Rightarrow> string \<Rightarrow> 'd \<Rightarrow> notification result" where
  "GetNotificationByID T tenantID notificationID d =
     g_First T (\<lambda>n. where_field tenantID (n_TenantID n) \<and> where_field notificationID (n_NotificationID n)) d"

definition SaveNotification ::
  "'d notification_table \<Rightarrow> notification \<Rightarrow> 'd \<Rightarrow> notification result \<times> 'd" where
  "SaveNotification T n d = g_Save T n d"

definition GetPendingRetryNotifications ::
  "'d notification_table \<Rightarrow> string \<Rightarrow> int \<Rightarrow> time \<Rightarrow> 'd \<Rightarrow> notification list result" where
  "GetPendingRetryNotifications T tenantID maxRetries currentTime d =
     g_Find T (\<lambda>n. n_TenantID n = tenantID \<and> n_Status n \<in> {StatusQueued, StatusErrored}
                    \<and> n_RetryCount n < maxRetries
                    \<and> (case n_ScheduledFor n of None \<Rightarrow> True | Some t \<Rightarrow> t \<le> currentTime))
       any_order None d"

definition notificationSearchCondition :: "sql_like \<Rightarrow> notification_search_query \<Rightarrow> notification \<Rightarrow> bool" where
  "notificationSearchCondition like query n =
     (let pattern = ''%'' @ sq_value query @ ''%'' in
      list_ex (like pattern)
        [n_NotificationID n, n_TenantID n, n_NotificationType n, n_Status n, n_Recipient n, n_Subject n, n_Message n])"

definition notification_list_order :: "notification \<Rightarrow> notification \<Rightarrow> bool" where
  "notification_list_order a b \<longleftrightarrow>
     n_CreatedAt b < n_CreatedAt a \<or> n_CreatedAt a = n_CreatedAt b \<and> n_ID b \<le> n_ID a"

definition notificationListQuery :: "sql_like \<Rightarrow> notification_list_filters \<Rightarrow> notification \<Rightarrow> bool" where
  "notificationListQuery like filters n =
     (let statuses = NormalizedStatuses filters in
      (statuses = [] \<or> n_Status n \<in> set statuses)
      \<and> (sq_IsZero (lf_SearchQuery filters) \<or> notificationSearchCondition like (lf_SearchQuery filters) n))"

definition notificationCursorCondition :: "notification_list_cursor \<Rightarrow> notification \<Rightarrow> bool" where
  "notificationCursorCondition cursor n \<longleftrightarrow>
     n_CreatedAt n < c_createdAt cursor \<or> n_CreatedAt n = c_createdAt cursor \<and> n_ID n < c_id cursor"

definition ListNotifications ::
  "sql_like \<Rightarrow> 'd notification_table \<Rightarrow> string \<Rightarrow> notification_list_filters \<Rightarrow> 'd \<Rightarrow> notification list result" where
  "ListNotifications like T tenantID filters d =
     g_Find T (\<lambda>n. notificationListQuery like filters n \<and> where_field tenantID (n_TenantID n))
       notification_list_order None d"

definition ListNotificationsAll ::
  "sql_like \<Rightarrow> 'd notification_table \<Rightarrow> notification_list_filters \<Rightarrow> 'd \<Rightarrow> notification list result" where
  "ListNotificationsAll like T filters d =
     g_Find T (notificationListQuery like filters) notification_list_order None d"

definition notificationPageFromRecords ::
  "cursor_codec \<Rightarrow> notification list \<Rightarrow> int \<Rightarrow> notification_list_page result" where
  "notificationPageFromRecords C records limit =
     (if int (length records) \<le> limit then Inr \<lparr>np_Notifications = records, np_NextCursor = ''''\<rparr>
      else let pageRecords = take (nat limit) records in
      if pageRecords = [] then Inl (External ''index out of range'')
      else let lastRecord = last pageRecords in
      (case NewNotificationListCursor (n_CreatedAt lastRecord) (n_ID lastRecord) of
         Inl e \<Rightarrow> Inl e
       | Inr cursor \<Rightarrow> Inr \<lparr>np_Notifications = pageRecords, np_NextCursor = cursor_Encode C cursor\<rparr>))"

definition ListNotificationsPage ::
  "cursor_codec \<Rightarrow> sql_like \<Rightarrow> 'd notification_table \<Rightarrow> string \<Rightarrow> notification_list_filters
   \<Rightarrow> notification_list_page_request \<Rightarrow> 'd \<Rightarrow> notification_list_page result" where
  "ListNotificationsPage C like T tenantID filters pageRequest d =
     (case g_Find T (\<lambda>n. (notificationListQuery like filters n \<and> where_field tenantID (n_TenantID n))
                          \<and> (case pr_cursor pageRequest of None \<Rightarrow> True
                              | Some cursor \<Rightarrow> notificationCursorCondition cursor n))
             notification_list_order (Some (nat (pr_limit pageRequest + 1))) d of
        Inl e \<Rightarrow> Inl e
      | Inr records \<Rightarrow> notificationPageFromRecords C records (pr_limit pageRequest))"

definition MustGetNotificationByID ::
  "'d notification_table \<Rightarrow> string \<Rightarrow> string \<Rightarrow> 'd \<Rightarrow> notification result" where
  "MustGetNotificationByID T tenantID notificationID d =
     (case GetNotificationByID T tenantID notificationID d of
        Inl e \<Rightarrow> if e = ErrRecordNotFound then Inl (Errorf '''' ErrNotificationNotFound ('': '' @ notificationID))
                 else Inl (Errorf ''get_notification_by_id: '' e '''')
      | Inr n \<Rightarrow> Inr n)"

text \<open>A client that follows \<open>NextCursor\<close> from the first page; it stops when the cursor is empty.\<close>

fun fetch_pages ::
  "nat \<Rightarrow> cursor_codec \<Rightarrow> sql_like \<Rightarrow> 'd notification_table \<Rightarrow> string \<Rightarrow> notification_list_filters \<Rightarrow> int
   \<Rightarrow> string \<Rightarrow> 'd \<Rightarrow> notification list result" where
  "fetch_pages 0 C like T tenantID filters limit raw d = Inl (External ''out of fuel'')"
| "fetch_pages (Suc fuel) C like T tenantID filters limit raw d =
     (case ParseNotificationListCursor C raw of
        Inl e \<Rightarrow> Inl e
      | Inr cursor \<Rightarrow>
          (case NewNotificationListPageRequest limit cursor of
             Inl e \<Rightarrow> Inl e
           | Inr pageRequest \<Rightarrow>
               (case ListNotificationsPage C like T tenantID filters pageRequest d of
                  Inl e \<Rightarrow> Inl e
                | Inr page \<Rightarrow>
                    if np_NextCursor page = '''' then Inr (np_Notifications page)
                    else (case fetch_pages fuel C like T tenantID filters limit (np_NextCursor page) d of
                        Inl e \<Rightarrow> Inl e
                      | Inr rest \<Rightarrow> Inr (np_Notifications page @ rest)))))"

subsection \<open>Request validation\<close>

definition attachment_ok :: "email_attachment \<Rightarrow> bool" where
  "attachment_ok a \<longleftrightarrow> TrimSpace (ea_Filename a) \<noteq> '''' \<and> ea_Data a \<noteq> []
     \<and> int (length (ea_Data a)) \<le> maxNotificationAttachmentSizeBytes"

definition normal_attachment :: "email_attachment \<Rightarrow> email_attachment" where
  "normal_attachment a =
     \<lparr>ea_Filename = TrimSpace (ea_Filename a),
      ea_ContentType = (if TrimSpace (ea_ContentType a) = '''' then defaultAttachmentContentType
                        else TrimSpace (ea_ContentType a)),
      ea_Data = ea_Data a\<rparr>"

definition attachment_bytes :: "email_attachment list \<Rightarrow> int" where
  "attachment_bytes atts = sum_list (map (\<lambda>a. int (length (ea_Data a))) atts)"

definition attachments_ok :: "string \<Rightarrow> email_attachment list \<Rightarrow> bool" where
  "attachments_ok t atts \<longleftrightarrow> atts = [] \<or>
     t = NotificationEmail \<and> int (length atts) \<le> maxNotificationAttachmentCount
     \<and> list_all attachment_ok atts \<and> attachment_bytes atts \<le> maxNotificationAttachmentsTotalBytes"

lemma normalizeAttachmentLoop_ok:
  "list_all attachment_ok atts \<Longrightarrow>
   normalizeAttachmentLoop i n acc atts = Inr (n + attachment_bytes atts, acc @ map normal_attachment atts)"
  by (induction atts arbitrary: i n acc)
    (simp_all add: attachment_ok_def attachment_bytes_def normal_attachment_def Let_def)

lemma normalizeAttachmentLoop_bad:
  "\<not> list_all attachment_ok atts \<Longrightarrow> \<exists>e. normalizeAttachmentLoop i n acc atts = Inl e"
  by (induction atts arbitrary: i n acc) (auto simp: attachment_ok_def Let_def)

lemma normalizeNotificationAttachments_spec:
  "(attachments_ok t atts \<longrightarrow> normalizeNotificationAttachments t atts = Inr (map normal_attachment atts))
   \<and> (\<not> attachments_ok t atts \<longrightarrow> \<not> is_ok (normalizeNotificationAttachments t atts))"
proof (cases "list_all attachment_ok atts")
  case True
  from normalizeAttachmentLoop_ok[OF this, of 0 0 "[]"] True show ?thesis
    by (auto simp: attachments_ok_def normalizeNotificationAttachments_def)
next
  case False
  with normalizeAttachmentLoop_bad[OF False, of 0 0 "[]"] show ?thesis
    by (auto simp: attachments_ok_def normalizeNotificationAttachments_def)
qed

text \<open>C35. \<open>NewNotificationRequest\<close> accepts exactly the requests with a non-blank recipient and
  message, a known type and, for e-mail only, at most 10 named, non-empty attachments of at most 5 MiB
  each and 25 MiB together; the request it builds holds the trimmed recipient and subject, the
  message unchanged, and the attachments in order with trimmed names and a content type.\<close>

theorem new_request_spec:
  "NewNotificationRequest t recipient subject message sched atts = Inr req \<longleftrightarrow>
     TrimSpace recipient \<noteq> '''' \<and> TrimSpace message \<noteq> '''' \<and> t \<in> {''email'', ''sms''} \<and> attachments_ok t atts
     \<and> req = \<lparr>nr_notificationType = t, nr_recipient = TrimSpace recipient, nr_subject = TrimSpace subject,
             nr_message = message, nr_scheduledFor = sched, nr_attachments = map normal_attachment atts\<rparr>"
  using normalizeNotificationAttachments_spec[of t atts]
  by (cases "attachments_ok t atts"; cases "normalizeNotificationAttachments t atts")
    (auto simp: NewNotificationRequest_def Let_def isSupportedNotificationType_def NotificationEmail_def
      NotificationSMS_def)


subsection \<open>Status filters\<close>

lemma normalizeStatusLoop_dedup:
  "normalizeStatusLoop seen ss = dedup_seen seen (filter (\<lambda>s. CanonicalStatus s \<noteq> '''') ss)"
  by (induction seen ss rule: normalizeStatusLoop.induct) (auto simp: CanonicalStatus_def Let_def)

lemma known_status:
  "CanonicalStatus s \<noteq> '''' \<longleftrightarrow> s \<in> {''queued'', ''sent'', ''errored'', ''cancelled'', ''unknown''}"
  by (simp add: CanonicalStatus_def StatusQueued_def StatusSent_def StatusErrored_def StatusCancelled_def
      StatusUnknown_def)

text \<open>\<open>NormalizedStatuses\<close> keeps the first occurrence of each known status in the order given
  and nothing else.\<close>

lemma normalized_statuses_spec:
  "distinct (NormalizedStatuses f) \<and> subseq (NormalizedStatuses f) (lf_Statuses f)
   \<and> set (NormalizedStatuses f) =
       set (lf_Statuses f) \<inter> {''queued'', ''sent'', ''errored'', ''cancelled'', ''unknown''}"
proof -
  let ?ks = "filter (\<lambda>s. CanonicalStatus s \<noteq> '''') (lf_Statuses f)"
  have eq: "NormalizedStatuses f = dedup_seen {} ?ks"
    by (simp add: NormalizedStatuses_def normalizeStatusLoop_dedup)
  have "subseq (dedup_seen {} ?ks) (lf_Statuses f)"
    by (rule subseq_order.trans[OF dedup_seen_subseq subseq_filter_left])
  moreover have "set (dedup_seen {} ?ks) =
      set (lf_Statuses f) \<inter> {''queued'', ''sent'', ''errored'', ''cancelled'', ''unknown''}"
    unfolding set_dedup_seen known_status by auto
  ultimately show ?thesis unfolding eq using distinct_dedup_seen by blast
qed

subsection \<open>Cursors and pages\<close>

lemma cursor_Encode_nonempty: "cursor_codec_law C \<Longrightarrow> cursor_Encode C c \<noteq> ''''"
  by (simp add: cursor_Encode_def RawURL_eq_Nil cursor_codec_law_def)

lemma cursor_roundtrip:
  assumes "cursor_codec_law C" "c_id c \<noteq> 0"
  shows "ParseNotificationListCursor C (cursor_Encode C c) = Inr (Some c)"
proof -
  have t: "TrimSpace (cursor_Encode C c) = cursor_Encode C c"
    by (simp add: cursor_Encode_def TrimSpace_id trimmed_RawURL)
  have "RawURLDecodeString (cursor_Encode C c) =
      Some (json_Marshal C (rfc3339_Format C (c_createdAt c)) (c_id c))"
    by (simp add: cursor_Encode_def RawURL_roundtrip)
  then show ?thesis
    using assms cursor_Encode_nonempty[OF assms(1), of c] t
    by (simp add: ParseNotificationListCursor_def cursor_codec_law_def NewNotificationListCursor_def Let_def)
qed

lemma list_order_total: "total_preorder notification_list_order"
  by (auto simp: total_preorder_def notification_list_order_def)

definition cursor_of :: "notification \<Rightarrow> notification_list_cursor" where
  "cursor_of n = \<lparr>c_createdAt = n_CreatedAt n, c_id = n_ID n\<rparr>"

lemma cursor_after:
  "notification_list_order b a \<Longrightarrow> \<not> notificationCursorCondition (cursor_of a) b"
  "notification_list_order a b \<Longrightarrow> n_ID b \<noteq> n_ID a \<Longrightarrow> notificationCursorCondition (cursor_of a) b"
  by (auto simp: notificationCursorCondition_def cursor_of_def notification_list_order_def)

text \<open>In a list sorted for a listing, the rows the cursor of an element selects are those after it.\<close>

lemma filter_cursor_suffix:
  assumes srt: "sorted_wrt notification_list_order (xs @ a # ys)" and dist: "distinct (map n_ID (xs @ a # ys))"
  shows "filter (notificationCursorCondition (cursor_of a)) (xs @ a # ys) = ys"
proof -
  from srt have ord: "\<forall>x \<in> set xs. notification_list_order x a" "\<forall>y \<in> set ys. notification_list_order a y"
    by (simp_all add: sorted_wrt_append)
  have "notification_list_order a a" by (simp add: notification_list_order_def)
  with ord(1) cursor_after(1) have "\<forall>x \<in> set (xs @ [a]). \<not> notificationCursorCondition (cursor_of a) x"
    by simp
  moreover have "n_ID y \<noteq> n_ID a" if "y \<in> set ys" for y
    using dist image_eqI[OF refl that, of n_ID] by auto
  then have "\<forall>y \<in> set ys. notificationCursorCondition (cursor_of a) y"
    using ord(2) cursor_after(2) by blast
  ultimately show ?thesis by simp
qed

lemma list_order_antisym:
  "keys_ok n_ID rs \<Longrightarrow> a \<in> set rs \<Longrightarrow> b \<in> set rs \<Longrightarrow> notification_list_order a b \<Longrightarrow>
   notification_list_order b a \<Longrightarrow> a = b"
  by (rule keys_ok_unique[of n_ID]) (auto simp: notification_list_order_def)

text \<open>The rows of a listing, in order.\<close>

abbreviation listing :: "(notification \<Rightarrow> bool) \<Rightarrow> notification list \<Rightarrow> notification list" where
  "listing p rs \<equiv> sort_by notification_list_order (filter p rs)"

lemma listing_filter:
  assumes "keys_ok n_ID rs"
  shows "listing (\<lambda>n. p n \<and> q n) rs = filter q (listing p rs)"
proof (rule sorted_mset_unique[of _ notification_list_order])
  show "mset (listing (\<lambda>n. p n \<and> q n) rs) = mset (filter q (listing p rs))"
    by (simp add: filter_filter_mset conj_commute)
  show "sorted_wrt notification_list_order (filter q (listing p rs))"
    by (intro sorted_wrt_filter sorted_sort_by list_order_total)
qed (use list_order_antisym[OF assms] in \<open>auto simp: sorted_sort_by list_order_total notification_list_order_def\<close>)

lemma listing_distinct: "keys_ok n_ID rs \<Longrightarrow> distinct (map n_ID (listing p rs))"
proof -
  assume "keys_ok n_ID rs"
  then have "distinct (map n_ID (filter p rs))" by (simp add: keys_ok_def distinct_map_filter)
  moreover have "mset (map n_ID (listing p rs)) = mset (map n_ID (filter p rs))" by simp
  ultimately show ?thesis by (metis mset_eq_imp_distinct_iff)
qed

definition page_cursor :: "notification list \<Rightarrow> notification_list_cursor option" where
  "page_cursor pre = (if pre = [] then None else Some (cursor_of (last pre)))"

lemma listing_after_cursor:
  assumes keys: "keys_ok n_ID rs" and full: "listing p rs = pre @ rest"
  shows "listing (\<lambda>n. p n \<and> (case page_cursor pre of None \<Rightarrow> True | Some c \<Rightarrow> notificationCursorCondition c n)) rs = rest"
proof (cases pre rule: rev_cases)
  case Nil
  with full show ?thesis by (simp add: page_cursor_def)
next
  case (snoc xs a)
  have "sorted_wrt notification_list_order (xs @ a # rest)" "distinct (map n_ID (xs @ a # rest))"
    using sorted_sort_by[OF list_order_total, of "filter p rs"] listing_distinct[OF keys, of p]
    by (simp_all add: full snoc)
  from filter_cursor_suffix[OF this] show ?thesis
    by (simp add: page_cursor_def snoc listing_filter[OF keys] full)
qed

lemma find_listing:
  assumes "find_law T rows" "find_succeeds T d" "keys_ok n_ID (rows d)"
  shows "g_Find T p notification_list_order lim d = Inr (take_limit lim (listing p (rows d)))"
proof -
  from assms(2) obtain rs where rs: "g_Find T p notification_list_order lim d = Inr rs"
    unfolding find_succeeds_def is_ok_iff by blast
  from find_sorted[OF assms(1) list_order_total list_order_antisym[OF assms(3)] rs] rs show ?thesis by simp
qed

lemma page_spec:
  assumes T: "find_law T rows" "find_succeeds T d" "keys_ok n_ID (rows d)"
    and full: "listing (\<lambda>n. notificationListQuery like f n \<and> where_field tid (n_TenantID n)) (rows d) = pre @ rest"
    and limit: "1 \<le> limit"
  shows "ListNotificationsPage C like T tid f \<lparr>pr_limit = limit, pr_cursor = page_cursor pre\<rparr> d =
    Inr (if int (length rest) \<le> limit then \<lparr>np_Notifications = rest, np_NextCursor = ''''\<rparr>
         else \<lparr>np_Notifications = take (nat limit) rest,
               np_NextCursor = cursor_Encode C (cursor_of (last (take (nat limit) rest)))\<rparr>)"
proof -
  let ?recs = "take (nat (limit + 1)) rest"
  have "ListNotificationsPage C like T tid f \<lparr>pr_limit = limit, pr_cursor = page_cursor pre\<rparr> d =
      notificationPageFromRecords C ?recs limit"
    using listing_after_cursor[OF T(3) full]
    by (simp add: ListNotificationsPage_def find_listing[OF T] take_limit_def)
  moreover have "?recs = rest" if "int (length rest) \<le> limit" using that by simp
  moreover have "take (nat limit) ?recs = take (nat limit) rest" "take (nat limit) rest \<noteq> []"
    "\<not> int (length ?recs) \<le> limit" "n_ID (last (take (nat limit) rest)) \<noteq> 0"
    if "\<not> int (length rest) \<le> limit"
  proof -
    from that limit show ne: "take (nat limit) rest \<noteq> []" by auto
    from that limit show "take (nat limit) ?recs = take (nat limit) rest" "\<not> int (length ?recs) \<le> limit"
      by (auto simp: min_def)
    have "set (pre @ rest) \<subseteq> set (rows d)" using full by (metis filter_is_subset set_sort_by)
    then have "last (take (nat limit) rest) \<in> set (rows d)"
      using last_in_set[OF ne] by (auto dest: in_set_takeD)
    with T(3) show "n_ID (last (take (nat limit) rest)) \<noteq> 0" by (simp add: keys_ok_def)
  qed
  ultimately show ?thesis
    by (cases "int (length rest) \<le> limit")
      (simp_all add: notificationPageFromRecords_def NewNotificationListCursor_def Let_def cursor_of_def)
qed

lemma fetch_from:
  assumes T: "find_law T rows" "find_succeeds T d" "keys_ok n_ID (rows d)" and C: "cursor_codec_law C"
    and limit: "1 \<le> limit" "limit \<le> 100"
    and full: "listing (\<lambda>n. notificationListQuery like f n \<and> where_field tid (n_TenantID n)) (rows d) = pre @ rest"
    and fuel: "length rest < fuel"
    and raw: "raw = (case page_cursor pre of None \<Rightarrow> '''' | Some c \<Rightarrow> cursor_Encode C c)"
  shows "fetch_pages fuel C like T tid f limit raw d = Inr rest"
  using full fuel raw
proof (induction fuel arbitrary: pre rest raw)
  case 0
  then show ?case by simp
next
  case (Suc fuel)
  let ?page = "if int (length rest) \<le> limit then \<lparr>np_Notifications = rest, np_NextCursor = ''''\<rparr>
    else \<lparr>np_Notifications = take (nat limit) rest,
          np_NextCursor = cursor_Encode C (cursor_of (last (take (nat limit) rest)))\<rparr>"
  have "set pre \<subseteq> set (rows d)" using Suc.prems(1) by (metis Un_subset_iff filter_is_subset set_append set_sort_by)
  then have "pre \<noteq> [] \<Longrightarrow> n_ID (last pre) \<noteq> 0"
    using T(3) by (meson keys_ok_def last_in_set subsetD)
  then have parse: "ParseNotificationListCursor C raw = Inr (page_cursor pre)"
    using Suc.prems(3) cursor_roundtrip[OF C, of "cursor_of (last pre)"]
    by (auto simp: page_cursor_def ParseNotificationListCursor_def cursor_of_def)
  have page: "ListNotificationsPage C like T tid f \<lparr>pr_limit = limit, pr_cursor = page_cursor pre\<rparr> d = Inr ?page"
    by (rule page_spec[OF T Suc.prems(1) limit(1)])
  show ?case
  proof (cases "int (length rest) \<le> limit")
    case True
    with parse page limit show ?thesis
      by (simp add: NewNotificationListPageRequest_def maxNotificationListLimit_def)
  next
    case False
    let ?h = "take (nat limit) rest" and ?t = "drop (nat limit) rest"
    have h: "?h \<noteq> []" using False limit by auto
    have cur: "page_cursor (pre @ ?h) = Some (cursor_of (last ?h))" using h by (simp add: page_cursor_def)
    have "fetch_pages fuel C like T tid f limit (cursor_Encode C (cursor_of (last ?h))) d = Inr ?t"
      using Suc.prems(1,2) limit False by (intro Suc.IH[of "pre @ ?h"]) (auto simp: cur)
    with parse page limit False cursor_Encode_nonempty[OF C] show ?thesis
      by (simp add: NewNotificationListPageRequest_def maxNotificationListLimit_def)
  qed
qed

subsection \<open>A table and a codec for the examples\<close>

definition note_table :: "(notification list) notification_table" where
  "note_table = list_table id (\<lambda>rs _. rs) n_ID (\<lambda>k n. n\<lparr>n_ID := k\<rparr>)"

definition same_note :: "notification \<Rightarrow> notification \<Rightarrow> bool" where
  "same_note n n' \<longleftrightarrow> n'\<lparr>n_ID := 0, n_UpdatedAt := 0, n_Attachments := []\<rparr> = n\<lparr>n_ID := 0, n_UpdatedAt := 0, n_Attachments := []\<rparr>
     \<and> ToEmailAttachments (n_Attachments n') = ToEmailAttachments (n_Attachments n)"

definition demo_note :: "nat \<Rightarrow> string \<Rightarrow> time \<Rightarrow> notification" where
  "demo_note i tid created =
     (NewNotification created (''n'' @ Itoa (int i)) tid
       \<lparr>nr_notificationType = ''email'', nr_recipient = ''a@b.c'', nr_subject = '''', nr_message = ''m'',
        nr_scheduledFor = None, nr_attachments = []\<rparr>)\<lparr>n_ID := i\<rparr>"

definition unary_codec :: cursor_codec where
  "unary_codec =
     \<lparr>json_Marshal = (\<lambda>s i. replicate i (CHR ''i'') @ CHR ''{'' # s),
      json_Unmarshal = (\<lambda>b. Some (tl (dropWhile (\<lambda>c. c = CHR ''i'') b), length (takeWhile (\<lambda>c. c = CHR ''i'') b))),
      rfc3339_Format = (\<lambda>t. (if t < 0 then CHR ''-'' else CHR ''+'') # replicate (nat \<bar>t\<bar>) (CHR ''1'')),
      rfc3339_Parse = (\<lambda>s. Some (if hd s = CHR ''-'' then - int (length (tl s)) else int (length (tl s))))\<rparr>"

definition no_filters :: notification_list_filters where
  "no_filters = \<lparr>lf_Statuses = [], lf_SearchQuery = \<lparr>sq_value = ''''\<rparr>\<rparr>"

lemma same_note_refl [simp]: "same_note n n" "same_note n (n\<lparr>n_ID := k\<rparr>)"
  by (simp_all add: same_note_def)

lemma note_table_laws [simp]:
  "find_law note_table id" "first_law note_table id" "create_law note_table id n_ID same_note"
  "save_law note_table id n_ID same_note" "find_succeeds note_table d"
  unfolding note_table_def by (rule list_table_laws list_table_find_succeeds; simp)+

lemma unary_codec_law: "cursor_codec_law unary_codec"
proof -
  have "dropWhile (\<lambda>c. c = CHR ''i'') (replicate i CHR ''i'' @ CHR ''{'' # s) = CHR ''{'' # s"
    "takeWhile (\<lambda>c. c = CHR ''i'') (replicate i CHR ''i'' @ CHR ''{'' # s) = replicate i CHR ''i''" for i s
    by (induction i) auto
  then show ?thesis by (simp add: cursor_codec_law_def unary_codec_def)
qed

subsection \<open>Properties of listings\<close>

text \<open>A list cursor survives its encoding: parsing what \<open>Encode\<close> returns for a cursor of a stored
  row gives the cursor back, given that JSON and RFC 3339 texts read back what they were written from.\<close>

lemma cursor_parse_encode:
  assumes "cursor_codec_law C" "NewNotificationListCursor t i = Inr c"
  shows "ParseNotificationListCursor C (cursor_Encode C c) = Inr (Some c)"
  using assms cursor_roundtrip[OF assms(1), of c]
  by (auto simp: NewNotificationListCursor_def split: if_splits)

text \<open>C7. Paging is complete and exact: a client that starts without a cursor and follows
  \<open>NextCursor\<close> with any page size from 1 to 100 reads, page after page, exactly the list
  \<open>ListNotifications\<close> returns (every matching row once, newest first), and it stops after at
  most one request per row and one more.\<close>

theorem pagination_complete:
  assumes "find_law T rows" "find_succeeds T d" "keys_ok n_ID (rows d)" "cursor_codec_law C"
    and "1 \<le> limit" "limit \<le> 100" "length (rows d) < fuel"
  shows "is_ok (fetch_pages fuel C like T tid f limit '''' d)
    \<and> fetch_pages fuel C like T tid f limit '''' d = ListNotifications like T tid f d"
proof -
  let ?p = "\<lambda>n. notificationListQuery like f n \<and> where_field tid (n_TenantID n)"
  have "length (listing ?p (rows d)) < fuel"
    unfolding length_sort_by by (rule le_less_trans[OF length_filter_le assms(7)])
  then have "fetch_pages fuel C like T tid f limit '''' d = Inr (listing ?p (rows d))"
    by (intro fetch_from[OF assms(1-6), of _ _ _ "[]"]) (simp_all add: page_cursor_def)
  moreover have "ListNotifications like T tid f d = Inr (listing ?p (rows d))"
    by (simp add: ListNotifications_def find_listing[OF assms(1-3)] take_limit_def)
  ultimately show ?thesis by simp
qed

theorem pagination_complete_witness:
  "fetch_pages 5 unary_codec (\<lambda>_ _. True) note_table ''t'' no_filters 2 ''''
     [demo_note 1 ''t'' 5, demo_note 2 ''u'' 6, demo_note 3 ''t'' 5, demo_note 4 ''t'' 4]
   = Inr [demo_note 3 ''t'' 5, demo_note 1 ''t'' 5, demo_note 4 ''t'' 4]"
proof -
  let ?d = "[demo_note 1 ''t'' 5, demo_note 2 ''u'' 6, demo_note 3 ''t'' 5, demo_note 4 ''t'' 4]"
  have "keys_ok n_ID (id ?d)" by (simp add: keys_ok_def demo_note_def)
  then have "fetch_pages 5 unary_codec (\<lambda>_ _. True) note_table ''t'' no_filters 2 '''' ?d =
      ListNotifications (\<lambda>_ _. True) note_table ''t'' no_filters ?d"
    using pagination_complete[OF note_table_laws(1,5) _ unary_codec_law, of ?d 2 5] by simp
  also have "\<dots> = Inr [demo_note 3 ''t'' 5, demo_note 1 ''t'' 5, demo_note 4 ''t'' 4]"
    by code_simp
  finally show ?thesis .
qed

text \<open>C29. Tenants do not see each other's notifications: whatever \<open>MustGetNotificationByID\<close> returns
  for a tenant belongs to that tenant and has the identifier asked for, and \<open>ErrNotificationNotFound\<close>
  is returned only when no row of the tenant has it.\<close>

theorem get_notification_isolated:
  assumes "first_law T rows" "tid \<noteq> ''''" "nid \<noteq> ''''"
  shows "(\<forall>n. MustGetNotificationByID T tid nid d = Inr n \<longrightarrow>
            n \<in> set (rows d) \<and> n_TenantID n = tid \<and> n_NotificationID n = nid)
    \<and> (\<forall>e. MustGetNotificationByID T tid nid d = Inl (Errorf '''' ErrNotificationNotFound e) \<longrightarrow>
            filter (\<lambda>n. n_TenantID n = tid \<and> n_NotificationID n = nid) (rows d) = [])"
proof (intro conjI allI impI)
  fix n assume "MustGetNotificationByID T tid nid d = Inr n"
  then have "GetNotificationByID T tid nid d = Inr n"
    by (simp add: MustGetNotificationByID_def split: sum.splits if_splits)
  with assms show "n \<in> set (rows d)" "n_TenantID n = tid" "n_NotificationID n = nid"
    unfolding GetNotificationByID_def first_law_def where_field_def by blast+
next
  fix e assume "MustGetNotificationByID T tid nid d = Inl (Errorf '''' ErrNotificationNotFound e)"
  then have "GetNotificationByID T tid nid d = Inl ErrRecordNotFound"
    by (simp add: MustGetNotificationByID_def split: sum.splits if_splits)
  with assms have "filter (\<lambda>n. where_field tid (n_TenantID n) \<and> where_field nid (n_NotificationID n)) (rows d) = []"
    unfolding GetNotificationByID_def first_law_def by blast
  with assms(2,3) show "filter (\<lambda>n. n_TenantID n = tid \<and> n_NotificationID n = nid) (rows d) = []"
    by (simp add: where_field_def)
qed

theorem get_notification_isolated_witness:
  "MustGetNotificationByID note_table ''t'' ''n2'' [demo_note 1 ''t'' 5, demo_note 2 ''t'' 6] = Inr (demo_note 2 ''t'' 6)
   \<and> n_TenantID (demo_note 2 ''t'' 6) = ''t'' \<and> n_NotificationID (demo_note 2 ''t'' 6) = ''n2''"
proof -
  have "MustGetNotificationByID note_table ''t'' ''n2'' [demo_note 1 ''t'' 5, demo_note 2 ''t'' 6] = Inr (demo_note 2 ''t'' 6)"
    by code_simp
  with get_notification_isolated[OF note_table_laws(2), of "''t''" "''n2''"] show ?thesis by simp
qed

end
