(* ===== verification/Tenant.thy ===== *)
theory Tenant
  imports Gorm
begin

text \<open>
  Tenants (\<open>internal/tenant\<close>: \<open>models.go\<close>, \<open>secrets.go\<close>, \<open>repository.go\<close>): the rows, the
  secret keeper, and the repository with its two caches. AES-GCM is an argument, the record
  \<open>aead\<close>, of which the proofs use that opening a sealed text under the same key and nonce gives it
  back; the random source is a byte stream. The tenant tables are arguments too (\<open>tenant_db\<close>),
  with their documented behaviour stated over \<open>tenant_store\<close>, the five lists of rows.
\<close>

subsection \<open>Rows\<close>

definition TenantStatusActive :: string where "TenantStatusActive = ''active''"
definition TenantStatusSuspended :: string where "TenantStatusSuspended = ''suspended''"

record tenant =
  t_ID :: string
  t_DisplayName :: string
  t_SupportEmail :: string
  t_Status :: string
  t_CreatedAt :: time
  t_UpdatedAt :: time

record tenant_domain =
  td_ID :: nat
  td_TenantID :: string
  td_Host :: string
  td_IsDefault :: bool
  td_CreatedAt :: time
  td_UpdatedAt :: time

record tenant_admin =
  ta_ID :: nat
  ta_TenantID :: string
  ta_Email :: string
  ta_CreatedAt :: time
  ta_UpdatedAt :: time

record email_profile =
  ep_ID :: string
  ep_TenantID :: string
  ep_Host :: string
  ep_Port :: int
  ep_UsernameCipher :: bytes
  ep_PasswordCipher :: bytes
  ep_FromAddress :: string
  ep_IsDefault :: bool
  ep_CreatedAt :: time
  ep_UpdatedAt :: time

record sms_profile =
  sp_ID :: string
  sp_TenantID :: string
  sp_AccountSIDCipher :: bytes
  sp_AuthTokenCipher :: bytes
  sp_FromNumber :: string
  sp_IsDefault :: bool
  sp_CreatedAt :: time
  sp_UpdatedAt :: time

record email_credentials =
  ec_Host :: string
  ec_Port :: int
  ec_Username :: string
  ec_Password :: string
  ec_FromAddress :: string

record sms_credentials =
  smc_AccountSID :: string
  smc_AuthToken :: string
  smc_FromNumber :: string

record runtime_config =
  rc_Tenant :: tenant
  rc_Email :: email_credentials
  rc_SMS :: "sms_credentials option"

subsection \<open>Secrets\<close>

record aead =
  aead_Seal :: "bytes \<Rightarrow> bytes \<Rightarrow> bytes \<Rightarrow> bytes"
  aead_Open :: "bytes \<Rightarrow> bytes \<Rightarrow> bytes \<Rightarrow> bytes option"

definition aead_law :: "aead \<Rightarrow> bool" where
  "aead_law A \<longleftrightarrow> (\<forall>key nonce plain. aead_Open A key nonce (aead_Seal A key nonce plain) = Some plain)"

definition gcm_nonce_size :: nat where "gcm_nonce_size = 12"

record secret_keeper =
  sk_key :: bytes

definition hex_value :: "char \<Rightarrow> nat option" where
  "hex_value c =
     (let n = (of_char c :: nat) in
      if 48 \<le> n \<and> n \<le> 57 then Some (n - 48)
      else if 97 \<le> n \<and> n \<le> 102 then Some (n - 87)
      else if 65 \<le> n \<and> n \<le> 70 then Some (n - 55)
      else None)"

fun hex_DecodeString :: "string \<Rightarrow> bytes option" where
  "hex_DecodeString [] = Some []"
| "hex_DecodeString [c] = None"
| "hex_DecodeString (a # b # rest) =
     (case (hex_value a, hex_value b, hex_DecodeString rest) of
        (Some x, Some y, Some out) \<Rightarrow> Some (char_of (16 * x + y) # out)
      | _ \<Rightarrow> None)"

definition NewSecretKeeper :: "string \<Rightarrow> secret_keeper result" where
  "NewSecretKeeper rawKey =
     (case hex_DecodeString rawKey of
        None \<Rightarrow> Inl (Errorf ''tenant: invalid encryption key: '' (External ''encoding/hex: invalid input'') '''')
      | Some keyBytes \<Rightarrow>
          if length keyBytes \<noteq> 32 then Inl (ErrorsNew ''tenant: encryption key must decode to 32 bytes'')
          else Inr \<lparr>sk_key = keyBytes\<rparr>)"

definition aes_key_ok :: "bytes \<Rightarrow> bool" where
  "aes_key_ok key \<longleftrightarrow> length key \<in> {16, 24, 32}"

text \<open>\<open>io.ReadFull\<close> of the nonce takes its bytes off the random stream.\<close>

definition Encrypt :: "aead \<Rightarrow> secret_keeper \<Rightarrow> string \<Rightarrow> bytes \<Rightarrow> bytes result \<times> bytes" where
  "Encrypt A keeper plaintext random =
     (if \<not> aes_key_ok (sk_key keeper)
      then (Inl (Errorf ''tenant: init cipher: '' (External ''crypto/aes: invalid key size'') ''''), random)
      else if length random < gcm_nonce_size
      then (Inl (Errorf ''tenant: nonce: '' (External ''unexpected EOF'') ''''), [])
      else let nonce = take gcm_nonce_size random in
        (Inr (nonce @ aead_Seal A (sk_key keeper) nonce plaintext), drop gcm_nonce_size random))"

definition Decrypt :: "aead \<Rightarrow> secret_keeper \<Rightarrow> bytes \<Rightarrow> string result" where
  "Decrypt A keeper ciphertext =
     (if \<not> aes_key_ok (sk_key keeper)
      then Inl (Errorf ''tenant: init cipher: '' (External ''crypto/aes: invalid key size'') '''')
      else if length ciphertext < gcm_nonce_size then Inl (ErrorsNew ''tenant: ciphertext too short'')
      else (case aead_Open A (sk_key keeper) (take gcm_nonce_size ciphertext) (drop gcm_nonce_size ciphertext) of
          None \<Rightarrow> Inl (Errorf ''tenant: decrypt: '' (External ''cipher: message authentication failed'') '''')
        | Some plaintext \<Rightarrow> Inr plaintext))"

subsection \<open>The tenant tables\<close>

record 'd tenant_db =
  tb_tenants :: "('d, tenant) gorm_table"
  tb_domains :: "('d, tenant_domain) gorm_table"
  tb_admins :: "('d, tenant_admin) gorm_table"
  tb_emails :: "('d, email_profile) gorm_table"
  tb_sms :: "('d, sms_profile) gorm_table"
  tb_FindJoinDomains :: "(tenant \<Rightarrow> tenant_domain \<Rightarrow> bool) \<Rightarrow> (tenant \<Rightarrow> tenant \<Rightarrow> bool) \<Rightarrow> 'd \<Rightarrow> tenant list result"
  tb_CountJoinAdmins :: "(tenant \<Rightarrow> tenant_admin \<Rightarrow> bool) \<Rightarrow> 'd \<Rightarrow> nat result"
  tb_UpsertTenant :: "tenant \<Rightarrow> 'd \<Rightarrow> unit result \<times> 'd"
  tb_CreateDomainDoNothing :: "tenant_domain \<Rightarrow> 'd \<Rightarrow> unit result \<times> 'd"
  tb_Commit :: "'d \<Rightarrow> unit result"

record tenant_store =
  ts_tenants :: "tenant list"
  ts_domains :: "tenant_domain list"
  ts_admins :: "tenant_admin list"
  ts_emails :: "email_profile list"
  ts_sms :: "sms_profile list"

definition tenant_reads_law :: "'d tenant_db \<Rightarrow> ('d \<Rightarrow> tenant_store) \<Rightarrow> bool" where
  "tenant_reads_law DB sto \<longleftrightarrow>
     first_law (tb_tenants DB) (ts_tenants \<circ> sto) \<and> find_law (tb_tenants DB) (ts_tenants \<circ> sto)
     \<and> first_law (tb_domains DB) (ts_domains \<circ> sto)
     \<and> first_law (tb_emails DB) (ts_emails \<circ> sto) \<and> first_law (tb_sms DB) (ts_sms \<circ> sto)"

definition tenant_joins_law :: "'d tenant_db \<Rightarrow> ('d \<Rightarrow> tenant_store) \<Rightarrow> bool" where
  "tenant_joins_law DB sto \<longleftrightarrow>
     (\<forall>p le d rs. total_preorder le \<longrightarrow> tb_FindJoinDomains DB p le d = Inr rs \<longrightarrow>
        sorted_wrt le rs \<and>
        mset rs = mset (concat (map (\<lambda>t. map (\<lambda>x. t) (filter (p t) (ts_domains (sto d)))) (ts_tenants (sto d)))))
     \<and> (\<forall>p d n. tb_CountJoinAdmins DB p d = Inr n \<longrightarrow>
        n = length (concat (map (\<lambda>t. filter (p t) (ts_admins (sto d))) (ts_tenants (sto d)))))"

definition same_tenant :: "tenant \<Rightarrow> tenant \<Rightarrow> bool" where
  "same_tenant t t' \<longleftrightarrow> t_ID t' = t_ID t \<and> t_DisplayName t' = t_DisplayName t
     \<and> t_SupportEmail t' = t_SupportEmail t \<and> t_Status t' = t_Status t"

definition same_domain :: "tenant_domain \<Rightarrow> tenant_domain \<Rightarrow> bool" where
  "same_domain x x' \<longleftrightarrow> td_TenantID x' = td_TenantID x \<and> td_Host x' = td_Host x \<and> td_IsDefault x' = td_IsDefault x"

definition same_email :: "email_profile \<Rightarrow> email_profile \<Rightarrow> bool" where
  "same_email p p' \<longleftrightarrow> p'\<lparr>ep_CreatedAt := 0, ep_UpdatedAt := 0\<rparr> = p\<lparr>ep_CreatedAt := 0, ep_UpdatedAt := 0\<rparr>"

definition same_sms :: "sms_profile \<Rightarrow> sms_profile \<Rightarrow> bool" where
  "same_sms p p' \<longleftrightarrow> p'\<lparr>sp_CreatedAt := 0, sp_UpdatedAt := 0\<rparr> = p\<lparr>sp_CreatedAt := 0, sp_UpdatedAt := 0\<rparr>"

definition upsert_row :: "tenant \<Rightarrow> tenant list \<Rightarrow> tenant list" where
  "upsert_row t ts = (if t_ID t \<in> t_ID ` set ts then map (\<lambda>x. if t_ID x = t_ID t then t else x) ts else ts @ [t])"

text \<open>Writes of the tenant tables: a delete removes the selected rows of its table, a create
  appends a row, \<open>OnConflict\<close> with \<open>UpdateAll\<close> replaces the row of the same key, and with
  \<open>DoNothing\<close> on the host keeps the row that has it; no write touches another table.\<close>

definition tenant_writes_law :: "'d tenant_db \<Rightarrow> ('d \<Rightarrow> tenant_store) \<Rightarrow> bool" where
  "tenant_writes_law DB sto \<longleftrightarrow>
     (\<forall>p d n d'. g_Delete (tb_tenants DB) p d = (Inr n, d') \<longrightarrow>
        sto d' = (sto d)\<lparr>ts_tenants := filter (\<lambda>x. \<not> p x) (ts_tenants (sto d))\<rparr>)
     \<and> (\<forall>p d n d'. g_Delete (tb_domains DB) p d = (Inr n, d') \<longrightarrow>
        sto d' = (sto d)\<lparr>ts_domains := filter (\<lambda>x. \<not> p x) (ts_domains (sto d))\<rparr>)
     \<and> (\<forall>p d n d'. g_Delete (tb_admins DB) p d = (Inr n, d') \<longrightarrow>
        sto d' = (sto d)\<lparr>ts_admins := filter (\<lambda>x. \<not> p x) (ts_admins (sto d))\<rparr>)
     \<and> (\<forall>p d n d'. g_Delete (tb_emails DB) p d = (Inr n, d') \<longrightarrow>
        sto d' = (sto d)\<lparr>ts_emails := filter (\<lambda>x. \<not> p x) (ts_emails (sto d))\<rparr>)
     \<and> (\<forall>p d n d'. g_Delete (tb_sms DB) p d = (Inr n, d') \<longrightarrow>
        sto d' = (sto d)\<lparr>ts_sms := filter (\<lambda>x. \<not> p x) (ts_sms (sto d))\<rparr>)
     \<and> (\<forall>t d d'. tb_UpsertTenant DB t d = (Inr (), d') \<longrightarrow>
        (\<exists>t'. same_tenant t t' \<and> sto d' = (sto d)\<lparr>ts_tenants := upsert_row t' (ts_tenants (sto d))\<rparr>))
     \<and> (\<forall>x d d'. tb_CreateDomainDoNothing DB x d = (Inr (), d') \<longrightarrow>
        (\<exists>x'. same_domain x x' \<and> sto d' =
          (if td_Host x \<in> td_Host ` set (ts_domains (sto d)) then sto d
           else (sto d)\<lparr>ts_domains := ts_domains (sto d) @ [x']\<rparr>)))
     \<and> (\<forall>a d a' d'. g_Create (tb_admins DB) a d = (Inr a', d') \<longrightarrow>
        ta_TenantID a' = ta_TenantID a \<and> ta_Email a' = ta_Email a
        \<and> sto d' = (sto d)\<lparr>ts_admins := ts_admins (sto d) @ [a']\<rparr>)
     \<and> (\<forall>p d p' d'. g_Create (tb_emails DB) p d = (Inr p', d') \<longrightarrow>
        same_email p p' \<and> sto d' = (sto d)\<lparr>ts_emails := ts_emails (sto d) @ [p']\<rparr>)
     \<and> (\<forall>p d p' d'. g_Create (tb_sms DB) p d = (Inr p', d') \<longrightarrow>
        same_sms p p' \<and> sto d' = (sto d)\<lparr>ts_sms := ts_sms (sto d) @ [p']\<rparr>)"

text \<open>Tables kept in a \<open>tenant_store\<close>, which satisfy these laws.\<close>

definition store_db :: "tenant_store tenant_db" where
  "store_db =
     \<lparr>tb_tenants = list_table ts_tenants (\<lambda>rs s. s\<lparr>ts_tenants := rs\<rparr>) (\<lambda>_. 0) (\<lambda>_ r. r),
      tb_domains = list_table ts_domains (\<lambda>rs s. s\<lparr>ts_domains := rs\<rparr>) td_ID (\<lambda>k r. r\<lparr>td_ID := k\<rparr>),
      tb_admins = list_table ts_admins (\<lambda>rs s. s\<lparr>ts_admins := rs\<rparr>) ta_ID (\<lambda>k r. r\<lparr>ta_ID := k\<rparr>),
      tb_emails = list_table ts_emails (\<lambda>rs s. s\<lparr>ts_emails := rs\<rparr>) (\<lambda>_. 0) (\<lambda>_ r. r),
      tb_sms = list_table ts_sms (\<lambda>rs s. s\<lparr>ts_sms := rs\<rparr>) (\<lambda>_. 0) (\<lambda>_ r. r),
      tb_FindJoinDomains = (\<lambda>p le s. Inr (sort_by le
        (concat (map (\<lambda>t. map (\<lambda>x. t) (filter (p t) (ts_domains s))) (ts_tenants s))))),
      tb_CountJoinAdmins = (\<lambda>p s. Inr (length (concat (map (\<lambda>t. filter (p t) (ts_admins s)) (ts_tenants s))))),
      tb_UpsertTenant = (\<lambda>t s. (Inr (), s\<lparr>ts_tenants := upsert_row t (ts_tenants s)\<rparr>)),
      tb_CreateDomainDoNothing = (\<lambda>x s. (Inr (),
        if td_Host x \<in> td_Host ` set (ts_domains s) then s
        else s\<lparr>ts_domains := ts_domains s @ [x\<lparr>td_ID := next_key td_ID (ts_domains s)\<rparr>]\<rparr>)),
      tb_Commit = (\<lambda>s. Inr ())\<rparr>"

definition empty_store :: tenant_store where
  "empty_store = \<lparr>ts_tenants = [], ts_domains = [], ts_admins = [], ts_emails = [], ts_sms = []\<rparr>"

subsection \<open>The repository\<close>

definition ErrInvalidTenantID :: go_error where
  "ErrInvalidTenantID = ErrorsNew ''tenant: invalid tenant id''"

record tenant_repository =
  runtimeCache :: "string \<rightharpoonup> runtime_config"
  domainTenantCache :: "string \<rightharpoonup> string"

definition NewRepository :: tenant_repository where
  "NewRepository = \<lparr>runtimeCache = Map.empty, domainTenantCache = Map.empty\<rparr>"

definition normalizeHost :: "string \<Rightarrow> string" where
  "normalizeHost rawHost =
     (let host = ToLower (TrimSpace rawHost) in
      if host = '''' then ''''
      else if CHR '':'' \<in> set host then hd (Split host (CHR '':'')) else host)"

definition normalizeAdminEmail :: "string \<Rightarrow> string" where
  "normalizeAdminEmail email = ToLower (TrimSpace email)"

definition cloneRuntimeConfig :: "runtime_config \<Rightarrow> runtime_config" where
  "cloneRuntimeConfig cfg =
     (case rc_SMS cfg of
        None \<Rightarrow> cfg
      | Some sms \<Rightarrow> cfg\<lparr>rc_SMS := Some \<lparr>smc_AccountSID = smc_AccountSID sms,
                          smc_AuthToken = smc_AuthToken sms, smc_FromNumber = smc_FromNumber sms\<rparr>\<rparr>)"

definition cachedRuntimeConfig :: "string \<Rightarrow> tenant_repository \<Rightarrow> runtime_config option" where
  "cachedRuntimeConfig tenantID repo = map_option cloneRuntimeConfig (runtimeCache repo tenantID)"

definition cacheRuntimeConfig :: "string \<Rightarrow> runtime_config \<Rightarrow> tenant_repository \<Rightarrow> tenant_repository" where
  "cacheRuntimeConfig tenantID cfg repo =
     (if tenantID = '''' then repo else repo\<lparr>runtimeCache := (runtimeCache repo)(tenantID \<mapsto> cfg)\<rparr>)"

definition clearCaches :: "tenant_repository \<Rightarrow> tenant_repository" where
  "clearCaches repo = repo\<lparr>runtimeCache := Map.empty, domainTenantCache := Map.empty\<rparr>"

definition cachedTenantID :: "string \<Rightarrow> tenant_repository \<Rightarrow> string option" where
  "cachedTenantID host repo = domainTenantCache repo host"

definition cacheTenantID :: "string \<Rightarrow> string \<Rightarrow> tenant_repository \<Rightarrow> tenant_repository" where
  "cacheTenantID host tenantID repo =
     (if host = '''' \<or> tenantID = '''' then repo
      else repo\<lparr>domainTenantCache := (domainTenantCache repo)(host \<mapsto> tenantID)\<rparr>)"

definition load_sms ::
  "aead \<Rightarrow> secret_keeper \<Rightarrow> 'd tenant_db \<Rightarrow> string \<Rightarrow> 'd \<Rightarrow> sms_credentials option result" where
  "load_sms A keeper DB tenantID d =
     (case g_First (tb_sms DB) (\<lambda>p. where_field tenantID (sp_TenantID p) \<and> sp_IsDefault p) d of
        Inr smsProfile \<Rightarrow>
          (case Decrypt A keeper (sp_AccountSIDCipher smsProfile) of
             Inl e \<Rightarrow> Inl e
           | Inr accountSID \<Rightarrow>
               (case Decrypt A keeper (sp_AuthTokenCipher smsProfile) of
                  Inl e \<Rightarrow> Inl e
                | Inr authToken \<Rightarrow>
                    Inr (Some \<lparr>smc_AccountSID = accountSID, smc_AuthToken = authToken,
                              smc_FromNumber = sp_FromNumber smsProfile\<rparr>)))
      | Inl e \<Rightarrow> if e \<noteq> ErrRecordNotFound then Inl (Errorf ''tenant runtime: sms profile: '' e '''')
                 else Inr None)"

definition loadRuntimeConfig ::
  "aead \<Rightarrow> secret_keeper \<Rightarrow> 'd tenant_db \<Rightarrow> string \<Rightarrow> 'd \<Rightarrow> runtime_config result" where
  "loadRuntimeConfig A keeper DB tenantID d =
     (case g_First (tb_tenants DB) (\<lambda>t. where_field tenantID (t_ID t)) d of
        Inl e \<Rightarrow> Inl (Errorf (''tenant runtime: tenant '' @ tenantID @ '': '') e '''')
      | Inr tenantModel \<Rightarrow>
      (case g_First (tb_emails DB) (\<lambda>p. where_field tenantID (ep_TenantID p) \<and> ep_IsDefault p) d of
        Inl e \<Rightarrow> Inl (Errorf ''tenant runtime: email profile: '' e '''')
      | Inr emailProfile \<Rightarrow>
      (case load_sms A keeper DB tenantID d of
        Inl e \<Rightarrow> Inl e
      | Inr smsPtr \<Rightarrow>
      (case Decrypt A keeper (ep_UsernameCipher emailProfile) of
        Inl e \<Rightarrow> Inl e
      | Inr username \<Rightarrow>
      (case Decrypt A keeper (ep_PasswordCipher emailProfile) of
        Inl e \<Rightarrow> Inl e
      | Inr password \<Rightarrow>
          Inr \<lparr>rc_Tenant = tenantModel,
               rc_Email = \<lparr>ec_Host = ep_Host emailProfile, ec_Port = ep_Port emailProfile,
                           ec_Username = username, ec_Password = password,
                           ec_FromAddress = ep_FromAddress emailProfile\<rparr>,
               rc_SMS = smsPtr\<rparr>)))))"

definition runtimeConfig ::
  "aead \<Rightarrow> secret_keeper \<Rightarrow> 'd tenant_db \<Rightarrow> string \<Rightarrow> 'd \<Rightarrow> tenant_repository
   \<Rightarrow> runtime_config result \<times> tenant_repository" where
  "runtimeConfig A keeper DB tenantID d repo =
     (case cachedRuntimeConfig tenantID repo of
        Some cachedCfg \<Rightarrow> (Inr cachedCfg, repo)
      | None \<Rightarrow>
          (case loadRuntimeConfig A keeper DB tenantID d of
             Inl e \<Rightarrow> (Inl e, repo)
           | Inr loadedCfg \<Rightarrow> (Inr (cloneRuntimeConfig loadedCfg), cacheRuntimeConfig tenantID loadedCfg repo)))"

definition ResolveByHost ::
  "aead \<Rightarrow> secret_keeper \<Rightarrow> 'd tenant_db \<Rightarrow> string \<Rightarrow> 'd \<Rightarrow> tenant_repository
   \<Rightarrow> runtime_config result \<times> tenant_repository" where
  "ResolveByHost A keeper DB host d repo =
     (let normalized = normalizeHost host in
      if normalized = '''' then (Inl (ErrorsNew ''tenant resolve: empty host''), repo)
      else (case cachedTenantID normalized repo of
          Some tenantID \<Rightarrow> runtimeConfig A keeper DB tenantID d repo
        | None \<Rightarrow>
            (case g_First (tb_domains DB) (\<lambda>x. where_field normalized (td_Host x)) d of
               Inl e \<Rightarrow> (Inl (Errorf (''tenant resolve: domain '' @ normalized @ '': '') e ''''), repo)
             | Inr domain \<Rightarrow>
                 (case runtimeConfig A keeper DB (td_TenantID domain) d repo of
                    (Inl e, repo') \<Rightarrow> (Inl e, repo')
                  | (Inr runtimeCfg, repo') \<Rightarrow>
                      (Inr runtimeCfg, cacheTenantID normalized (td_TenantID domain) repo')))))"

definition ResolveByID ::
  "aead \<Rightarrow> secret_keeper \<Rightarrow> 'd tenant_db \<Rightarrow> string \<Rightarrow> 'd \<Rightarrow> tenant_repository
   \<Rightarrow> runtime_config result \<times> tenant_repository" where
  "ResolveByID A keeper DB tenantID d repo =
     (let normalized = TrimSpace tenantID in
      if normalized = '''' then (Inl (Errorf '''' ErrInvalidTenantID '': empty tenant id''), repo)
      else runtimeConfig A keeper DB normalized d repo)"

definition display_order :: "tenant \<Rightarrow> tenant \<Rightarrow> bool" where
  "display_order a b \<longleftrightarrow> t_DisplayName a \<le> t_DisplayName b"

definition ListActiveTenants :: "'d tenant_db \<Rightarrow> 'd \<Rightarrow> tenant list result" where
  "ListActiveTenants DB d =
     (case g_Find (tb_tenants DB) (\<lambda>t. t_Status t = TenantStatusActive) display_order None d of
        Inl e \<Rightarrow> Inl (Errorf ''tenant list: '' e '''')
      | Inr tenants \<Rightarrow> Inr tenants)"

definition ListActiveTenantsByDomain :: "'d tenant_db \<Rightarrow> string \<Rightarrow> 'd \<Rightarrow> tenant list result" where
  "ListActiveTenantsByDomain DB domain d =
     (let normalizedDomain = normalizeHost domain in
      case tb_FindJoinDomains DB
             (\<lambda>t x. td_TenantID x = t_ID t \<and> t_Status t = TenantStatusActive \<and> td_Host x = normalizedDomain)
             display_order d of
        Inl e \<Rightarrow> Inl (Errorf (''tenant list: domain '' @ normalizedDomain @ '': '') e '''')
      | Inr tenants \<Rightarrow> Inr tenants)"

definition IsActiveTenantAdmin :: "'d tenant_db \<Rightarrow> string \<Rightarrow> 'd \<Rightarrow> bool result" where
  "IsActiveTenantAdmin DB email d =
     (let normalizedEmail = normalizeAdminEmail email in
      if normalizedEmail = '''' then Inr False
      else (case tb_CountJoinAdmins DB
              (\<lambda>t a. ta_TenantID a = t_ID t \<and> t_Status t = TenantStatusActive \<and> ta_Email a = normalizedEmail) d of
          Inl e \<Rightarrow> Inl (Errorf ''tenant admin lookup: '' e '''')
        | Inr matchingTenants \<Rightarrow> Inr (matchingTenants > 0)))"

subsection \<open>Lookups without the caches\<close>

datatype tenant_lookup = ByHost string | ByID string

definition direct_by_id :: "aead \<Rightarrow> secret_keeper \<Rightarrow> 'd tenant_db \<Rightarrow> string \<Rightarrow> 'd \<Rightarrow> runtime_config result" where
  "direct_by_id A keeper DB tenantID d =
     (if TrimSpace tenantID = '''' then Inl (Errorf '''' ErrInvalidTenantID '': empty tenant id'')
      else loadRuntimeConfig A keeper DB (TrimSpace tenantID) d)"

definition direct_by_host :: "aead \<Rightarrow> secret_keeper \<Rightarrow> 'd tenant_db \<Rightarrow> string \<Rightarrow> 'd \<Rightarrow> runtime_config result" where
  "direct_by_host A keeper DB host d =
     (let n = normalizeHost host in
      if n = '''' then Inl (ErrorsNew ''tenant resolve: empty host'')
      else (case g_First (tb_domains DB) (\<lambda>x. where_field n (td_Host x)) d of
          Inl e \<Rightarrow> Inl (Errorf (''tenant resolve: domain '' @ n @ '': '') e '''')
        | Inr domain \<Rightarrow> loadRuntimeConfig A keeper DB (td_TenantID domain) d))"

fun direct_lookup :: "aead \<Rightarrow> secret_keeper \<Rightarrow> 'd tenant_db \<Rightarrow> 'd \<Rightarrow> tenant_lookup \<Rightarrow> runtime_config result" where
  "direct_lookup A keeper DB d (ByHost h) = direct_by_host A keeper DB h d"
| "direct_lookup A keeper DB d (ByID i) = direct_by_id A keeper DB i d"

fun repo_lookup :: "aead \<Rightarrow> secret_keeper \<Rightarrow> 'd tenant_db \<Rightarrow> 'd \<Rightarrow> tenant_lookup \<Rightarrow> tenant_repository
   \<Rightarrow> runtime_config result \<times> tenant_repository" where
  "repo_lookup A keeper DB d (ByHost h) repo = ResolveByHost A keeper DB h d repo"
| "repo_lookup A keeper DB d (ByID i) repo = ResolveByID A keeper DB i d repo"

fun repo_lookups :: "aead \<Rightarrow> secret_keeper \<Rightarrow> 'd tenant_db \<Rightarrow> 'd \<Rightarrow> tenant_lookup list \<Rightarrow> tenant_repository
   \<Rightarrow> runtime_config result list" where
  "repo_lookups A keeper DB d [] repo = []"
| "repo_lookups A keeper DB d (q # qs) repo =
     (case repo_lookup A keeper DB d q repo of (r, repo') \<Rightarrow> r # repo_lookups A keeper DB d qs repo')"

subsection \<open>Secrets survive encryption\<close>

lemma NewSecretKeeper_key: "NewSecretKeeper raw = Inr keeper \<Longrightarrow> aes_key_ok (sk_key keeper)"
  by (auto simp: NewSecretKeeper_def aes_key_ok_def split: option.splits if_splits)

lemma Encrypt_Decrypt:
  assumes "aead_law A" "Encrypt A keeper p rnd = (Inr c, rnd')"
  shows "Decrypt A keeper c = Inr p"
proof -
  from assms(2) have "c = take gcm_nonce_size rnd @ aead_Seal A (sk_key keeper) (take gcm_nonce_size rnd) p"
    and "length (take gcm_nonce_size rnd) = gcm_nonce_size" and "aes_key_ok (sk_key keeper)"
    by (auto simp: Encrypt_def Let_def split: if_splits)
  with assms(1) show ?thesis by (simp add: Decrypt_def aead_law_def)
qed

subsection \<open>A read-through cache\<close>

text \<open>Storing a value under a key makes it readable there (or is ignored) and changes no other key;
  a cache that only ever stores loaded values then never disagrees with the loader.\<close>

locale read_through =
  fixes get :: "string \<Rightarrow> 'c \<Rightarrow> 'v option"
    and put :: "string \<Rightarrow> 'v \<Rightarrow> 'c \<Rightarrow> 'c"
    and empty :: 'c
  assumes get_put: "get k (put k v c) = Some v \<or> get k (put k v c) = get k c"
    and get_other: "k' \<noteq> k \<Longrightarrow> get k' (put k v c) = get k' c"
    and get_empty: "get k empty = None"
begin

definition coherent :: "(string \<Rightarrow> 'v \<Rightarrow> bool) \<Rightarrow> 'c \<Rightarrow> bool" where
  "coherent loads c \<longleftrightarrow> (\<forall>k v. get k c = Some v \<longrightarrow> loads k v)"

lemma coherent_empty: "coherent loads empty"
  by (simp add: coherent_def get_empty)

lemma coherent_get: "coherent loads c \<Longrightarrow> get k c = Some v \<Longrightarrow> loads k v"
  by (simp add: coherent_def)

lemma coherent_put: "coherent loads c \<Longrightarrow> loads k v \<Longrightarrow> coherent loads (put k v c)"
  using get_put[of k v c] get_other[of _ k v c] unfolding coherent_def by (metis option.inject)

end

lemma cloneRuntimeConfig_id [simp]: "cloneRuntimeConfig cfg = cfg"
  by (cases cfg) (auto simp: cloneRuntimeConfig_def split: option.split)

interpretation rcache: read_through cachedRuntimeConfig cacheRuntimeConfig NewRepository
  by unfold_locales (auto simp: cachedRuntimeConfig_def cacheRuntimeConfig_def NewRepository_def option.map_ident
      map_option_cong)

interpretation dcache: read_through cachedTenantID cacheTenantID NewRepository
  by unfold_locales (auto simp: cachedTenantID_def cacheTenantID_def NewRepository_def)

lemma caches_frame [frame_simps]:
  "cachedTenantID h (cacheRuntimeConfig i cfg repo) = cachedTenantID h repo"
  "cachedRuntimeConfig i (cacheTenantID h j repo) = cachedRuntimeConfig i repo"
  by (simp_all add: cachedTenantID_def cacheRuntimeConfig_def cachedRuntimeConfig_def cacheTenantID_def)

definition domain_loads :: "'d tenant_db \<Rightarrow> 'd \<Rightarrow> string \<Rightarrow> string \<Rightarrow> bool" where
  "domain_loads DB d h i \<longleftrightarrow>
     (\<exists>x. g_First (tb_domains DB) (\<lambda>y. where_field h (td_Host y)) d = Inr x \<and> td_TenantID x = i)"

definition repo_coherent :: "aead \<Rightarrow> secret_keeper \<Rightarrow> 'd tenant_db \<Rightarrow> 'd \<Rightarrow> tenant_repository \<Rightarrow> bool" where
  "repo_coherent A keeper DB d repo \<longleftrightarrow>
     rcache.coherent (\<lambda>i cfg. loadRuntimeConfig A keeper DB i d = Inr cfg) repo
     \<and> dcache.coherent (domain_loads DB d) repo"

lemma repo_coherent_new: "repo_coherent A keeper DB d NewRepository"
  by (simp add: repo_coherent_def rcache.coherent_empty dcache.coherent_empty)

lemma repo_coherent_runtime:
  assumes "repo_coherent A keeper DB d repo" "runtimeConfig A keeper DB i d repo = (r, repo')"
  shows "r = loadRuntimeConfig A keeper DB i d \<and> repo_coherent A keeper DB d repo'"
proof (cases "cachedRuntimeConfig i repo")
  case (Some cfg)
  with assms show ?thesis
    by (auto simp: runtimeConfig_def repo_coherent_def dest: rcache.coherent_get)
next
  case None
  show ?thesis
  proof (cases "loadRuntimeConfig A keeper DB i d")
    case (Inl e)
    with None assms show ?thesis by (auto simp: runtimeConfig_def)
  next
    case (Inr cfg)
    have "dcache.coherent (domain_loads DB d) (cacheRuntimeConfig i cfg repo)"
      using assms(1) by (simp add: repo_coherent_def dcache.coherent_def frame_simps)
    with None Inr assms show ?thesis
      by (auto simp: runtimeConfig_def repo_coherent_def intro: rcache.coherent_put)
  qed
qed

lemma repo_coherent_host:
  assumes coh: "repo_coherent A keeper DB d repo" and res: "ResolveByHost A keeper DB h d repo = (r, repo')"
  shows "r = direct_by_host A keeper DB h d \<and> repo_coherent A keeper DB d repo'"
proof (cases "normalizeHost h = '''' \<or> cachedTenantID (normalizeHost h) repo \<noteq> None")
  case True
  show ?thesis
  proof (cases "normalizeHost h = ''''")
    case True
    with coh res show ?thesis by (auto simp: ResolveByHost_def direct_by_host_def Let_def)
  next
    case False
    with True obtain i where i: "cachedTenantID (normalizeHost h) repo = Some i" by auto
    with coh have "domain_loads DB d (normalizeHost h) i"
      by (auto simp: repo_coherent_def dest: dcache.coherent_get)
    with False i res repo_coherent_runtime[OF coh, of i r repo'] show ?thesis
      by (auto simp: ResolveByHost_def direct_by_host_def domain_loads_def Let_def)
  qed
next
  case False
  show ?thesis
  proof (cases "g_First (tb_domains DB) (\<lambda>x. where_field (normalizeHost h) (td_Host x)) d")
    case (Inl e)
    with False coh res show ?thesis by (auto simp: ResolveByHost_def direct_by_host_def Let_def)
  next
    case (Inr x)
    obtain r1 repo1 where run: "runtimeConfig A keeper DB (td_TenantID x) d repo = (r1, repo1)" by fastforce
    note run_coh = repo_coherent_runtime[OF coh run]
    have "domain_loads DB d (normalizeHost h) (td_TenantID x)" using Inr by (simp add: domain_loads_def)
    then have "repo_coherent A keeper DB d (cacheTenantID (normalizeHost h) (td_TenantID x) repo1)"
      using run_coh dcache.coherent_put by (simp add: repo_coherent_def rcache.coherent_def frame_simps)
    with False Inr res run run_coh show ?thesis
      by (cases "loadRuntimeConfig A keeper DB (td_TenantID x) d")
        (auto simp: ResolveByHost_def direct_by_host_def Let_def)
  qed
qed

lemma repo_coherent_lookup:
  assumes "repo_coherent A keeper DB d repo" "repo_lookup A keeper DB d q repo = (r, repo')"
  shows "r = direct_lookup A keeper DB d q \<and> repo_coherent A keeper DB d repo'"
proof (cases q)
  case (ByHost h)
  with assms repo_coherent_host show ?thesis by simp
next
  case (ByID i)
  show ?thesis
  proof (cases "TrimSpace i = ''''")
    case True
    with ByID assms show ?thesis by (auto simp: ResolveByID_def direct_by_id_def)
  next
    case False
    with ByID assms repo_coherent_runtime[OF assms(1), of "TrimSpace i" r repo'] show ?thesis
      by (simp add: ResolveByID_def direct_by_id_def)
  qed
qed

lemma repo_lookups_direct:
  "repo_coherent A keeper DB d repo \<Longrightarrow> repo_lookups A keeper DB d qs repo = map (direct_lookup A keeper DB d) qs"
proof (induction qs arbitrary: repo)
  case (Cons q qs)
  obtain r repo' where q: "repo_lookup A keeper DB d q repo = (r, repo')" by fastforce
  from repo_coherent_lookup[OF Cons.prems q] Cons.IH q show ?case by simp
qed simp

lemma joins_count:
  assumes "tenant_joins_law DB sto" "tb_CountJoinAdmins DB p d = Inr n"
  shows "n = length (concat (map (\<lambda>t. filter (p t) (ts_admins (sto d))) (ts_tenants (sto d))))"
  using conjunct2[OF assms(1)[unfolded tenant_joins_law_def]] assms(2) by simp

lemma clearCaches_new: "clearCaches repo = NewRepository"
  by (simp add: clearCaches_def NewRepository_def)

lemma store_db_laws:
  "tenant_reads_law store_db id" "tenant_joins_law store_db id" "tenant_writes_law store_db id"
proof -
  show "tenant_reads_law store_db id"
    unfolding tenant_reads_law_def store_db_def by (simp add: list_table_reads)
  show "tenant_joins_law store_db id"
    unfolding tenant_joins_law_def store_db_def by (auto simp: sorted_sort_by)
  show "tenant_writes_law store_db id"
    unfolding tenant_writes_law_def store_db_def list_table_def
    by (auto simp: same_tenant_def same_domain_def same_email_def same_sms_def Let_def
        intro!: exI[of _ "td_ID_update (\<lambda>_. _) _"])
qed

subsection \<open>Properties\<close>

text \<open>C30. What the secret keeper encrypts it decrypts: under a key \<open>NewSecretKeeper\<close> accepted,
  \<open>Encrypt\<close> succeeds whenever the random source yields a nonce, and \<open>Decrypt\<close> of its result is
  the plain text.\<close>

theorem secret_roundtrip:
  assumes "aead_law A" "NewSecretKeeper raw = Inr keeper" "12 \<le> length rnd"
  shows "\<exists>c. Encrypt A keeper p rnd = (Inr c, drop 12 rnd) \<and> Decrypt A keeper c = Inr p"
  using Encrypt_Decrypt[OF assms(1), of keeper p rnd] NewSecretKeeper_key[OF assms(2)] assms(3)
  by (simp add: Encrypt_def gcm_nonce_size_def Let_def)

theorem secret_roundtrip_witness:
  "\<exists>c. Encrypt \<lparr>aead_Seal = (\<lambda>k n p. rev p @ ''tag''), aead_Open = (\<lambda>k n c. Some (rev (take (length c - 3) c)))\<rparr>
       \<lparr>sk_key = replicate 32 (CHR 0x5A)\<rparr> ''secret'' ''twelve bytes.'' = (Inr c, drop 12 ''twelve bytes.'')
     \<and> Decrypt \<lparr>aead_Seal = (\<lambda>k n p. rev p @ ''tag''), aead_Open = (\<lambda>k n c. Some (rev (take (length c - 3) c)))\<rparr>
       \<lparr>sk_key = replicate 32 (CHR 0x5A)\<rparr> c = Inr ''secret''"
proof (rule secret_roundtrip)
  show "aead_law \<lparr>aead_Seal = (\<lambda>k n p. rev p @ ''tag''), aead_Open = (\<lambda>k n c. Some (rev (take (length c - 3) c)))\<rparr>"
    by (simp add: aead_law_def)
  have "hex_DecodeString (concat (replicate n ''5a'')) = Some (replicate n (CHR 0x5A))" for n
    by (induction n) (simp_all add: hex_value_def char_of_eq_iff)
  then show "NewSecretKeeper (concat (replicate 32 ''5a'')) = Inr \<lparr>sk_key = replicate 32 (CHR 0x5A)\<rparr>"
    by (simp add: NewSecretKeeper_def)
qed simp

text \<open>C23. The repository's caches are invisible: from a new repository (or one just cleared) any
  sequence of lookups by host and by tenant identifier returns, query by query, what a lookup that
  always reads the database would return, errors included.\<close>

theorem tenant_caches_transparent:
  "repo_lookups A keeper DB d qs NewRepository = map (direct_lookup A keeper DB d) qs
   \<and> repo_lookups A keeper DB d qs (clearCaches repo) = map (direct_lookup A keeper DB d) qs"
  using repo_lookups_direct[OF repo_coherent_new] clearCaches_new by simp

text \<open>C40. Administrator access is exact: \<open>IsActiveTenantAdmin\<close> answers yes exactly when some active
  tenant has the lower-cased, trimmed address among its administrators.\<close>

theorem admin_check_exact:
  assumes "tenant_joins_law DB sto" "IsActiveTenantAdmin DB email d = Inr b"
  shows "b \<longleftrightarrow> ToLower (TrimSpace email) \<noteq> '''' \<and>
    (\<exists>t \<in> set (ts_tenants (sto d)). t_Status t = ''active'' \<and>
      (\<exists>a \<in> set (ts_admins (sto d)). ta_TenantID a = t_ID t \<and> ta_Email a = ToLower (TrimSpace email)))"
proof (cases "ToLower (TrimSpace email) = ''''")
  case True
  with assms(2) show ?thesis by (simp add: IsActiveTenantAdmin_def normalizeAdminEmail_def)
next
  case False
  let ?p = "\<lambda>t a. ta_TenantID a = t_ID t \<and> t_Status t = TenantStatusActive \<and> ta_Email a = ToLower (TrimSpace email)"
  from assms(2) False obtain n where n: "tb_CountJoinAdmins DB ?p d = Inr n" "b = (n > 0)"
    by (auto simp: IsActiveTenantAdmin_def normalizeAdminEmail_def Let_def split: sum.splits)
  have "n = length (concat (map (\<lambda>t. filter (?p t) (ts_admins (sto d))) (ts_tenants (sto d))))"
    by (rule joins_count[OF assms(1) n(1)])
  then have "b \<longleftrightarrow> concat (map (\<lambda>t. filter (?p t) (ts_admins (sto d))) (ts_tenants (sto d))) \<noteq> []"
    unfolding n(2) by (simp only: length_greater_0_conv)
  also have "\<dots> \<longleftrightarrow> (\<exists>t \<in> set (ts_tenants (sto d)). \<exists>a \<in> set (ts_admins (sto d)). ?p t a)"
    by (simp add: filter_empty_conv) blast
  finally show ?thesis using False by (simp add: TenantStatusActive_def) blast
qed

theorem admin_check_exact_witness:
  "IsActiveTenantAdmin store_db '' Ann@X.Org ''
     (empty_store\<lparr>ts_tenants := [\<lparr>t_ID = ''t1'', t_DisplayName = ''T'', t_SupportEmail = '''', t_Status = ''active'',
                                 t_CreatedAt = 0, t_UpdatedAt = 0\<rparr>],
                  ts_admins := [\<lparr>ta_ID = 1, ta_TenantID = ''t1'', ta_Email = ''ann@x.org'', ta_CreatedAt = 0, ta_UpdatedAt = 0\<rparr>]\<rparr>)
   = Inr True"
proof -
  let ?d = "empty_store\<lparr>ts_tenants := [\<lparr>t_ID = ''t1'', t_DisplayName = ''T'', t_SupportEmail = '''', t_Status = ''active'',
                                 t_CreatedAt = 0, t_UpdatedAt = 0\<rparr>],
                  ts_admins := [\<lparr>ta_ID = 1, ta_TenantID = ''t1'', ta_Email = ''ann@x.org'', ta_CreatedAt = 0, ta_UpdatedAt = 0\<rparr>]\<rparr>"
  have n: "ToLower (TrimSpace '' Ann@X.Org '') = ''ann@x.org''" by code_simp
  have "is_ok (IsActiveTenantAdmin store_db '' Ann@X.Org '' ?d)"
    by (simp add: IsActiveTenantAdmin_def store_db_def Let_def)
  then obtain b where b: "IsActiveTenantAdmin store_db '' Ann@X.Org '' ?d = Inr b" unfolding is_ok_iff by blast
  from admin_check_exact[OF store_db_laws(2) b] n have b by simp
  with b show ?thesis by simp
qed

end
