(* ===== verification/Tenant_Bootstrap.thy ===== *)
theory Tenant_Bootstrap
  imports Tenant
begin

text \<open>
  Provisioning tenants from configuration (\<open>internal/tenant/bootstrap.go\<close>). The YAML library is
  an argument: a node is its kind and the texts of its content (keys at the even places), and
  \<open>decode\<close> is \<open>value.Decode\<close>. \<open>Bootstrap\<close> runs over a world that holds the database, the
  random stream, a counter for \<open>uuid.NewString\<close> and the registered repositories. GORM's
  \<open>Transaction\<close> restores the database when the function it runs returns an error or the
  commit fails.
\<close>

subsection \<open>Decoding\<close>

record yaml_node =
  yn_isMapping :: bool
  yn_content :: "string list"

fun firstUnsupportedBootstrapYAMLMappingKey :: "string list \<Rightarrow> string list \<Rightarrow> string" where
  "firstUnsupportedBootstrapYAMLMappingKey allowed (k # v # rest) =
     (let key = TrimSpace k in
      if key \<notin> set allowed then key else firstUnsupportedBootstrapYAMLMappingKey allowed rest)"
| "firstUnsupportedBootstrapYAMLMappingKey allowed _ = ''''"

fun yaml_content_has_key :: "string \<Rightarrow> string list \<Rightarrow> bool" where
  "yaml_content_has_key key (k # v # rest) \<longleftrightarrow> TrimSpace k = key \<or> yaml_content_has_key key rest"
| "yaml_content_has_key key _ \<longleftrightarrow> False"

definition yamlMappingHasKey :: "yaml_node option \<Rightarrow> string \<Rightarrow> bool" where
  "yamlMappingHasKey node key =
     (case node of None \<Rightarrow> False | Some n \<Rightarrow> yn_isMapping n \<and> yaml_content_has_key key (yn_content n))"

record bootstrap_email_profile =
  bep_Host :: string
  bep_Port :: int
  bep_Username :: string
  bep_Password :: string
  bep_FromAddress :: string

record bootstrap_sms_profile =
  bsp_AccountSID :: string
  bsp_AuthToken :: string
  bsp_FromNumber :: string

record bootstrap_tenant =
  bt_ID :: string
  bt_DisplayName :: string
  bt_SupportEmail :: string
  bt_Enabled :: "bool option"
  bt_Status :: string
  bt_Domains :: "string list"
  bt_Admins :: "string list"
  bt_EmailProfile :: bootstrap_email_profile
  bt_SMSProfile :: "bootstrap_sms_profile option"

record bootstrap_config =
  bc_Tenants :: "bootstrap_tenant list"

definition config_UnmarshalYAML ::
  "(yaml_node \<Rightarrow> bootstrap_config result) \<Rightarrow> yaml_node option \<Rightarrow> bootstrap_config result" where
  "config_UnmarshalYAML decode node =
     (case node of
        None \<Rightarrow> Inr \<lparr>bc_Tenants = []\<rparr>
      | Some n \<Rightarrow>
          if \<not> yn_isMapping n then Inl (ErrorsNew ''tenant bootstrap: config must be a mapping'')
          else let unsupportedKey = firstUnsupportedBootstrapYAMLMappingKey [''tenants''] (yn_content n) in
          if unsupportedKey \<noteq> '''' then Inl (ErrorsNew (''tenant bootstrap: '' @ unsupportedKey @ '' is not supported''))
          else decode n)"

definition status_unsupported :: go_error where
  "status_unsupported =
     ErrorsNew ''tenant bootstrap: tenants[].status is no longer supported; use tenants[].enabled (true|false)''"

definition zero_email_profile :: bootstrap_email_profile where
  "zero_email_profile = \<lparr>bep_Host = '''', bep_Port = 0, bep_Username = '''', bep_Password = '''', bep_FromAddress = ''''\<rparr>"

definition zero_tenant :: bootstrap_tenant where
  "zero_tenant = \<lparr>bt_ID = '''', bt_DisplayName = '''', bt_SupportEmail = '''', bt_Enabled = None, bt_Status = '''',
     bt_Domains = [], bt_Admins = [], bt_EmailProfile = zero_email_profile, bt_SMSProfile = None\<rparr>"

definition tenant_UnmarshalYAML ::
  "(yaml_node \<Rightarrow> bootstrap_tenant result) \<Rightarrow> yaml_node option \<Rightarrow> bootstrap_tenant result" where
  "tenant_UnmarshalYAML decode node =
     (case node of
        None \<Rightarrow> Inr zero_tenant
      | Some n \<Rightarrow>
          if \<not> yn_isMapping n then Inl (ErrorsNew ''tenant bootstrap: tenants[] must be a mapping'')
          else if yamlMappingHasKey node ''status'' then Inl status_unsupported
          else let unsupportedKey = firstUnsupportedBootstrapYAMLMappingKey
              [''id'', ''displayName'', ''supportEmail'', ''enabled'', ''domains'', ''admins'', ''emailProfile'', ''smsProfile'']
              (yn_content n) in
          if unsupportedKey \<noteq> ''''
          then Inl (ErrorsNew (''tenant bootstrap: tenants[].'' @ unsupportedKey @ '' is not supported''))
          else decode n)"

definition email_UnmarshalYAML ::
  "(yaml_node \<Rightarrow> bootstrap_email_profile result) \<Rightarrow> yaml_node option \<Rightarrow> bootstrap_email_profile result" where
  "email_UnmarshalYAML decode node =
     (case node of
        None \<Rightarrow> Inr zero_email_profile
      | Some n \<Rightarrow>
          if \<not> yn_isMapping n then Inl (ErrorsNew ''tenant bootstrap: tenants[].emailProfile must be a mapping'')
          else let unsupportedKey = firstUnsupportedBootstrapYAMLMappingKey
              [''host'', ''port'', ''username'', ''password'', ''fromAddress''] (yn_content n) in
          if unsupportedKey \<noteq> ''''
          then Inl (ErrorsNew (''tenant bootstrap: tenants[].emailProfile.'' @ unsupportedKey @ '' is not supported''))
          else decode n)"

definition sms_UnmarshalYAML ::
  "(yaml_node \<Rightarrow> bootstrap_sms_profile result) \<Rightarrow> yaml_node option \<Rightarrow> bootstrap_sms_profile result" where
  "sms_UnmarshalYAML decode node =
     (case node of
        None \<Rightarrow> Inr \<lparr>bsp_AccountSID = '''', bsp_AuthToken = '''', bsp_FromNumber = ''''\<rparr>
      | Some n \<Rightarrow>
          if \<not> yn_isMapping n then Inl (ErrorsNew ''tenant bootstrap: tenants[].smsProfile must be a mapping'')
          else let unsupportedKey = firstUnsupportedBootstrapYAMLMappingKey
              [''accountSid'', ''authToken'', ''fromNumber''] (yn_content n) in
          if unsupportedKey \<noteq> ''''
          then Inl (ErrorsNew (''tenant bootstrap: tenants[].smsProfile.'' @ unsupportedKey @ '' is not supported''))
          else decode n)"

subsection \<open>Domains and administrators\<close>

definition normalizeDomainHost :: "string \<Rightarrow> string" where
  "normalizeDomainHost host = ToLower (TrimSpace host)"

fun normalizeDomainHosts :: "string list \<Rightarrow> string list" where
  "normalizeDomainHosts [] = []"
| "normalizeDomainHosts (host # rest) =
     (let normalizedHost = normalizeDomainHost host in
      if normalizedHost = '''' then normalizeDomainHosts rest else normalizedHost # normalizeDomainHosts rest)"

fun normalizeAdminEmailsLoop :: "string set \<Rightarrow> string list \<Rightarrow> string list" where
  "normalizeAdminEmailsLoop seen [] = []"
| "normalizeAdminEmailsLoop seen (email # rest) =
     (let normalizedEmail = normalizeAdminEmail email in
      if normalizedEmail = '''' then normalizeAdminEmailsLoop seen rest
      else if normalizedEmail \<in> seen then normalizeAdminEmailsLoop seen rest
      else normalizedEmail # normalizeAdminEmailsLoop (insert normalizedEmail seen) rest)"

definition normalizeAdminEmails :: "string list \<Rightarrow> string list" where
  "normalizeAdminEmails emails = normalizeAdminEmailsLoop {} emails"

fun validateDomainLoop ::
  "nat \<Rightarrow> nat \<Rightarrow> string list \<Rightarrow> (string \<rightharpoonup> nat) \<Rightarrow> (nat \<times> (string \<rightharpoonup> nat)) result" where
  "validateDomainLoop tenantIndex domainCount [] normalizedHosts = Inr (domainCount, normalizedHosts)"
| "validateDomainLoop tenantIndex domainCount (host # rest) normalizedHosts =
     (let normalizedHost = normalizeDomainHost host in
      if normalizedHost = '''' then validateDomainLoop tenantIndex domainCount rest normalizedHosts
      else (case normalizedHosts normalizedHost of
          Some existingIndex \<Rightarrow>
            Inl (ErrorsNew (''tenant bootstrap: tenant.bootstrap.domain.duplicate: duplicate domain '' @ normalizedHost
              @ '' between tenants['' @ Itoa (int existingIndex) @ ''] and tenants['' @ Itoa (int tenantIndex) @ '']''))
        | None \<Rightarrow> validateDomainLoop tenantIndex (Suc domainCount) rest (normalizedHosts(normalizedHost \<mapsto> tenantIndex))))"

fun validateTenantLoop :: "nat \<Rightarrow> bootstrap_tenant list \<Rightarrow> (string \<rightharpoonup> nat) \<Rightarrow> unit result" where
  "validateTenantLoop tenantIndex [] normalizedHosts = Inr ()"
| "validateTenantLoop tenantIndex (tenantSpec # rest) normalizedHosts =
     (case validateDomainLoop tenantIndex 0 (bt_Domains tenantSpec) normalizedHosts of
        Inl e \<Rightarrow> Inl e
      | Inr (domainCount, normalizedHosts') \<Rightarrow>
          if domainCount = 0
          then Inl (ErrorsNew (''tenant bootstrap: tenant.bootstrap.domain.missing: tenants['' @ Itoa (int tenantIndex) @ ''] has no domains''))
          else validateTenantLoop (Suc tenantIndex) rest normalizedHosts')"

definition validateBootstrapDomains :: "bootstrap_tenant list \<Rightarrow> unit result" where
  "validateBootstrapDomains tenantSpecs = validateTenantLoop 0 tenantSpecs Map.empty"

subsection \<open>The transaction\<close>

record 'd boot_world =
  bw_db :: 'd
  bw_random :: bytes
  bw_uuid :: nat
  bw_repos :: "tenant_repository list"

definition on_db :: "('d \<Rightarrow> 'a result \<times> 'd) \<Rightarrow> ('d boot_world, 'a) io" where
  "on_db f w = (case f (bw_db w) of (r, d') \<Rightarrow> (r, w\<lparr>bw_db := d'\<rparr>))"

definition encrypt_io :: "aead \<Rightarrow> secret_keeper \<Rightarrow> string \<Rightarrow> ('d boot_world, bytes) io" where
  "encrypt_io A keeper plaintext w =
     (case Encrypt A keeper plaintext (bw_random w) of (r, rnd) \<Rightarrow> (r, w\<lparr>bw_random := rnd\<rparr>))"

definition new_uuid :: "(nat \<Rightarrow> string) \<Rightarrow> ('d boot_world, string) io" where
  "new_uuid uuid w = (Inr (uuid (bw_uuid w)), w\<lparr>bw_uuid := Suc (bw_uuid w)\<rparr>)"

definition Transaction :: "'d tenant_db \<Rightarrow> ('d boot_world, unit) io \<Rightarrow> ('d boot_world, unit) io" where
  "Transaction DB f w =
     (case f w of
        (Inl e, w') \<Rightarrow> (Inl e, w'\<lparr>bw_db := bw_db w\<rparr>)
      | (Inr _, w') \<Rightarrow>
          (case tb_Commit DB (bw_db w') of
             Inl e \<Rightarrow> (Inl e, w'\<lparr>bw_db := bw_db w\<rparr>)
           | Inr _ \<Rightarrow> (Inr (), w')))"

definition reset_table :: "('d, 'r) gorm_table \<Rightarrow> string \<Rightarrow> ('d boot_world, unit) io" where
  "reset_table T text =
     io_bind (io_wrap (\<lambda>e. Errorf text e '''') (on_db (g_Delete T (\<lambda>_. True)))) (\<lambda>_. io_return ())"

definition resetTenantDomains :: "'d tenant_db \<Rightarrow> ('d boot_world, unit) io" where
  "resetTenantDomains DB =
     reset_table (tb_domains DB) ''tenant bootstrap: tenant.bootstrap.domain.reset_failed: reset tenant domains: ''"

definition resetTenantAdmins :: "'d tenant_db \<Rightarrow> ('d boot_world, unit) io" where
  "resetTenantAdmins DB =
     reset_table (tb_admins DB) ''tenant bootstrap: tenant.bootstrap.admin.reset_failed: reset tenant admins: ''"

definition resetTenantEmailProfiles :: "'d tenant_db \<Rightarrow> ('d boot_world, unit) io" where
  "resetTenantEmailProfiles DB =
     reset_table (tb_emails DB) ''tenant bootstrap: tenant.bootstrap.email_profile.reset_failed: reset email profiles: ''"

definition resetTenantSMSProfiles :: "'d tenant_db \<Rightarrow> ('d boot_world, unit) io" where
  "resetTenantSMSProfiles DB =
     reset_table (tb_sms DB) ''tenant bootstrap: tenant.bootstrap.sms_profile.reset_failed: reset sms profiles: ''"

definition removeStaleTenants :: "'d tenant_db \<Rightarrow> string list \<Rightarrow> ('d boot_world, unit) io" where
  "removeStaleTenants DB configuredTenantIDs =
     io_bind (io_wrap (\<lambda>e. Errorf ''tenant bootstrap: tenant.bootstrap.tenant.cleanup_failed: remove stale tenants: '' e '''')
         (on_db (g_Delete (tb_tenants DB) (\<lambda>t. t_ID t \<notin> set configuredTenantIDs))))
       (\<lambda>_. io_return ())"

definition domain_row :: "string \<Rightarrow> string \<Rightarrow> bool \<Rightarrow> tenant_domain" where
  "domain_row tenantID host isDefault =
     \<lparr>td_ID = 0, td_TenantID = tenantID, td_Host = host, td_IsDefault = isDefault,
      td_CreatedAt = zero_time, td_UpdatedAt = zero_time\<rparr>"

definition upsertDomain :: "'d tenant_db \<Rightarrow> string \<Rightarrow> nat \<times> string \<Rightarrow> ('d boot_world, unit) io" where
  "upsertDomain DB tenantID = (\<lambda>(domainIndex, host).
     let domain = domain_row tenantID host (domainIndex = 0);
         wrap = (\<lambda>e. Errorf (''tenant bootstrap: domain '' @ host @ '': '') e '''') in
     io_bind (io_wrap wrap (on_db (tb_CreateDomainDoNothing DB domain))) (\<lambda>_.
     io_bind (io_wrap wrap (on_db (\<lambda>d. (g_First (tb_domains DB) (\<lambda>x. where_field host (td_Host x)) d, d)))) (\<lambda>existingDomain.
     if td_TenantID existingDomain \<noteq> tenantID \<or> td_IsDefault existingDomain \<noteq> td_IsDefault domain
     then io_fail (ErrorsNew (''tenant bootstrap: tenant.bootstrap.domain.conflict: domain '' @ host
            @ '' already assigned to tenant '' @ td_TenantID existingDomain))
     else io_return ())))"

definition upsertTenantAdmins :: "'d tenant_db \<Rightarrow> string \<Rightarrow> string list \<Rightarrow> ('d boot_world, unit) io" where
  "upsertTenantAdmins DB tenantID admins =
     io_each (\<lambda>email.
       io_bind (io_wrap (\<lambda>e. Errorf ''tenant bootstrap: tenant.bootstrap.admin.create_failed: create tenant admin: '' e '''')
           (on_db (g_Create (tb_admins DB)
             \<lparr>ta_ID = 0, ta_TenantID = tenantID, ta_Email = email, ta_CreatedAt = zero_time, ta_UpdatedAt = zero_time\<rparr>)))
         (\<lambda>_. io_return ()))
       (normalizeAdminEmails admins)"

definition tenant_status_of :: "bootstrap_tenant \<Rightarrow> string" where
  "tenant_status_of spec = (if bt_Enabled spec = Some False then TenantStatusSuspended else TenantStatusActive)"

definition upsertEmailProfile ::
  "aead \<Rightarrow> secret_keeper \<Rightarrow> (nat \<Rightarrow> string) \<Rightarrow> 'd tenant_db \<Rightarrow> bootstrap_tenant \<Rightarrow> ('d boot_world, unit) io" where
  "upsertEmailProfile A keeper uuid DB spec =
     io_bind (encrypt_io A keeper (bep_Username (bt_EmailProfile spec))) (\<lambda>usernameCipher.
     io_bind (encrypt_io A keeper (bep_Password (bt_EmailProfile spec))) (\<lambda>passwordCipher.
     io_bind (new_uuid uuid) (\<lambda>profileID.
     io_bind (io_wrap (\<lambda>e. Errorf ''tenant bootstrap: email profile: '' e '''')
         (on_db (g_Create (tb_emails DB)
           \<lparr>ep_ID = profileID, ep_TenantID = bt_ID spec, ep_Host = bep_Host (bt_EmailProfile spec),
            ep_Port = bep_Port (bt_EmailProfile spec), ep_UsernameCipher = usernameCipher,
            ep_PasswordCipher = passwordCipher, ep_FromAddress = bep_FromAddress (bt_EmailProfile spec),
            ep_IsDefault = True, ep_CreatedAt = zero_time, ep_UpdatedAt = zero_time\<rparr>)))
       (\<lambda>_. io_return ()))))"

definition upsertSMSProfile ::
  "aead \<Rightarrow> secret_keeper \<Rightarrow> (nat \<Rightarrow> string) \<Rightarrow> 'd tenant_db \<Rightarrow> bootstrap_tenant \<Rightarrow> ('d boot_world, unit) io" where
  "upsertSMSProfile A keeper uuid DB spec =
     (case bt_SMSProfile spec of
        None \<Rightarrow> io_return ()
      | Some sms \<Rightarrow>
          io_bind (encrypt_io A keeper (bsp_AccountSID sms)) (\<lambda>accountCipher.
          io_bind (encrypt_io A keeper (bsp_AuthToken sms)) (\<lambda>tokenCipher.
          io_bind (new_uuid uuid) (\<lambda>profileID.
          io_bind (io_wrap (\<lambda>e. Errorf ''tenant bootstrap: sms profile: '' e '''')
              (on_db (g_Create (tb_sms DB)
                \<lparr>sp_ID = profileID, sp_TenantID = bt_ID spec, sp_AccountSIDCipher = accountCipher,
                 sp_AuthTokenCipher = tokenCipher, sp_FromNumber = bsp_FromNumber sms, sp_IsDefault = True,
                 sp_CreatedAt = zero_time, sp_UpdatedAt = zero_time\<rparr>)))
            (\<lambda>_. io_return ())))))"

definition upsertTenant ::
  "aead \<Rightarrow> secret_keeper \<Rightarrow> (nat \<Rightarrow> string) \<Rightarrow> 'd tenant_db \<Rightarrow> bootstrap_tenant \<Rightarrow> ('d boot_world, unit) io" where
  "upsertTenant A keeper uuid DB spec =
     (if TrimSpace (bt_Status spec) \<noteq> '''' then io_fail status_unsupported
      else
      io_bind (io_wrap (\<lambda>e. Errorf (''tenant bootstrap: upsert tenant '' @ bt_ID spec @ '': '') e '''')
        (on_db (tb_UpsertTenant DB
          \<lparr>t_ID = bt_ID spec, t_DisplayName = bt_DisplayName spec, t_SupportEmail = bt_SupportEmail spec,
           t_Status = tenant_status_of spec, t_CreatedAt = zero_time, t_UpdatedAt = zero_time\<rparr>))) (\<lambda>_.
      io_bind (io_each (upsertDomain DB (bt_ID spec))
        (List.enumerate 0 (normalizeDomainHosts (bt_Domains spec)))) (\<lambda>_.
      io_bind (upsertTenantAdmins DB (bt_ID spec) (bt_Admins spec)) (\<lambda>_.
      io_bind (upsertEmailProfile A keeper uuid DB spec) (\<lambda>_.
      upsertSMSProfile A keeper uuid DB spec)))))"

fun prepareBootstrapTenants ::
  "(nat \<Rightarrow> string) \<Rightarrow> nat \<Rightarrow> bootstrap_tenant list \<Rightarrow> bootstrap_tenant list \<times> nat" where
  "prepareBootstrapTenants uuid n [] = ([], n)"
| "prepareBootstrapTenants uuid n (spec # rest) =
     (let trimmedID = TrimSpace (bt_ID spec);
          (tenantID, n') = (if trimmedID = '''' then (uuid n, Suc n) else (trimmedID, n));
          (prepared, n'') = prepareBootstrapTenants uuid n' rest in
      (spec\<lparr>bt_ID := tenantID\<rparr> # prepared, n''))"

definition bootstrapTenantIDs :: "bootstrap_tenant list \<Rightarrow> string list" where
  "bootstrapTenantIDs tenantSpecs = map bt_ID tenantSpecs"

definition bootstrap_body ::
  "aead \<Rightarrow> secret_keeper \<Rightarrow> (nat \<Rightarrow> string) \<Rightarrow> 'd tenant_db \<Rightarrow> bootstrap_tenant list \<Rightarrow> ('d boot_world, unit) io" where
  "bootstrap_body A keeper uuid DB tenantSpecs =
     io_bind (resetTenantDomains DB) (\<lambda>_.
     io_bind (resetTenantAdmins DB) (\<lambda>_.
     io_bind (resetTenantEmailProfiles DB) (\<lambda>_.
     io_bind (resetTenantSMSProfiles DB) (\<lambda>_.
     io_bind (removeStaleTenants DB (bootstrapTenantIDs tenantSpecs)) (\<lambda>_.
     io_each (upsertTenant A keeper uuid DB) tenantSpecs)))))"

definition invalidateRegisteredRepositories :: "'d boot_world \<Rightarrow> 'd boot_world" where
  "invalidateRegisteredRepositories w = w\<lparr>bw_repos := map clearCaches (bw_repos w)\<rparr>"

definition Bootstrap ::
  "aead \<Rightarrow> secret_keeper \<Rightarrow> (nat \<Rightarrow> string) \<Rightarrow> 'd tenant_db \<Rightarrow> bootstrap_config \<Rightarrow> ('d boot_world, unit) io" where
  "Bootstrap A keeper uuid DB cfg w =
     (if bc_Tenants cfg = [] then (Inl (ErrorsNew ''tenant bootstrap: no tenants configured''), w)
      else let (tenantSpecs, n) = prepareBootstrapTenants uuid (bw_uuid w) (bc_Tenants cfg);
               w0 = w\<lparr>bw_uuid := n\<rparr>;
               enabledCount = length (filter (\<lambda>s. bt_Enabled s \<noteq> Some False) tenantSpecs) in
      if enabledCount = 0 then (Inl (ErrorsNew ''tenant bootstrap: no enabled tenants configured''), w0)
      else (case validateBootstrapDomains tenantSpecs of
          Inl e \<Rightarrow> (Inl e, w0)
        | Inr _ \<Rightarrow>
            (case Transaction DB (bootstrap_body A keeper uuid DB tenantSpecs) w0 of
               (Inl e, w') \<Rightarrow> (Inl e, w')
             | (Inr _, w') \<Rightarrow> (Inr (), invalidateRegisteredRepositories w'))))"

definition BootstrapFromFile ::
  "aead \<Rightarrow> secret_keeper \<Rightarrow> (nat \<Rightarrow> string) \<Rightarrow> 'd tenant_db \<Rightarrow> (string \<Rightarrow> bytes result)
   \<Rightarrow> (bytes \<Rightarrow> bootstrap_config result) \<Rightarrow> string \<Rightarrow> ('d boot_world, unit) io" where
  "BootstrapFromFile A keeper uuid DB ReadFile Unmarshal path w =
     (case ReadFile path of
        Inl e \<Rightarrow> (Inl (Errorf ''tenant bootstrap: read file: '' e ''''), w)
      | Inr contents \<Rightarrow>
          (case Unmarshal contents of
             Inl e \<Rightarrow> (Inl (Errorf ''tenant bootstrap: parse yaml: '' e ''''), w)
           | Inr cfg \<Rightarrow> Bootstrap A keeper uuid DB cfg w))"

subsection \<open>Domains are unique\<close>

lemma normalizeDomainHosts_filter: "normalizeDomainHosts hs = filter (\<lambda>h. h \<noteq> '''') (map normalizeDomainHost hs)"
  by (induction hs) (simp_all add: Let_def)

lemma validateDomainLoop_ok:
  "distinct (normalizeDomainHosts hs) \<Longrightarrow> set (normalizeDomainHosts hs) \<inter> dom m = {} \<Longrightarrow>
   validateDomainLoop i n hs m =
     Inr (n + length (normalizeDomainHosts hs), (\<lambda>h. if h \<in> set (normalizeDomainHosts hs) then Some i else m h))"
proof (induction hs arbitrary: n m)
  case Nil
  then show ?case by simp
next
  case (Cons h hs)
  show ?case
  proof (cases "normalizeDomainHost h = ''''")
    case True
    with Cons show ?thesis by (simp add: Let_def)
  next
    case False
    with Cons.prems have new: "m (normalizeDomainHost h) = None" "normalizeDomainHost h \<notin> set (normalizeDomainHosts hs)"
      and rest: "distinct (normalizeDomainHosts hs)" "set (normalizeDomainHosts hs) \<inter> dom m = {}"
      by (auto simp: Let_def)
    then have "set (normalizeDomainHosts hs) \<inter> dom (m(normalizeDomainHost h \<mapsto> i)) = {}" by auto
    note IH = Cons.IH[OF rest(1) this, of "Suc n"]
    have "validateDomainLoop i n (h # hs) m = validateDomainLoop i (Suc n) hs (m(normalizeDomainHost h \<mapsto> i))"
      using False new by (simp add: Let_def)
    also note IH
    also have "(Suc n + length (normalizeDomainHosts hs),
        \<lambda>k. if k \<in> set (normalizeDomainHosts hs) then Some i else (m(normalizeDomainHost h \<mapsto> i)) k) =
      (n + length (normalizeDomainHosts (h # hs)),
        \<lambda>k. if k \<in> set (normalizeDomainHosts (h # hs)) then Some i else m k)"
      using False by (simp add: Let_def fun_eq_iff)
    finally show ?thesis .
  qed
qed

lemma validateDomainLoop_bad:
  "\<not> (distinct (normalizeDomainHosts hs) \<and> set (normalizeDomainHosts hs) \<inter> dom m = {}) \<Longrightarrow>
   \<exists>e. validateDomainLoop i n hs m = Inl e"
proof (induction hs arbitrary: n m)
  case Nil
  then show ?case by simp
next
  case (Cons h hs)
  show ?case
  proof (cases "normalizeDomainHost h = '''' \<or> m (normalizeDomainHost h) \<noteq> None")
    case True
    show ?thesis
    proof (cases "normalizeDomainHost h = ''''")
      case True
      with Cons.prems Cons.IH[of m n] show ?thesis by (simp add: Let_def)
    next
      case False
      with True show ?thesis by (auto simp: Let_def)
    qed
  next
    case False
    with Cons.prems have "\<not> (distinct (normalizeDomainHosts hs)
        \<and> set (normalizeDomainHosts hs) \<inter> dom (m(normalizeDomainHost h \<mapsto> i)) = {})"
      by (auto simp: Let_def)
    from Cons.IH[OF this, of "Suc n"] obtain e where
      "validateDomainLoop i (Suc n) hs (m(normalizeDomainHost h \<mapsto> i)) = Inl e" ..
    with False show ?thesis by (simp add: Let_def)
  qed
qed

lemma disjoint_step:
  assumes "D \<and> H \<inter> M = {}"
  shows "(A \<and> B \<and> C \<and> X \<inter> (H \<union> M) = {}) \<longleftrightarrow> (A \<and> B) \<and> (D \<and> C \<and> H \<inter> X = {}) \<and> (H \<union> X) \<inter> M = {}"
  using assms by blast

lemma validateTenantLoop_spec:
  "is_ok (validateTenantLoop i ss m) \<longleftrightarrow>
     list_all (\<lambda>s. normalizeDomainHosts (bt_Domains s) \<noteq> []) ss
     \<and> distinct (concat (map (\<lambda>s. normalizeDomainHosts (bt_Domains s)) ss))
     \<and> set (concat (map (\<lambda>s. normalizeDomainHosts (bt_Domains s)) ss)) \<inter> dom m = {}"
proof (induction ss arbitrary: i m)
  case Nil
  then show ?case by simp
next
  case (Cons s ss)
  let ?hs = "normalizeDomainHosts (bt_Domains s)"
  let ?m = "\<lambda>h. if h \<in> set ?hs then Some i else m h"
  show ?case
  proof (cases "distinct ?hs \<and> set ?hs \<inter> dom m = {}")
    case True
    then have v: "validateDomainLoop i 0 (bt_Domains s) m = Inr (length ?hs, ?m)"
      by (simp add: validateDomainLoop_ok)
    have "dom ?m = set ?hs \<union> dom m" by (auto simp: dom_def)
    then have "is_ok (validateTenantLoop i (s # ss) m) \<longleftrightarrow> ?hs \<noteq> []
        \<and> list_all (\<lambda>s. normalizeDomainHosts (bt_Domains s) \<noteq> []) ss
        \<and> distinct (concat (map (\<lambda>s. normalizeDomainHosts (bt_Domains s)) ss))
        \<and> set (concat (map (\<lambda>s. normalizeDomainHosts (bt_Domains s)) ss)) \<inter> (set ?hs \<union> dom m) = {}"
      using v Cons.IH[of "Suc i" ?m] by (simp only: validateTenantLoop.simps sum.case prod.case length_0_conv) simp
    then show ?thesis
      unfolding disjoint_step[OF True] list.pred_inject list.map concat.simps set_append distinct_append .
  next
    case False
    from validateDomainLoop_bad[OF False, of i 0] obtain e where
      "validateDomainLoop i 0 (bt_Domains s) m = Inl e" ..
    moreover from False have "\<not> (distinct (?hs @ concat (map (\<lambda>s. normalizeDomainHosts (bt_Domains s)) ss))
        \<and> set (?hs @ concat (map (\<lambda>s. normalizeDomainHosts (bt_Domains s)) ss)) \<inter> dom m = {})"
      unfolding distinct_append set_append by blast
    ultimately show ?thesis by simp
  qed
qed

subsection \<open>A failed bootstrap changes nothing\<close>

lemma keeps_repos_prims [io_keeps_intros]:
  "io_keeps bw_repos (on_db f)" "io_keeps bw_repos (encrypt_io A keeper p)" "io_keeps bw_repos (new_uuid uuid)"
  by (simp_all add: io_keeps_def on_db_def encrypt_io_def new_uuid_def split: prod.split)

lemma keeps_repos_domain: "io_keeps bw_repos (upsertDomain DB tid x)"
  by (cases x) (auto simp: upsertDomain_def Let_def intro!: io_keeps_intros)

lemma keeps_repos_sms: "io_keeps bw_repos (upsertSMSProfile A keeper uuid DB spec)"
  by (cases "bt_SMSProfile spec") (auto simp: upsertSMSProfile_def intro!: io_keeps_intros)

lemma keeps_repos_body: "io_keeps bw_repos (bootstrap_body A keeper uuid DB specs)"
  unfolding bootstrap_body_def resetTenantDomains_def resetTenantAdmins_def resetTenantEmailProfiles_def
    resetTenantSMSProfiles_def reset_table_def removeStaleTenants_def upsertTenant_def upsertTenantAdmins_def
    upsertEmailProfile_def
  by (intro io_keeps_intros keeps_repos_domain keeps_repos_sms)

lemma Transaction_Inl:
  assumes "Transaction DB m w = (Inl e, w')" "io_keeps bw_repos m"
  shows "bw_db w' = bw_db w \<and> bw_repos w' = bw_repos w"
proof -
  obtain r v where r: "m w = (r, v)" by fastforce
  with assms(1) have "w' = v\<lparr>bw_db := bw_db w\<rparr>"
    by (auto simp: Transaction_def split: sum.splits)
  with io_keepsD[OF assms(2) r] show ?thesis by simp
qed

lemma Transaction_Inr: "Transaction DB m w = (Inr x, w') \<Longrightarrow> m w = (Inr (), w')"
  by (auto simp: Transaction_def split: prod.splits sum.splits)

subsection \<open>What a successful bootstrap leaves in the tables\<close>

lemma on_db_Inr [io_success]: "on_db f w = (Inr x, w') \<longleftrightarrow> (\<exists>d'. f (bw_db w) = (Inr x, d') \<and> w' = w\<lparr>bw_db := d'\<rparr>)"
  by (auto simp: on_db_def split: prod.splits)

lemma encrypt_io_Inr [io_success]:
  "encrypt_io A keeper p w = (Inr c, w') \<longleftrightarrow>
     (\<exists>rnd. Encrypt A keeper p (bw_random w) = (Inr c, rnd) \<and> w' = w\<lparr>bw_random := rnd\<rparr>)"
  by (auto simp: encrypt_io_def split: prod.splits)

lemma new_uuid_Inr [io_success]:
  "new_uuid uuid w = (Inr u, w') \<longleftrightarrow> u = uuid (bw_uuid w) \<and> w' = w\<lparr>bw_uuid := Suc (bw_uuid w)\<rparr>"
  by (auto simp: new_uuid_def)

definition email_matches :: "aead \<Rightarrow> secret_keeper \<Rightarrow> bootstrap_tenant \<Rightarrow> email_profile \<Rightarrow> bool" where
  "email_matches A keeper s e \<longleftrightarrow> ep_TenantID e = bt_ID s \<and> ep_IsDefault e
     \<and> ep_Host e = bep_Host (bt_EmailProfile s) \<and> ep_Port e = bep_Port (bt_EmailProfile s)
     \<and> ep_FromAddress e = bep_FromAddress (bt_EmailProfile s)
     \<and> Decrypt A keeper (ep_UsernameCipher e) = Inr (bep_Username (bt_EmailProfile s))
     \<and> Decrypt A keeper (ep_PasswordCipher e) = Inr (bep_Password (bt_EmailProfile s))"

definition sms_matches :: "aead \<Rightarrow> secret_keeper \<Rightarrow> bootstrap_tenant \<Rightarrow> sms_profile \<Rightarrow> bool" where
  "sms_matches A keeper s p \<longleftrightarrow> sp_TenantID p = bt_ID s \<and> sp_IsDefault p
     \<and> (\<exists>sms. bt_SMSProfile s = Some sms \<and> sp_FromNumber p = bsp_FromNumber sms
         \<and> Decrypt A keeper (sp_AccountSIDCipher p) = Inr (bsp_AccountSID sms)
         \<and> Decrypt A keeper (sp_AuthTokenCipher p) = Inr (bsp_AuthToken sms))"

definition tenant_matches :: "bootstrap_tenant \<Rightarrow> tenant \<Rightarrow> bool" where
  "tenant_matches s t \<longleftrightarrow> t_ID t = bt_ID s \<and> t_DisplayName t = bt_DisplayName s
     \<and> t_SupportEmail t = bt_SupportEmail s \<and> t_Status t = tenant_status_of s"

text \<open>The store after the tenants \<open>ys\<close> have been written.\<close>

definition provisioned :: "aead \<Rightarrow> secret_keeper \<Rightarrow> bootstrap_tenant list \<Rightarrow> tenant_store \<Rightarrow> bool" where
  "provisioned A keeper ys st \<longleftrightarrow>
     map (\<lambda>x. (td_TenantID x, td_Host x)) (ts_domains st) =
       concat (map (\<lambda>s. map (Pair (bt_ID s)) (normalizeDomainHosts (bt_Domains s))) ys)
     \<and> list_all2 (email_matches A keeper) ys (ts_emails st)
     \<and> list_all2 (sms_matches A keeper) (filter (\<lambda>s. bt_SMSProfile s \<noteq> None) ys) (ts_sms st)
     \<and> (\<forall>s \<in> set ys. bt_ID s \<in> t_ID ` set (ts_tenants st))
     \<and> (\<forall>s \<in> set ys. \<forall>t \<in> set (ts_tenants st). t_ID t = bt_ID s \<longrightarrow> tenant_matches s t)"

lemma upsertDomain_store:
  assumes law: "tenant_writes_law DB sto" and run: "upsertDomain DB tid (i, h) w = (Inr (), w')"
    and fresh: "h \<notin> td_Host ` set (ts_domains (sto (bw_db w)))"
  shows "\<exists>x. td_TenantID x = tid \<and> td_Host x = h
    \<and> sto (bw_db w') = (sto (bw_db w))\<lparr>ts_domains := ts_domains (sto (bw_db w)) @ [x]\<rparr>"
proof -
  from run obtain d' where c: "tb_CreateDomainDoNothing DB (domain_row tid h (i = 0)) (bw_db w) = (Inr (), d')"
    and w': "bw_db w' = d'"
    by (auto simp: upsertDomain_def Let_def io_success split: if_splits)
  from law c obtain x where "same_domain (domain_row tid h (i = 0)) x"
    "sto d' = (if td_Host (domain_row tid h (i = 0)) \<in> td_Host ` set (ts_domains (sto (bw_db w))) then sto (bw_db w)
      else (sto (bw_db w))\<lparr>ts_domains := ts_domains (sto (bw_db w)) @ [x]\<rparr>)"
    unfolding tenant_writes_law_def by meson
  with fresh w' show ?thesis by (auto simp: domain_row_def same_domain_def)
qed

lemma upsertDomains_store:
  assumes law: "tenant_writes_law DB sto"
  shows "io_each (upsertDomain DB tid) (List.enumerate n hs) w = (Inr (), w') \<Longrightarrow> distinct hs \<Longrightarrow>
    set hs \<inter> td_Host ` set (ts_domains (sto (bw_db w))) = {} \<Longrightarrow>
    \<exists>xs. map (\<lambda>x. (td_TenantID x, td_Host x)) xs = map (Pair tid) hs
      \<and> sto (bw_db w') = (sto (bw_db w))\<lparr>ts_domains := ts_domains (sto (bw_db w)) @ xs\<rparr>"
proof (induction hs arbitrary: n w)
  case Nil
  then show ?case by (auto intro!: exI[of _ "[]"])
next
  case (Cons h hs)
  from Cons.prems(1) obtain v where v: "upsertDomain DB tid (n, h) w = (Inr (), v)"
    "io_each (upsertDomain DB tid) (List.enumerate (Suc n) hs) v = (Inr (), w')"
    by (auto simp: io_bind_Inr)
  from Cons.prems(3) have "h \<notin> td_Host ` set (ts_domains (sto (bw_db w)))" by simp
  from upsertDomain_store[OF law v(1) this] obtain x where x: "td_TenantID x = tid" "td_Host x = h"
    "sto (bw_db v) = (sto (bw_db w))\<lparr>ts_domains := ts_domains (sto (bw_db w)) @ [x]\<rparr>" by blast
  with Cons.prems(2,3) have "set hs \<inter> td_Host ` set (ts_domains (sto (bw_db v))) = {}" by auto
  from Cons.IH[OF v(2) _ this] Cons.prems(2) obtain xs where
    "map (\<lambda>x. (td_TenantID x, td_Host x)) xs = map (Pair tid) hs"
    "sto (bw_db w') = (sto (bw_db v))\<lparr>ts_domains := ts_domains (sto (bw_db v)) @ xs\<rparr>" by auto
  with x show ?case by (intro exI[of _ "x # xs"]) simp
qed

lemma upsertAdmins_store:
  assumes law: "tenant_writes_law DB sto" and run: "upsertTenantAdmins DB tid admins w = (Inr (), w')"
  shows "\<exists>as. sto (bw_db w') = (sto (bw_db w))\<lparr>ts_admins := as\<rparr>"
proof -
  have create: "g_Create (tb_admins DB) a d = (Inr a', d') \<Longrightarrow>
      sto d' = (sto d)\<lparr>ts_admins := ts_admins (sto d) @ [a']\<rparr>" for a d a' d'
    using law unfolding tenant_writes_law_def by meson
  show ?thesis
    using run unfolding upsertTenantAdmins_def
  proof (rule io_each_invariant)
    show "\<exists>as. sto (bw_db w) = (sto (bw_db w))\<lparr>ts_admins := as\<rparr>"
      by (rule exI[of _ "ts_admins (sto (bw_db w))"]) simp
  qed (auto simp: io_success dest!: create)
qed

lemma same_email_fields:
  "same_email p p' \<Longrightarrow> ep_TenantID p' = ep_TenantID p \<and> ep_IsDefault p' = ep_IsDefault p \<and> ep_Host p' = ep_Host p
     \<and> ep_Port p' = ep_Port p \<and> ep_FromAddress p' = ep_FromAddress p
     \<and> ep_UsernameCipher p' = ep_UsernameCipher p \<and> ep_PasswordCipher p' = ep_PasswordCipher p"
  by (cases p; cases p') (simp add: same_email_def)

lemma same_sms_fields:
  "same_sms p p' \<Longrightarrow> sp_TenantID p' = sp_TenantID p \<and> sp_IsDefault p' = sp_IsDefault p
     \<and> sp_FromNumber p' = sp_FromNumber p \<and> sp_AccountSIDCipher p' = sp_AccountSIDCipher p
     \<and> sp_AuthTokenCipher p' = sp_AuthTokenCipher p"
  by (cases p; cases p') (simp add: same_sms_def)

lemma upsertEmail_store:
  assumes law: "tenant_writes_law DB sto" and A: "aead_law A"
    and run: "upsertEmailProfile A keeper uuid DB s w = (Inr (), w')"
  shows "\<exists>e. email_matches A keeper s e \<and> sto (bw_db w') = (sto (bw_db w))\<lparr>ts_emails := ts_emails (sto (bw_db w)) @ [e]\<rparr>"
proof -
  have create: "same_email p p' \<and> sto d' = (sto d)\<lparr>ts_emails := ts_emails (sto d) @ [p']\<rparr>"
    if "g_Create (tb_emails DB) p d = (Inr p', d')" for p d p' d'
    using law that unfolding tenant_writes_law_def by meson
  from run obtain uc pc r1 r2 r3 r4 i p' d' where
    enc: "Encrypt A keeper (bep_Username (bt_EmailProfile s)) r1 = (Inr uc, r2)"
    "Encrypt A keeper (bep_Password (bt_EmailProfile s)) r3 = (Inr pc, r4)"
    and c: "g_Create (tb_emails DB)
        \<lparr>ep_ID = i, ep_TenantID = bt_ID s, ep_Host = bep_Host (bt_EmailProfile s),
         ep_Port = bep_Port (bt_EmailProfile s), ep_UsernameCipher = uc, ep_PasswordCipher = pc,
         ep_FromAddress = bep_FromAddress (bt_EmailProfile s), ep_IsDefault = True,
         ep_CreatedAt = zero_time, ep_UpdatedAt = zero_time\<rparr> (bw_db w) = (Inr p', d')"
    and w': "bw_db w' = d'"
    by (auto simp: upsertEmailProfile_def io_success)
  from create[OF c] same_email_fields Encrypt_Decrypt[OF A enc(1)] Encrypt_Decrypt[OF A enc(2)] w'
  show ?thesis by (intro exI[of _ p']) (fastforce simp: email_matches_def)
qed

lemma upsertSMS_store:
  assumes law: "tenant_writes_law DB sto" and A: "aead_law A"
    and run: "upsertSMSProfile A keeper uuid DB s w = (Inr (), w')"
  shows "\<exists>ps. list_all2 (sms_matches A keeper) (filter (\<lambda>s. bt_SMSProfile s \<noteq> None) [s]) ps
    \<and> sto (bw_db w') = (sto (bw_db w))\<lparr>ts_sms := ts_sms (sto (bw_db w)) @ ps\<rparr>"
proof -
  have create: "same_sms p p' \<and> sto d' = (sto d)\<lparr>ts_sms := ts_sms (sto d) @ [p']\<rparr>"
    if "g_Create (tb_sms DB) p d = (Inr p', d')" for p d p' d'
    using law that unfolding tenant_writes_law_def by meson
  show ?thesis
  proof (cases "bt_SMSProfile s")
    case None
    with run show ?thesis by (auto simp: upsertSMSProfile_def intro!: exI[of _ "[]"])
  next
    case (Some sms)
    with run obtain ac tc r1 r2 r3 r4 i p' d' where
      enc: "Encrypt A keeper (bsp_AccountSID sms) r1 = (Inr ac, r2)"
      "Encrypt A keeper (bsp_AuthToken sms) r3 = (Inr tc, r4)"
      and c: "g_Create (tb_sms DB)
          \<lparr>sp_ID = i, sp_TenantID = bt_ID s, sp_AccountSIDCipher = ac, sp_AuthTokenCipher = tc,
           sp_FromNumber = bsp_FromNumber sms, sp_IsDefault = True, sp_CreatedAt = zero_time,
           sp_UpdatedAt = zero_time\<rparr> (bw_db w) = (Inr p', d')"
      and w': "bw_db w' = d'"
      by (auto simp: upsertSMSProfile_def io_success)
    from create[OF c] same_sms_fields Encrypt_Decrypt[OF A enc(1)] Encrypt_Decrypt[OF A enc(2)] w' Some
    show ?thesis by (intro exI[of _ "[p']"]) (fastforce simp: sms_matches_def)
  qed
qed

lemma upsertTenant_store:
  assumes law: "tenant_writes_law DB sto" and A: "aead_law A"
    and run: "upsertTenant A keeper uuid DB s w = (Inr (), w')"
    and hosts: "distinct (normalizeDomainHosts (bt_Domains s))"
      "set (normalizeDomainHosts (bt_Domains s)) \<inter> td_Host ` set (ts_domains (sto (bw_db w))) = {}"
  obtains t xs as e ps where "tenant_matches s t"
    and "map (\<lambda>x. (td_TenantID x, td_Host x)) xs = map (Pair (bt_ID s)) (normalizeDomainHosts (bt_Domains s))"
    and "email_matches A keeper s e"
    and "list_all2 (sms_matches A keeper) (filter (\<lambda>s. bt_SMSProfile s \<noteq> None) [s]) ps"
    and "sto (bw_db w') = (sto (bw_db w))
      \<lparr>ts_tenants := upsert_row t (ts_tenants (sto (bw_db w))), ts_domains := ts_domains (sto (bw_db w)) @ xs,
       ts_admins := as, ts_emails := ts_emails (sto (bw_db w)) @ [e], ts_sms := ts_sms (sto (bw_db w)) @ ps\<rparr>"
proof -
  let ?row = "\<lparr>t_ID = bt_ID s, t_DisplayName = bt_DisplayName s, t_SupportEmail = bt_SupportEmail s,
           t_Status = tenant_status_of s, t_CreatedAt = zero_time, t_UpdatedAt = zero_time\<rparr>"
  from run obtain d1 w2 w3 w4 where
    u: "tb_UpsertTenant DB ?row (bw_db w) = (Inr (), d1)"
    and d: "io_each (upsertDomain DB (bt_ID s)) (List.enumerate 0 (normalizeDomainHosts (bt_Domains s))) (w\<lparr>bw_db := d1\<rparr>) = (Inr (), w2)"
    and a: "upsertTenantAdmins DB (bt_ID s) (bt_Admins s) w2 = (Inr (), w3)"
    and e: "upsertEmailProfile A keeper uuid DB s w3 = (Inr (), w4)"
    and m: "upsertSMSProfile A keeper uuid DB s w4 = (Inr (), w')"
    by (auto simp: upsertTenant_def io_success split: if_splits)
  from law u obtain t where t: "same_tenant ?row t"
    "sto d1 = (sto (bw_db w))\<lparr>ts_tenants := upsert_row t (ts_tenants (sto (bw_db w)))\<rparr>"
    unfolding tenant_writes_law_def by meson
  from upsertDomains_store[OF law d hosts(1)] hosts(2) t(2) obtain xs where
    xs: "map (\<lambda>x. (td_TenantID x, td_Host x)) xs = map (Pair (bt_ID s)) (normalizeDomainHosts (bt_Domains s))"
    "sto (bw_db w2) = (sto d1)\<lparr>ts_domains := ts_domains (sto d1) @ xs\<rparr>" by auto
  from upsertAdmins_store[OF law a] obtain as where as: "sto (bw_db w3) = (sto (bw_db w2))\<lparr>ts_admins := as\<rparr>" ..
  from upsertEmail_store[OF law A e] obtain em where em: "email_matches A keeper s em"
    "sto (bw_db w4) = (sto (bw_db w3))\<lparr>ts_emails := ts_emails (sto (bw_db w3)) @ [em]\<rparr>" by blast
  from upsertSMS_store[OF law A m] obtain ps where
    ps: "list_all2 (sms_matches A keeper) (filter (\<lambda>s. bt_SMSProfile s \<noteq> None) [s]) ps"
    "sto (bw_db w') = (sto (bw_db w4))\<lparr>ts_sms := ts_sms (sto (bw_db w4)) @ ps\<rparr>" by blast
  have "tenant_matches s t" using t(1) by (simp add: tenant_matches_def same_tenant_def)
  from that[OF this xs(1) em(1) ps(1)] show thesis using t(2) xs(2) as em(2) ps(2) by simp
qed

lemma provisioned_hosts:
  "provisioned A keeper ys st \<Longrightarrow>
   map td_Host (ts_domains st) = concat (map (\<lambda>s. normalizeDomainHosts (bt_Domains s)) ys)"
proof -
  assume "provisioned A keeper ys st"
  then have "map snd (map (\<lambda>x. (td_TenantID x, td_Host x)) (ts_domains st)) =
      map snd (concat (map (\<lambda>s. map (Pair (bt_ID s)) (normalizeDomainHosts (bt_Domains s))) ys))"
    unfolding provisioned_def by simp
  then show ?thesis by (simp add: map_concat comp_def)
qed

lemma upsert_row_lookup:
  "t_ID ` set (upsert_row t ts) = insert (t_ID t) (t_ID ` set ts)"
  "x \<in> set (upsert_row t ts) \<Longrightarrow> x = t \<or> x \<in> set ts \<and> t_ID x \<noteq> t_ID t"
  by (auto simp: upsert_row_def image_iff split: if_splits)

lemma provisioned_step:
  assumes law: "tenant_writes_law DB sto" "aead_law A"
    and run: "upsertTenant A keeper uuid DB s w = (Inr (), w')"
    and pre: "provisioned A keeper ys (sto (bw_db w))"
    and hosts: "distinct (concat (map (\<lambda>s. normalizeDomainHosts (bt_Domains s)) (ys @ [s])))"
    and ids: "bt_ID s \<notin> bt_ID ` set ys"
  shows "provisioned A keeper (ys @ [s]) (sto (bw_db w'))"
proof -
  let ?st = "sto (bw_db w)"
  have fresh: "distinct (normalizeDomainHosts (bt_Domains s))"
    "set (normalizeDomainHosts (bt_Domains s)) \<inter> td_Host ` set (ts_domains ?st) = {}"
    using hosts unfolding set_map[symmetric] provisioned_hosts[OF pre] by auto
  obtain t xs as e ps where new: "tenant_matches s t"
    "map (\<lambda>x. (td_TenantID x, td_Host x)) xs = map (Pair (bt_ID s)) (normalizeDomainHosts (bt_Domains s))"
    "email_matches A keeper s e"
    "list_all2 (sms_matches A keeper) (filter (\<lambda>s. bt_SMSProfile s \<noteq> None) [s]) ps"
    and st: "sto (bw_db w') = ?st
      \<lparr>ts_tenants := upsert_row t (ts_tenants ?st), ts_domains := ts_domains ?st @ xs, ts_admins := as,
       ts_emails := ts_emails ?st @ [e], ts_sms := ts_sms ?st @ ps\<rparr>"
    by (rule upsertTenant_store[OF law run fresh])
  have t_id: "t_ID t = bt_ID s" using new(1) by (simp add: tenant_matches_def)
  have "\<forall>s' \<in> set (ys @ [s]). bt_ID s' \<in> t_ID ` set (upsert_row t (ts_tenants ?st))"
    using pre t_id unfolding provisioned_def upsert_row_lookup(1) by auto
  moreover have "tenant_matches s' x"
    if "s' \<in> set (ys @ [s])" "x \<in> set (upsert_row t (ts_tenants ?st))" "t_ID x = bt_ID s'" for s' x
    using that(1) upsert_row_lookup(2)[OF that(2)] that(3) pre ids t_id new(1)
    unfolding provisioned_def by (auto simp: image_iff)
  ultimately show ?thesis
    using pre new st unfolding provisioned_def Let_def by (auto intro: list_all2_appendI)
qed

lemma bootstrap_body_provisioned:
  assumes law: "tenant_writes_law DB sto" "aead_law A"
    and run: "bootstrap_body A keeper uuid DB specs w = (Inr (), w')"
    and hosts: "distinct (concat (map (\<lambda>s. normalizeDomainHosts (bt_Domains s)) specs))"
    and ids: "distinct (map bt_ID specs)"
  shows "provisioned A keeper specs (sto (bw_db w'))"
proof -
  from run obtain n1 d1 n2 d2 n3 d3 n4 d4 n5 d5 where del:
    "g_Delete (tb_domains DB) (\<lambda>_. True) (bw_db w) = (Inr n1, d1)"
    "g_Delete (tb_admins DB) (\<lambda>_. True) d1 = (Inr n2, d2)"
    "g_Delete (tb_emails DB) (\<lambda>_. True) d2 = (Inr n3, d3)"
    "g_Delete (tb_sms DB) (\<lambda>_. True) d3 = (Inr n4, d4)"
    "g_Delete (tb_tenants DB) (\<lambda>t. t_ID t \<notin> set (bootstrapTenantIDs specs)) d4 = (Inr n5, d5)"
    and loop: "io_each (upsertTenant A keeper uuid DB) specs (w\<lparr>bw_db := d5\<rparr>) = (Inr (), w')"
    by (auto simp: bootstrap_body_def resetTenantDomains_def resetTenantAdmins_def resetTenantEmailProfiles_def
        resetTenantSMSProfiles_def reset_table_def removeStaleTenants_def io_success)
  note law1 = law(1)[unfolded tenant_writes_law_def]
  have "sto d1 = (sto (bw_db w))\<lparr>ts_domains := []\<rparr>" using law1 del(1) by fastforce
  moreover have "sto d2 = (sto d1)\<lparr>ts_admins := []\<rparr>" using law1 del(2) by fastforce
  moreover have "sto d3 = (sto d2)\<lparr>ts_emails := []\<rparr>" using law1 del(3) by fastforce
  moreover have "sto d4 = (sto d3)\<lparr>ts_sms := []\<rparr>" using law1 del(4) by fastforce
  moreover have "\<exists>ts. sto d5 = (sto d4)\<lparr>ts_tenants := ts\<rparr>" using law1 del(5) by meson
  ultimately have start: "provisioned A keeper [] (sto d5)" by (auto simp: provisioned_def)
  show ?thesis
    using loop
  proof (rule io_each_invariant[where I = "\<lambda>ys v. provisioned A keeper ys (sto (bw_db v))"])
    show "provisioned A keeper [] (sto (bw_db (w\<lparr>bw_db := d5\<rparr>)))" using start by simp
    fix ys s zs v v'
    assume sp: "specs = ys @ s # zs" and pre: "provisioned A keeper ys (sto (bw_db v))"
      and up: "upsertTenant A keeper uuid DB s v = (Inr (), v')"
    show "provisioned A keeper (ys @ [s]) (sto (bw_db v'))"
      by (rule provisioned_step[OF law up pre]) (use hosts ids sp in auto)
  qed
qed

definition tenant_reads_total :: "'d tenant_db \<Rightarrow> 'd \<Rightarrow> bool" where
  "tenant_reads_total DB d \<longleftrightarrow> first_total (tb_tenants DB) d \<and> first_total (tb_domains DB) d
     \<and> first_total (tb_emails DB) d \<and> first_total (tb_sms DB) d"

definition runtime_matches :: "bootstrap_tenant \<Rightarrow> runtime_config \<Rightarrow> bool" where
  "runtime_matches s cfg \<longleftrightarrow> tenant_matches s (rc_Tenant cfg)
     \<and> rc_Email cfg = \<lparr>ec_Host = bep_Host (bt_EmailProfile s), ec_Port = bep_Port (bt_EmailProfile s),
                       ec_Username = bep_Username (bt_EmailProfile s), ec_Password = bep_Password (bt_EmailProfile s),
                       ec_FromAddress = bep_FromAddress (bt_EmailProfile s)\<rparr>
     \<and> rc_SMS cfg = map_option (\<lambda>sms. \<lparr>smc_AccountSID = bsp_AccountSID sms, smc_AuthToken = bsp_AuthToken sms,
                                       smc_FromNumber = bsp_FromNumber sms\<rparr>) (bt_SMSProfile s)"

lemma list_all2_inD2: "list_all2 P xs ys \<Longrightarrow> y \<in> set ys \<Longrightarrow> \<exists>x \<in> set xs. P x y"
  by (metis in_set_conv_nth list_all2_conv_all_nth)

lemma list_all2_inD1: "list_all2 P xs ys \<Longrightarrow> x \<in> set xs \<Longrightarrow> \<exists>y \<in> set ys. P x y"
  by (metis in_set_conv_nth list_all2_conv_all_nth)

lemma load_sms_provisioned:
  assumes laws: "tenant_reads_law DB sto" "tenant_reads_total DB d" and prov: "provisioned A keeper specs (sto d)"
    and ids: "distinct (map bt_ID specs)" and s: "s \<in> set specs" "bt_ID s \<noteq> ''''"
  shows "load_sms A keeper DB (bt_ID s) d =
    Inr (map_option (\<lambda>sms. \<lparr>smc_AccountSID = bsp_AccountSID sms, smc_AuthToken = bsp_AuthToken sms,
                            smc_FromNumber = bsp_FromNumber sms\<rparr>) (bt_SMSProfile s))"
proof -
  let ?p = "\<lambda>p. where_field (bt_ID s) (sp_TenantID p) \<and> sp_IsDefault p"
  have law: "first_law (tb_sms DB) (ts_sms \<circ> sto)" "first_total (tb_sms DB) d"
    using laws by (simp_all add: tenant_reads_law_def tenant_reads_total_def)
  have rows: "list_all2 (sms_matches A keeper) (filter (\<lambda>s. bt_SMSProfile s \<noteq> None) specs) (ts_sms (sto d))"
    using prov by (simp add: provisioned_def)
  have mine: "sms_matches A keeper s p" if p: "p \<in> set (ts_sms (sto d))" "?p p" for p
  proof -
    from list_all2_inD2[OF rows p(1)] obtain s' where s': "s' \<in> set specs" "sms_matches A keeper s' p" by auto
    with p(2) s(2) have "bt_ID s' = bt_ID s" by (auto simp: sms_matches_def where_field_def)
    with ids s' s(1) show ?thesis by (auto simp: distinct_map dest: inj_onD)
  qed
  show ?thesis
  proof (cases "bt_SMSProfile s")
    case None
    have "g_First (tb_sms DB) ?p d = Inl ErrRecordNotFound"
      by (rule first_none[OF law]) (use mine None in \<open>auto simp: sms_matches_def\<close>)
    with None show ?thesis by (simp add: load_sms_def)
  next
    case (Some sms)
    with s(1) list_all2_inD1[OF rows, of s] obtain p where p: "p \<in> set (ts_sms (sto d))" "sms_matches A keeper s p" by auto
    then have "?p p" by (simp add: sms_matches_def where_field_def)
    from first_some[OF law, of p ?p] p(1) this obtain q where "g_First (tb_sms DB) ?p d = Inr q"
      "q \<in> set (ts_sms (sto d))" "?p q" by auto
    with mine[of q] Some show ?thesis by (auto simp: load_sms_def sms_matches_def)
  qed
qed

lemma load_provisioned:
  assumes laws: "tenant_reads_law DB sto" "tenant_reads_total DB d" and prov: "provisioned A keeper specs (sto d)"
    and ids: "distinct (map bt_ID specs)" and s: "s \<in> set specs" "bt_ID s \<noteq> ''''"
  shows "\<exists>cfg. loadRuntimeConfig A keeper DB (bt_ID s) d = Inr cfg \<and> runtime_matches s cfg"
proof -
  let ?pt = "\<lambda>t. where_field (bt_ID s) (t_ID t)"
  let ?pe = "\<lambda>p. where_field (bt_ID s) (ep_TenantID p) \<and> ep_IsDefault p"
  have tl: "first_law (tb_tenants DB) (ts_tenants \<circ> sto)" "first_total (tb_tenants DB) d"
    and el: "first_law (tb_emails DB) (ts_emails \<circ> sto)" "first_total (tb_emails DB) d"
    using laws by (simp_all add: tenant_reads_law_def tenant_reads_total_def)
  have emails: "list_all2 (email_matches A keeper) specs (ts_emails (sto d))"
    using prov by (simp add: provisioned_def)
  from prov s obtain t0 where "t0 \<in> set (ts_tenants (sto d))" "t_ID t0 = bt_ID s"
    unfolding provisioned_def by force
  with first_some[OF tl, of t0 ?pt] s(2) obtain t where t: "g_First (tb_tenants DB) ?pt d = Inr t"
    "t \<in> set (ts_tenants (sto d))" "t_ID t = bt_ID s" by (auto simp: where_field_def)
  with prov s(1) have tm: "tenant_matches s t" unfolding provisioned_def by blast
  from list_all2_inD1[OF emails s(1)] obtain e0 where "e0 \<in> set (ts_emails (sto d))" "email_matches A keeper s e0" by blast
  with first_some[OF el, of e0 ?pe] obtain e where e: "g_First (tb_emails DB) ?pe d = Inr e"
    "e \<in> set (ts_emails (sto d))" "?pe e" by (auto simp: where_field_def email_matches_def)
  from list_all2_inD2[OF emails e(2)] obtain s' where s': "s' \<in> set specs" "email_matches A keeper s' e" by blast
  with e(3) s(2) have "bt_ID s' = bt_ID s" by (auto simp: email_matches_def where_field_def)
  with ids s' s(1) have em: "email_matches A keeper s e" by (auto simp: distinct_map dest: inj_onD)
  show ?thesis
    using t(1) e(1) tm em load_sms_provisioned[OF laws prov ids s]
    by (simp add: loadRuntimeConfig_def runtime_matches_def email_matches_def)
qed

lemma distinct_concat_unique:
  "distinct (concat (map f xs)) \<Longrightarrow> a \<in> set xs \<Longrightarrow> b \<in> set xs \<Longrightarrow> y \<in> set (f a) \<Longrightarrow> y \<in> set (f b) \<Longrightarrow> a = b"
  by (induction xs) auto

lemma provisioned_domains:
  assumes "provisioned A keeper specs st"
  shows "(i, h) \<in> (\<lambda>x. (td_TenantID x, td_Host x)) ` set (ts_domains st) \<longleftrightarrow>
    (\<exists>s \<in> set specs. i = bt_ID s \<and> h \<in> set (normalizeDomainHosts (bt_Domains s)))"
proof -
  have "(\<lambda>x. (td_TenantID x, td_Host x)) ` set (ts_domains st) =
      set (concat (map (\<lambda>s. map (Pair (bt_ID s)) (normalizeDomainHosts (bt_Domains s))) specs))"
    using arg_cong[OF conjunct1[OF assms[unfolded provisioned_def]], of set] by simp
  then show ?thesis by (simp only:) auto
qed

lemma direct_host_provisioned:
  assumes laws: "tenant_reads_law DB sto" "tenant_reads_total DB d" and prov: "provisioned A keeper specs (sto d)"
    and ids: "distinct (map bt_ID specs)" "\<forall>s \<in> set specs. bt_ID s \<noteq> ''''"
    and hosts: "distinct (concat (map (\<lambda>s. normalizeDomainHosts (bt_Domains s)) specs))"
    and s: "s \<in> set specs" "normalizeHost host \<in> set (normalizeDomainHosts (bt_Domains s))"
  shows "\<exists>cfg. direct_by_host A keeper DB host d = Inr cfg \<and> runtime_matches s cfg"
proof -
  let ?h = "normalizeHost host"
  let ?p = "\<lambda>x. where_field ?h (td_Host x)"
  have h: "?h \<noteq> ''''" using s(2) by (auto simp: normalizeDomainHosts_filter)
  have dl: "first_law (tb_domains DB) (ts_domains \<circ> sto)" "first_total (tb_domains DB) d"
    using laws by (simp_all add: tenant_reads_law_def tenant_reads_total_def)
  have "(bt_ID s, ?h) \<in> (\<lambda>x. (td_TenantID x, td_Host x)) ` set (ts_domains (sto d))"
    unfolding provisioned_domains[OF prov] using s by blast
  then obtain x0 where x0: "x0 \<in> set ((ts_domains \<circ> sto) d)" "?p x0" by (auto simp: where_field_def)
  obtain x where x: "g_First (tb_domains DB) ?p d = Inr x" "x \<in> set ((ts_domains \<circ> sto) d)" "?p x"
    by (rule first_some[of _ _ _ x0 ?p, OF dl x0])
  have "(td_TenantID x, ?h) \<in> (\<lambda>x. (td_TenantID x, td_Host x)) ` set (ts_domains (sto d))"
    using x(2,3) h by (auto simp: where_field_def)
  then obtain s' where s': "s' \<in> set specs" "td_TenantID x = bt_ID s'"
    "?h \<in> set (normalizeDomainHosts (bt_Domains s'))"
    unfolding provisioned_domains[OF prov] by blast
  have "s' = s" by (rule distinct_concat_unique[OF hosts s'(1) s(1) s'(3) s(2)])
  then have "direct_by_host A keeper DB host d = loadRuntimeConfig A keeper DB (bt_ID s) d"
    using x(1) h s'(2) by (simp add: direct_by_host_def Let_def)
  with load_provisioned[OF laws prov ids(1) s(1)] ids(2) s(1) show ?thesis by simp
qed

lemma prepare_ids:
  "(\<And>n. uuid n \<noteq> '''') \<Longrightarrow> prepareBootstrapTenants uuid n ss = (specs, n') \<Longrightarrow> \<forall>s \<in> set specs. bt_ID s \<noteq> ''''"
  by (induction ss arbitrary: n specs n') (auto simp: Let_def split: prod.splits if_splits)

lemma validate_hosts_distinct:
  "validateBootstrapDomains specs = Inr () \<Longrightarrow> distinct (concat (map (\<lambda>s. normalizeDomainHosts (bt_Domains s)) specs))"
  using validateTenantLoop_spec[of 0 specs Map.empty] by (simp add: validateBootstrapDomains_def)

lemma Bootstrap_Inr:
  assumes "Bootstrap A keeper uuid DB cfg w = (Inr (), w')"
    and "prepareBootstrapTenants uuid (bw_uuid w) (bc_Tenants cfg) = (specs, n)"
  obtains v where "validateBootstrapDomains specs = Inr ()"
    and "bootstrap_body A keeper uuid DB specs (w\<lparr>bw_uuid := n\<rparr>) = (Inr (), v)"
    and "w' = invalidateRegisteredRepositories v"
  using assms
  by (auto simp: Bootstrap_def Let_def dest!: Transaction_Inr split: if_splits sum.splits prod.splits)

subsection \<open>Properties\<close>

text \<open>\<open>validateBootstrapDomains\<close> accepts a configuration exactly when every tenant has a
  non-blank domain and no domain, compared trimmed and in lower case, occurs twice in the whole
  configuration.\<close>

lemma bootstrap_domains_exact:
  "validateBootstrapDomains specs = Inr () \<longleftrightarrow>
     list_all (\<lambda>s. list_ex (\<lambda>h. TrimSpace h \<noteq> '''') (bt_Domains s)) specs
     \<and> distinct (concat (map (\<lambda>s. filter (\<lambda>h. h \<noteq> '''') (map (\<lambda>h. ToLower (TrimSpace h)) (bt_Domains s))) specs))"
proof -
  have "validateBootstrapDomains specs = Inr () \<longleftrightarrow> is_ok (validateTenantLoop 0 specs Map.empty)"
    by (cases "validateTenantLoop 0 specs Map.empty") (simp_all add: validateBootstrapDomains_def)
  moreover have "normalizeDomainHosts hs = filter (\<lambda>h. h \<noteq> '''') (map (\<lambda>h. ToLower (TrimSpace h)) hs)" for hs
    unfolding normalizeDomainHosts_filter normalizeDomainHost_def ..
  moreover have "filter (\<lambda>h. h \<noteq> '''') (map (\<lambda>h. ToLower (TrimSpace h)) hs) \<noteq> [] \<longleftrightarrow> list_ex (\<lambda>h. TrimSpace h \<noteq> '''') hs" for hs
    by (induction hs) simp_all
  ultimately show ?thesis unfolding validateTenantLoop_spec by simp
qed

text \<open>C16. A bootstrap that fails changes neither the database nor any repository's caches,
  wherever in the sequence of resets, upserts and encryptions it failed.\<close>

theorem bootstrap_atomic:
  assumes "Bootstrap A keeper uuid DB cfg w = (Inl e, w')"
  shows "bw_db w' = bw_db w \<and> bw_repos w' = bw_repos w"
proof -
  obtain specs n where p: "prepareBootstrapTenants uuid (bw_uuid w) (bc_Tenants cfg) = (specs, n)" by fastforce
  let ?w = "w\<lparr>bw_uuid := n\<rparr>"
  obtain r v where t: "Transaction DB (bootstrap_body A keeper uuid DB specs) ?w = (r, v)" by fastforce
  show ?thesis
  proof (cases "w' = w \<or> w' = ?w")
    case False
    with assms p t have "r = Inl e" "w' = v"
      by (auto simp: Bootstrap_def Let_def split: if_splits sum.splits)
    with Transaction_Inl[OF _ keeps_repos_body] t show ?thesis by fastforce
  qed auto
qed


definition demo_aead :: aead where
  "demo_aead = \<lparr>aead_Seal = (\<lambda>k n p. rev p), aead_Open = (\<lambda>k n c. Some (rev c))\<rparr>"

definition demo_boot :: bootstrap_config where
  "demo_boot = \<lparr>bc_Tenants =
     [zero_tenant\<lparr>bt_ID := ''t1'', bt_Domains := [''a.org''],
        bt_EmailProfile := zero_email_profile\<lparr>bep_Username := ''u''\<rparr>\<rparr>]\<rparr>"

definition demo_world :: "tenant_store boot_world" where
  "demo_world = \<lparr>bw_db = empty_store, bw_random = replicate 24 (CHR ''r''), bw_uuid = 0,
     bw_repos = [NewRepository]\<rparr>"

lemma bootstrap_atomic_witness:
  "bw_db (snd (Bootstrap demo_aead \<lparr>sk_key = replicate 32 (CHR ''k'')\<rparr> (\<lambda>_. ''u'') store_db demo_boot
     (demo_world\<lparr>bw_random := replicate 20 (CHR ''r'')\<rparr>))) = empty_store
   \<and> \<not> is_ok (fst (Bootstrap demo_aead \<lparr>sk_key = replicate 32 (CHR ''k'')\<rparr> (\<lambda>_. ''u'') store_db demo_boot
     (demo_world\<lparr>bw_random := replicate 20 (CHR ''r'')\<rparr>)))"
  (is "bw_db (snd ?b) = _ \<and> _")
proof -
  have fail: "\<not> is_ok (fst ?b)" by code_simp
  then obtain e where "?b = (Inl e, snd ?b)" by (metis is_ok_simps(1) old.sum.exhaust prod.collapse)
  from bootstrap_atomic[OF this] fail show ?thesis by (simp add: demo_world_def)
qed


end
