(* ===== verification/Pinguin_Config.thy ===== *)
theory Pinguin_Config
  imports Tenant_Bootstrap
begin

text \<open>
  Reading the service configuration (\<open>internal/config/config.go\<close>): the expansion of environment
  placeholders (\<open>os.Expand\<close> included), the decoding of the \<open>tenants\<close> section, the
  normalisation of the decoded file and its validation. The YAML decoder is an argument; the
  environment is a map and the file system a function from paths to contents.
\<close>

subsection \<open>The configuration\<close>

record smtp_submission_relay_config =
  sr_Host :: string
  sr_Port :: int
  sr_Username :: string
  sr_Password :: string

record smtp_submission_settings =
  ss_Enabled :: bool
  ss_Hostname :: string
  ss_ListenAddr :: string
  ss_TLSListenAddr :: string
  ss_TLSCertPath :: string
  ss_TLSKeyPath :: string
  ss_PublicPort :: int
  ss_PublicSecurityMode :: string
  ss_DeliveryMode :: string
  ss_MaxMessageBytes :: int
  ss_MaxRecipients :: int
  ss_AllowInsecureAuth :: bool
  ss_Relay :: smtp_submission_relay_config

record smtp_forwarding_relay_config =
  fr_Host :: string
  fr_Port :: int
  fr_Username :: string
  fr_Password :: string

record smtp_forwarding_settings =
  sf_Enabled :: bool
  sf_Hostname :: string
  sf_ListenAddr :: string
  sf_MaxMessageBytes :: int
  sf_MaxRecipients :: int
  sf_Relay :: smtp_forwarding_relay_config

record config =
  cfg_DatabasePath :: string
  cfg_GRPCAuthToken :: string
  cfg_LogLevel :: string
  cfg_MaxRetries :: int
  cfg_RetryIntervalSec :: int
  cfg_MasterEncryptionKey :: string
  cfg_TenantConfigPath :: string
  cfg_TenantBootstrap :: bootstrap_config
  cfg_WebInterfaceEnabled :: bool
  cfg_HTTPListenAddr :: string
  cfg_HTTPAllowedOrigins :: "string list"
  cfg_HTTPTrustedProxies :: "string list"
  cfg_SMTPSubmission :: smtp_submission_settings
  cfg_SMTPForwarding :: smtp_forwarding_settings
  cfg_TAuthSigningKey :: string
  cfg_TAuthCookieName :: string
  cfg_SMTPUsername :: string
  cfg_SMTPPassword :: string
  cfg_SMTPHost :: string
  cfg_SMTPPort :: int
  cfg_FromEmail :: string
  cfg_TwilioAccountSID :: string
  cfg_TwilioAuthToken :: string
  cfg_TwilioFromNumber :: string
  cfg_ConnectionTimeoutSec :: int
  cfg_OperationTimeoutSec :: int

text \<open>The sections of the file. The two SMTP sections have the fields of the settings above.\<close>

record tauthSection =
  ta_SigningKey :: string
  ta_CookieName :: string

record serverSection =
  sv_DatabasePath :: string
  sv_GRPCAuthToken :: string
  sv_LogLevel :: string
  sv_MaxRetries :: int
  sv_RetryIntervalSec :: int
  sv_MasterEncryptionKey :: string
  sv_ConnectionTimeout :: int
  sv_OperationTimeout :: int
  sv_TAuth :: tauthSection

record webSection =
  wb_Enabled :: "bool option"
  wb_ListenAddr :: string
  wb_AllowedOrigins :: "string list"
  wb_TrustedProxies :: "string list"

type_synonym smtpSubmissionSection = smtp_submission_settings
type_synonym smtpForwardingSection = smtp_forwarding_settings

record tenantConfig =
  tc_ConfigPath :: string
  tc_Tenants :: "bootstrap_tenant list"

record fileConfig =
  fc_Server :: serverSection
  fc_Web :: webSection
  fc_SMTPSubmission :: smtpSubmissionSection
  fc_SMTPForwarding :: smtpForwardingSection
  fc_Tenants :: tenantConfig

subsection \<open>The tenants section\<close>

datatype yaml_kind = SequenceNode | MappingNode | OtherNode

fun firstUnknownYAMLMappingKey :: "string list \<Rightarrow> string list \<Rightarrow> string" where
  "firstUnknownYAMLMappingKey allowed (k # v # rest) =
     (let key = TrimSpace k in
      if key \<notin> set allowed then key else firstUnknownYAMLMappingKey allowed rest)"
| "firstUnknownYAMLMappingKey allowed _ = ''''"

definition tenants_UnmarshalYAML ::
  "(string list \<Rightarrow> bootstrap_tenant list result) \<Rightarrow> (string list \<Rightarrow> (string \<times> bootstrap_tenant list) result)
   \<Rightarrow> (yaml_kind \<times> string list) option \<Rightarrow> tenantConfig result" where
  "tenants_UnmarshalYAML decodeList decodeStruct node =
     (case node of
        None \<Rightarrow> Inr \<lparr>tc_ConfigPath = '''', tc_Tenants = []\<rparr>
      | Some (SequenceNode, content) \<Rightarrow>
          (case decodeList content of
             Inl err \<Rightarrow> Inl (Errorf ''configuration: parse tenants: '' err '''')
           | Inr tenants \<Rightarrow> Inr \<lparr>tc_ConfigPath = '''', tc_Tenants = tenants\<rparr>)
      | Some (MappingNode, content) \<Rightarrow>
          (let unknownKey = firstUnknownYAMLMappingKey [''configPath'', ''tenants''] content in
           if unknownKey \<noteq> '''' then Inl (ErrorsNew (''configuration: tenants.'' @ unknownKey @ '' is not supported''))
           else (case decodeStruct content of
                   Inl err \<Rightarrow> Inl (Errorf ''configuration: parse tenants: '' err '''')
                 | Inr (configPath, tenants) \<Rightarrow> Inr \<lparr>tc_ConfigPath = TrimSpace configPath, tc_Tenants = tenants\<rparr>))
      | Some (OtherNode, content) \<Rightarrow> Inl (ErrorsNew ''configuration: tenants must be a list''))"

subsection \<open>Environment placeholders\<close>

text \<open>
  \<open>os.Expand\<close> cuts a text into literal pieces and the names of variables, which its callback
  replaces; \<open>getShellName\<close> reads the name after a dollar sign and says how many bytes it took.
\<close>

datatype piece = Literal string | Variable string

definition isShellSpecialVar :: "char \<Rightarrow> bool" where
  "isShellSpecialVar c \<longleftrightarrow> c \<in> set ''*#$@!?-0123456789''"

definition isAlphaNum :: "char \<Rightarrow> bool" where
  "isAlphaNum c \<longleftrightarrow> (let n = (of_char c :: nat) in
     c = CHR ''_'' \<or> 48 \<le> n \<and> n \<le> 57 \<or> 97 \<le> n \<and> n \<le> 122 \<or> 65 \<le> n \<and> n \<le> 90)"

definition getShellName :: "string \<Rightarrow> string \<times> nat" where
  "getShellName s =
     (if s \<noteq> [] \<and> s ! 0 = CHR ''{'' then
        if 2 < length s \<and> isShellSpecialVar (s ! 1) \<and> s ! 2 = CHR ''}'' then ([s ! 1], 3)
        else (let name = takeWhile (\<lambda>c. c \<noteq> CHR ''}'') (tl s) in
              if length name = length (tl s) then ([], 1)
              else if name = [] then ([], 2)
              else (name, length name + 2))
      else if s \<noteq> [] \<and> isShellSpecialVar (s ! 0) then ([s ! 0], 1)
      else (let name = takeWhile isAlphaNum s in (name, length name)))"

function expand_pieces :: "string \<Rightarrow> piece list" where
  "expand_pieces [] = []"
| "expand_pieces (c # s) =
     (if c = CHR ''$'' \<and> s \<noteq> [] then
        (let (name, w) = getShellName s in
         (if name = [] \<and> 0 < w then [] else if name = [] then [Literal [c]] else [Variable name])
         @ expand_pieces (drop w s))
      else Literal [c] # expand_pieces s)"
  by pat_completeness auto
termination
  by (relation "measure length") auto

declare expand_pieces.simps(2) [simp del]

definition variables :: "piece list \<Rightarrow> string list" where
  "variables ps = concat (map (\<lambda>p. case p of Literal s \<Rightarrow> [] | Variable v \<Rightarrow> [v]) ps)"

definition substitute :: "(string \<rightharpoonup> string) \<Rightarrow> piece list \<Rightarrow> string" where
  "substitute env ps =
     concat (map (\<lambda>p. case p of Literal s \<Rightarrow> s | Variable v \<Rightarrow> (case env v of None \<Rightarrow> [] | Some x \<Rightarrow> x)) ps)"

fun missingLoop :: "(string \<rightharpoonup> string) \<Rightarrow> string set \<Rightarrow> string list \<Rightarrow> string list" where
  "missingLoop env seenMissing [] = []"
| "missingLoop env seenMissing (key # rest) =
     (if env key = None \<and> key \<notin> seenMissing then key # missingLoop env (insert key seenMissing) rest
      else missingLoop env seenMissing rest)"

definition ExpandConfigEnvironment :: "(string \<rightharpoonup> string) \<Rightarrow> string \<Rightarrow> string result" where
  "ExpandConfigEnvironment env contents =
     (let missing = missingLoop env {} (variables (expand_pieces contents));
          expanded = substitute env (expand_pieces contents) in
      if missing \<noteq> [] then
        Inl (ErrorsNew (''configuration: missing environment variables: '' @ Join (sort missing) '', ''))
      else Inr expanded)"

subsection \<open>Validation\<close>

fun normalizeStrings :: "string list \<Rightarrow> string list" where
  "normalizeStrings [] = []"
| "normalizeStrings (v # vs) =
     (let candidate = TrimSpace v in
      if candidate = '''' then normalizeStrings vs else candidate # normalizeStrings vs)"

definition normalizeSMTPDeliveryMode :: "string \<Rightarrow> string" where
  "normalizeSMTPDeliveryMode v =
     (let normalized = ToLower (TrimSpace v) in if normalized = '''' then ''upstream'' else normalized)"

definition requireString :: "string \<Rightarrow> string \<Rightarrow> string list" where
  "requireString v name = (if TrimSpace v = '''' then [''missing '' @ name] else [])"

definition requirePositive :: "int \<Rightarrow> string \<Rightarrow> string list" where
  "requirePositive v name = (if v \<le> 0 then [''missing '' @ name] else [])"

definition requirePositiveInt64 :: "int \<Rightarrow> string \<Rightarrow> string list" where
  "requirePositiveInt64 v name = (if v \<le> 0 then [''missing '' @ name] else [])"

fun countNonEmptyStrings :: "string list \<Rightarrow> nat" where
  "countNonEmptyStrings [] = 0"
| "countNonEmptyStrings (v # vs) =
     (if TrimSpace v = '''' then countNonEmptyStrings vs else Suc (countNonEmptyStrings vs))"

definition serverErrors :: "config \<Rightarrow> string list" where
  "serverErrors cfg =
     requireString (cfg_DatabasePath cfg) ''server.databasePath''
   @ requireString (cfg_GRPCAuthToken cfg) ''server.grpcAuthToken''
   @ requireString (cfg_LogLevel cfg) ''server.logLevel''
   @ requirePositive (cfg_MaxRetries cfg) ''server.maxRetries''
   @ requirePositive (cfg_RetryIntervalSec cfg) ''server.retryIntervalSec''
   @ requireString (cfg_MasterEncryptionKey cfg) ''server.masterEncryptionKey''
   @ (if length (bc_Tenants (cfg_TenantBootstrap cfg)) = 0
      then requireString (cfg_TenantConfigPath cfg) ''tenants.configPath'' else [])
   @ requirePositive (cfg_ConnectionTimeoutSec cfg) ''server.connectionTimeoutSec''
   @ requirePositive (cfg_OperationTimeoutSec cfg) ''server.operationTimeoutSec''
   @ (if cfg_WebInterfaceEnabled cfg
      then requireString (cfg_HTTPListenAddr cfg) ''web.listenAddr''
           @ requireString (cfg_TAuthSigningKey cfg) ''server.tauth.signingKey''
      else [])"

definition submissionErrors :: "smtp_submission_settings \<Rightarrow> string list" where
  "submissionErrors sub =
     (if ss_Enabled sub then
        requireString (ss_Hostname sub) ''smtpSubmission.hostname''
      @ (if TrimSpace (ss_ListenAddr sub) = '''' \<and> TrimSpace (ss_TLSListenAddr sub) = ''''
         then [''missing smtpSubmission.listenAddr or smtpSubmission.tlsListenAddr''] else [])
      @ requirePositiveInt64 (ss_MaxMessageBytes sub) ''smtpSubmission.maxMessageBytes''
      @ requirePositive (ss_MaxRecipients sub) ''smtpSubmission.maxRecipients''
      @ (let deliveryMode = normalizeSMTPDeliveryMode (ss_DeliveryMode sub) in
         if deliveryMode = ''upstream'' then
           requireString (sr_Host (ss_Relay sub)) ''smtpSubmission.relay.host''
         @ requirePositive (sr_Port (ss_Relay sub)) ''smtpSubmission.relay.port''
         @ requireString (sr_Username (ss_Relay sub)) ''smtpSubmission.relay.username''
         @ requireString (sr_Password (ss_Relay sub)) ''smtpSubmission.relay.password''
         else if deliveryMode = ''direct'' then []
         else [''smtpSubmission.deliveryMode must be upstream or direct''])
      @ (if ss_PublicPort sub < 0 then [''smtpSubmission.publicPort must be positive''] else [])
      @ (if ss_PublicSecurityMode sub \<noteq> '''' \<and> ss_PublicSecurityMode sub \<noteq> ''starttls''
            \<and> ss_PublicSecurityMode sub \<noteq> ''ssl''
         then [''smtpSubmission.publicSecurityMode must be starttls or ssl''] else [])
      @ (if \<not> ss_AllowInsecureAuth sub
         then requireString (ss_TLSCertPath sub) ''smtpSubmission.tlsCertPath''
              @ requireString (ss_TLSKeyPath sub) ''smtpSubmission.tlsKeyPath''
         else [])
      else [])"

definition forwardingErrors :: "smtp_forwarding_settings \<Rightarrow> string list" where
  "forwardingErrors fwd =
     (if sf_Enabled fwd then
        requireString (sf_Hostname fwd) ''smtpForwarding.hostname''
      @ requireString (sf_ListenAddr fwd) ''smtpForwarding.listenAddr''
      @ requirePositiveInt64 (sf_MaxMessageBytes fwd) ''smtpForwarding.maxMessageBytes''
      @ requirePositive (sf_MaxRecipients fwd) ''smtpForwarding.maxRecipients''
      @ requireString (fr_Host (sf_Relay fwd)) ''smtpForwarding.relay.host''
      @ requirePositive (fr_Port (sf_Relay fwd)) ''smtpForwarding.relay.port''
      @ requireString (fr_Username (sf_Relay fwd)) ''smtpForwarding.relay.username''
      @ requireString (fr_Password (sf_Relay fwd)) ''smtpForwarding.relay.password''
      else [])"

fun tenantErrors :: "nat \<Rightarrow> bootstrap_tenant list \<Rightarrow> string list" where
  "tenantErrors idx [] = []"
| "tenantErrors idx (tenantSpec # rest) =
     (let tenantPrefix = ''tenants['' @ Itoa (int idx) @ '']'' in
      requireString (TrimSpace (bt_DisplayName tenantSpec)) (tenantPrefix @ ''.displayName'')
    @ (if countNonEmptyStrings (bt_Domains tenantSpec) = 0 then [''missing '' @ tenantPrefix @ ''.domains''] else [])
    @ tenantErrors (Suc idx) rest)"

definition validateConfig :: "config \<Rightarrow> unit result" where
  "validateConfig cfg =
     (let errs = serverErrors cfg @ submissionErrors (cfg_SMTPSubmission cfg) @ forwardingErrors (cfg_SMTPForwarding cfg)
                 @ tenantErrors 0 (bc_Tenants (cfg_TenantBootstrap cfg)) in
      if 0 < length errs then Inl (ErrorsNew (''configuration errors: '' @ Join errs '', '')) else Inr ())"

subsection \<open>Loading\<close>

definition defaultConfigPath :: string where
  "defaultConfigPath = ''configs/config.yml''"

definition defaultConfigPaths :: "string list" where
  "defaultConfigPaths = [defaultConfigPath, ''/config/config.yml'']"

definition configurationOf :: "fileConfig \<Rightarrow> config" where
  "configurationOf fileCfg =
     (let server = fc_Server fileCfg; web = fc_Web fileCfg; sub = fc_SMTPSubmission fileCfg; fwd = fc_SMTPForwarding fileCfg;
          webEnabled = (case wb_Enabled web of None \<Rightarrow> True | Some b \<Rightarrow> b) in
      \<lparr>cfg_DatabasePath = TrimSpace (sv_DatabasePath server),
       cfg_GRPCAuthToken = TrimSpace (sv_GRPCAuthToken server),
       cfg_LogLevel = TrimSpace (sv_LogLevel server),
       cfg_MaxRetries = sv_MaxRetries server,
       cfg_RetryIntervalSec = sv_RetryIntervalSec server,
       cfg_MasterEncryptionKey = TrimSpace (sv_MasterEncryptionKey server),
       cfg_TenantConfigPath = TrimSpace (tc_ConfigPath (fc_Tenants fileCfg)),
       cfg_TenantBootstrap = \<lparr>bc_Tenants = tc_Tenants (fc_Tenants fileCfg)\<rparr>,
       cfg_WebInterfaceEnabled = webEnabled,
       cfg_HTTPListenAddr = TrimSpace (wb_ListenAddr web),
       cfg_HTTPAllowedOrigins = normalizeStrings (wb_AllowedOrigins web),
       cfg_HTTPTrustedProxies = normalizeStrings (wb_TrustedProxies web),
       cfg_SMTPSubmission =
         \<lparr>ss_Enabled = ss_Enabled sub,
          ss_Hostname = TrimSpace (ss_Hostname sub),
          ss_ListenAddr = TrimSpace (ss_ListenAddr sub),
          ss_TLSListenAddr = TrimSpace (ss_TLSListenAddr sub),
          ss_TLSCertPath = TrimSpace (ss_TLSCertPath sub),
          ss_TLSKeyPath = TrimSpace (ss_TLSKeyPath sub),
          ss_PublicPort = ss_PublicPort sub,
          ss_PublicSecurityMode = ToLower (TrimSpace (ss_PublicSecurityMode sub)),
          ss_DeliveryMode = normalizeSMTPDeliveryMode (ss_DeliveryMode sub),
          ss_MaxMessageBytes = ss_MaxMessageBytes sub,
          ss_MaxRecipients = ss_MaxRecipients sub,
          ss_AllowInsecureAuth = ss_AllowInsecureAuth sub,
          ss_Relay = \<lparr>sr_Host = TrimSpace (sr_Host (ss_Relay sub)), sr_Port = sr_Port (ss_Relay sub),
                      sr_Username = TrimSpace (sr_Username (ss_Relay sub)),
                      sr_Password = TrimSpace (sr_Password (ss_Relay sub))\<rparr>\<rparr>,
       cfg_SMTPForwarding =
         \<lparr>sf_Enabled = sf_Enabled fwd,
          sf_Hostname = TrimSpace (sf_Hostname fwd),
          sf_ListenAddr = TrimSpace (sf_ListenAddr fwd),
          sf_MaxMessageBytes = sf_MaxMessageBytes fwd,
          sf_MaxRecipients = sf_MaxRecipients fwd,
          sf_Relay = \<lparr>fr_Host = TrimSpace (fr_Host (sf_Relay fwd)), fr_Port = fr_Port (sf_Relay fwd),
                      fr_Username = TrimSpace (fr_Username (sf_Relay fwd)),
                      fr_Password = TrimSpace (fr_Password (sf_Relay fwd))\<rparr>\<rparr>,
       cfg_TAuthSigningKey = TrimSpace (ta_SigningKey (sv_TAuth server)),
       cfg_TAuthCookieName = TrimSpace (ta_CookieName (sv_TAuth server)),
       cfg_SMTPUsername = '''', cfg_SMTPPassword = '''', cfg_SMTPHost = '''', cfg_SMTPPort = 0, cfg_FromEmail = '''',
       cfg_TwilioAccountSID = '''', cfg_TwilioAuthToken = '''', cfg_TwilioFromNumber = '''',
       cfg_ConnectionTimeoutSec = sv_ConnectionTimeout server,
       cfg_OperationTimeoutSec = sv_OperationTimeout server\<rparr>)"

definition webDefaults :: "config \<Rightarrow> config" where
  "webDefaults cfg =
     (if cfg_WebInterfaceEnabled cfg then
        if cfg_TAuthCookieName cfg = '''' then cfg\<lparr>cfg_TAuthCookieName := ''app_session''\<rparr> else cfg
      else cfg\<lparr>cfg_HTTPAllowedOrigins := [], cfg_HTTPTrustedProxies := [],
               cfg_TAuthSigningKey := '''', cfg_TAuthCookieName := ''''\<rparr>)"

definition defaultConfigFilePath :: "(string \<Rightarrow> bool) \<Rightarrow> string" where
  "defaultConfigFilePath exists =
     (case find exists defaultConfigPaths of Some configPath \<Rightarrow> configPath | None \<Rightarrow> defaultConfigPath)"

definition loadConfigFromPath ::
  "(string \<Rightarrow> string result) \<Rightarrow> (string \<rightharpoonup> string) \<Rightarrow> (string \<Rightarrow> fileConfig result) \<Rightarrow> string \<Rightarrow> config result" where
  "loadConfigFromPath readFile env decodeYAML configPath =
     (case readFile configPath of
        Inl err \<Rightarrow> Inl (Errorf (''configuration: read '' @ configPath @ '': '') err '''')
      | Inr rawContents \<Rightarrow>
     (case ExpandConfigEnvironment env rawContents of
        Inl expandErr \<Rightarrow> Inl expandErr
      | Inr expanded \<Rightarrow>
     (case decodeYAML expanded of
        Inl err \<Rightarrow> Inl (Errorf ''configuration: parse yaml: '' err '''')
      | Inr fileCfg \<Rightarrow>
     (let configuration = webDefaults (configurationOf fileCfg) in
      case validateConfig configuration of
        Inl err \<Rightarrow> Inl err
      | Inr _ \<Rightarrow> Inr configuration))))"

definition LoadConfig ::
  "(string \<Rightarrow> bool) \<Rightarrow> (string \<Rightarrow> string result) \<Rightarrow> (string \<rightharpoonup> string) \<Rightarrow> (string \<Rightarrow> fileConfig result) \<Rightarrow> config result" where
  "LoadConfig exists readFile env decodeYAML =
     loadConfigFromPath readFile env decodeYAML (defaultConfigFilePath exists)"

definition TwilioConfigured :: "config \<Rightarrow> bool" where
  "TwilioConfigured cfg \<longleftrightarrow> cfg_TwilioAccountSID cfg \<noteq> '''' \<and> cfg_TwilioAuthToken cfg \<noteq> '''' \<and> cfg_TwilioFromNumber cfg \<noteq> ''''"

subsection \<open>Expansion\<close>

lemma missingLoop_dedup: "missingLoop env seen vs = dedup_seen seen (filter (\<lambda>v. env v = None) vs)"
  by (induction env seen vs rule: missingLoop.induct) auto

lemma missingLoop_spec:
  "set (missingLoop env {} vs) = {v \<in> set vs. env v = None}" "distinct (missingLoop env {} vs)"
  by (auto simp: missingLoop_dedup set_dedup_seen distinct_dedup_seen)

lemma expand_pieces_plain: "CHR ''$'' \<notin> set s \<Longrightarrow> expand_pieces s = map (\<lambda>c. Literal [c]) s"
  by (induction s) (auto simp: expand_pieces.simps(2))

lemma expand_pieces_append_plain:
  "CHR ''$'' \<notin> set s \<Longrightarrow> expand_pieces (s @ t) = map (\<lambda>c. Literal [c]) s @ expand_pieces t"
  by (induction s) (auto simp: expand_pieces.simps(2))

lemma substitute_simps [simp]:
  "substitute env [] = []"
  "substitute env (Literal s # ps) = s @ substitute env ps"
  "substitute env (Variable v # ps) = (case env v of None \<Rightarrow> [] | Some x \<Rightarrow> x) @ substitute env ps"
  "substitute env (ps @ qs) = substitute env ps @ substitute env qs"
  by (simp_all add: substitute_def)

lemma substitute_literals [simp]: "substitute env (map (\<lambda>c. Literal [c]) s) = s"
  by (induction s) simp_all

lemma variables_simps [simp]:
  "variables [] = []"
  "variables (Literal s # ps) = variables ps"
  "variables (Variable v # ps) = v # variables ps"
  "variables (ps @ qs) = variables ps @ variables qs"
  by (simp_all add: variables_def)

lemma variables_literals [simp]: "variables (map (\<lambda>c. Literal [c]) s) = []"
  by (induction s) simp_all

text \<open>A placeholder in braces is read up to its closing brace.\<close>

lemma getShellName_braces:
  assumes "name \<noteq> []" "CHR ''}'' \<notin> set name" "list_all isAlphaNum name"
  shows "getShellName (CHR ''{'' # name @ CHR ''}'' # rest) = (name, length name + 2)"
proof -
  have tw: "takeWhile (\<lambda>c. c \<noteq> CHR ''}'') (name @ CHR ''}'' # rest) = name"
    using assms(2) by (induction name) auto
  obtain c cs where name: "name = c # cs" using assms(1) by (cases name) auto
  show ?thesis
  proof (cases cs)
    case Nil
    with name tw assms(2) show ?thesis by (simp add: getShellName_def)
  next
    case (Cons d ds)
    then have "(CHR ''{'' # name @ CHR ''}'' # rest) ! 2 = d" "d \<noteq> CHR ''}''"
      using name assms(2) by auto
    then show ?thesis
      using tw name by (simp add: getShellName_def Let_def)
  qed
qed

lemma expand_pieces_placeholder:
  assumes "name \<noteq> []" "list_all isAlphaNum name"
  shows "expand_pieces (''${'' @ name @ ''}'' @ rest) = Variable name # expand_pieces rest"
proof -
  have "\<not> isAlphaNum (CHR ''}'')" by (simp add: isAlphaNum_def)
  with assms(2) have b: "CHR ''}'' \<notin> set name" by (auto simp: list_all_iff)
  show ?thesis
    using getShellName_braces[OF assms(1) b assms(2), of rest] assms(1)
    by (simp add: expand_pieces.simps(2))
qed

text \<open>C39. \<open>ExpandConfigEnvironment\<close> fails exactly when some variable named in the text is not
  set, its message then lists every missing variable once in alphabetical order; otherwise each
  placeholder is replaced by the value of its variable and every other piece is kept.\<close>

theorem expand_environment_spec:
  "ExpandConfigEnvironment env s =
     (let missing = sorted_list_of_set {v. v \<in> set (variables (expand_pieces s)) \<and> env v = None} in
      if missing = [] then Inr (substitute env (expand_pieces s))
      else Inl (ErrorsNew (''configuration: missing environment variables: '' @ Join missing '', '')))"
proof -
  let ?m = "missingLoop env {} (variables (expand_pieces s))"
  have "sort ?m = sorted_list_of_set (set ?m)"
    by (simp add: missingLoop_spec(2) sorted_list_of_set_sort_remdups distinct_remdups_id)
  then have m: "sorted_list_of_set {v \<in> set (variables (expand_pieces s)). env v = None} = sort ?m"
    by (simp only: missingLoop_spec(1))
  have "sort ?m = [] \<longleftrightarrow> ?m = []" by (metis set_empty set_sort)
  then show ?thesis by (simp add: ExpandConfigEnvironment_def Let_def m)
qed

text \<open>A placeholder in braces between two texts without a dollar sign is replaced by the
  value of its variable, and only it is.\<close>

lemma expand_placeholder:
  assumes "CHR ''$'' \<notin> set before" "CHR ''$'' \<notin> set after" "name \<noteq> []" "list_all isAlphaNum name" "env name = Some x"
  shows "ExpandConfigEnvironment env (before @ ''${'' @ name @ ''}'' @ after) = Inr (before @ x @ after)"
proof -
  have "expand_pieces (before @ ''${'' @ name @ ''}'' @ after) =
      map (\<lambda>c. Literal [c]) before @ Variable name # map (\<lambda>c. Literal [c]) after"
    unfolding expand_pieces_append_plain[OF assms(1)] expand_pieces_placeholder[OF assms(3,4)]
      expand_pieces_plain[OF assms(2)] ..
  with assms(5) show ?thesis unfolding ExpandConfigEnvironment_def by simp
qed

subsection \<open>What a valid configuration is\<close>

lemma require_eq_Nil [simp]:
  "requireString v n = [] \<longleftrightarrow> TrimSpace v \<noteq> ''''"
  "requirePositive p n = [] \<longleftrightarrow> 0 < p"
  "requirePositiveInt64 p n = [] \<longleftrightarrow> 0 < p"
  by (auto simp: requireString_def requirePositive_def requirePositiveInt64_def)

lemma countNonEmptyStrings_0: "countNonEmptyStrings vs = 0 \<longleftrightarrow> list_all (\<lambda>v. TrimSpace v = '''') vs"
  by (induction vs) auto

lemma tenantErrors_Nil:
  "tenantErrors idx ts = [] \<longleftrightarrow>
     list_all (\<lambda>t. TrimSpace (bt_DisplayName t) \<noteq> '''' \<and> list_ex (\<lambda>d. TrimSpace d \<noteq> '''') (bt_Domains t)) ts"
proof (induction idx ts rule: tenantErrors.induct)
  case (2 idx t ts)
  have "(countNonEmptyStrings (bt_Domains t) = 0) \<longleftrightarrow> \<not> list_ex (\<lambda>d. TrimSpace d \<noteq> '''') (bt_Domains t)"
    by (simp add: countNonEmptyStrings_0 list_all_iff list_ex_iff)
  with 2 show ?case by (simp add: Let_def)
qed simp

definition blank :: "string \<Rightarrow> bool" where
  "blank s \<longleftrightarrow> TrimSpace s = ''''"

definition valid_submission :: "smtp_submission_settings \<Rightarrow> bool" where
  "valid_submission s \<longleftrightarrow>
     \<not> blank (ss_Hostname s) \<and> (\<not> blank (ss_ListenAddr s) \<or> \<not> blank (ss_TLSListenAddr s))
   \<and> 0 < ss_MaxMessageBytes s \<and> 0 < ss_MaxRecipients s \<and> 0 \<le> ss_PublicPort s
   \<and> ss_PublicSecurityMode s \<in> {'''', ''starttls'', ''ssl''}
   \<and> (normalizeSMTPDeliveryMode (ss_DeliveryMode s) = ''direct''
      \<or> normalizeSMTPDeliveryMode (ss_DeliveryMode s) = ''upstream''
        \<and> \<not> blank (sr_Host (ss_Relay s)) \<and> 0 < sr_Port (ss_Relay s)
        \<and> \<not> blank (sr_Username (ss_Relay s)) \<and> \<not> blank (sr_Password (ss_Relay s)))
   \<and> (ss_AllowInsecureAuth s \<or> \<not> blank (ss_TLSCertPath s) \<and> \<not> blank (ss_TLSKeyPath s))"

definition valid_forwarding :: "smtp_forwarding_settings \<Rightarrow> bool" where
  "valid_forwarding f \<longleftrightarrow>
     \<not> blank (sf_Hostname f) \<and> \<not> blank (sf_ListenAddr f) \<and> 0 < sf_MaxMessageBytes f \<and> 0 < sf_MaxRecipients f
   \<and> \<not> blank (fr_Host (sf_Relay f)) \<and> 0 < fr_Port (sf_Relay f)
   \<and> \<not> blank (fr_Username (sf_Relay f)) \<and> \<not> blank (fr_Password (sf_Relay f))"

definition valid_server :: "config \<Rightarrow> bool" where
  "valid_server c \<longleftrightarrow>
     \<not> blank (cfg_DatabasePath c) \<and> \<not> blank (cfg_GRPCAuthToken c) \<and> \<not> blank (cfg_LogLevel c)
   \<and> \<not> blank (cfg_MasterEncryptionKey c) \<and> 0 < cfg_MaxRetries c \<and> 0 < cfg_RetryIntervalSec c
   \<and> 0 < cfg_ConnectionTimeoutSec c \<and> 0 < cfg_OperationTimeoutSec c
   \<and> (bc_Tenants (cfg_TenantBootstrap c) \<noteq> [] \<or> \<not> blank (cfg_TenantConfigPath c))
   \<and> (\<not> cfg_WebInterfaceEnabled c \<or> \<not> blank (cfg_HTTPListenAddr c) \<and> \<not> blank (cfg_TAuthSigningKey c))
   \<and> list_all (\<lambda>t. \<not> blank (bt_DisplayName t) \<and> list_ex (\<lambda>d. \<not> blank d) (bt_Domains t)) (bc_Tenants (cfg_TenantBootstrap c))"

lemma submissionErrors_Nil: "submissionErrors s = [] \<longleftrightarrow> \<not> ss_Enabled s \<or> valid_submission s"
  unfolding submissionErrors_def valid_submission_def blank_def Let_def
  by (cases "normalizeSMTPDeliveryMode (ss_DeliveryMode s) = ''upstream''";
      cases "normalizeSMTPDeliveryMode (ss_DeliveryMode s) = ''direct''") auto

lemma forwardingErrors_Nil: "forwardingErrors f = [] \<longleftrightarrow> \<not> sf_Enabled f \<or> valid_forwarding f"
  by (auto simp: forwardingErrors_def valid_forwarding_def blank_def)

lemma validateConfig_ok:
  "validateConfig c = Inr () \<longleftrightarrow> valid_server c
     \<and> (\<not> ss_Enabled (cfg_SMTPSubmission c) \<or> valid_submission (cfg_SMTPSubmission c))
     \<and> (\<not> sf_Enabled (cfg_SMTPForwarding c) \<or> valid_forwarding (cfg_SMTPForwarding c))"
proof -
  have "serverErrors c = [] \<and> tenantErrors 0 (bc_Tenants (cfg_TenantBootstrap c)) = [] \<longleftrightarrow> valid_server c"
    unfolding serverErrors_def valid_server_def tenantErrors_Nil blank_def by auto
  then show ?thesis
    unfolding validateConfig_def submissionErrors_Nil[symmetric] forwardingErrors_Nil[symmetric] Let_def by auto
qed


subsection \<open>What a loaded configuration is\<close>

definition normalized_config :: "config \<Rightarrow> bool" where
  "normalized_config c \<longleftrightarrow>
     trimmed (cfg_DatabasePath c) \<and> trimmed (cfg_GRPCAuthToken c) \<and> trimmed (cfg_MasterEncryptionKey c)
   \<and> trimmed (cfg_HTTPListenAddr c) \<and> trimmed (cfg_TAuthSigningKey c) \<and> trimmed (cfg_TAuthCookieName c)
   \<and> list_all (\<lambda>o'. trimmed o' \<and> o' \<noteq> '''') (cfg_HTTPAllowedOrigins c)
   \<and> list_all (\<lambda>p. trimmed p \<and> p \<noteq> '''') (cfg_HTTPTrustedProxies c)
   \<and> ss_DeliveryMode (cfg_SMTPSubmission c) \<noteq> ''''
   \<and> (if cfg_WebInterfaceEnabled c then cfg_TAuthCookieName c \<noteq> ''''
      else cfg_HTTPAllowedOrigins c = [] \<and> cfg_HTTPTrustedProxies c = [] \<and> cfg_TAuthSigningKey c = '''' \<and> cfg_TAuthCookieName c = '''')"

lemma normalizeStrings_trimmed: "list_all (\<lambda>s. trimmed s \<and> s \<noteq> '''') (normalizeStrings vs)"
  by (induction vs) (auto simp: Let_def)

lemma deliveryMode_nonempty: "normalizeSMTPDeliveryMode v \<noteq> ''''"
  by (simp add: normalizeSMTPDeliveryMode_def Let_def)

lemma trimmed_app_session: "trimmed ''app_session''"
  by (rule trimmed_no_space_bytes) (simp add: space_bytes_def space_runes_def)

lemma webDefaults_normalized: "normalized_config (webDefaults (configurationOf f))"
  unfolding normalized_config_def webDefaults_def
  by (simp add: configurationOf_def Let_def normalizeStrings_trimmed deliveryMode_nonempty trimmed_app_session)

lemma loadConfig_InrE:
  assumes "loadConfigFromPath rf env dec path = Inr c"
  obtains f where "c = webDefaults (configurationOf f)" "validateConfig c = Inr ()"
  using assms by (auto simp: loadConfigFromPath_def Let_def split: sum.splits)


definition demo_file :: fileConfig where
  "demo_file =
     \<lparr>fc_Server = \<lparr>sv_DatabasePath = '' db'', sv_GRPCAuthToken = ''t'', sv_LogLevel = ''INFO'', sv_MaxRetries = 3,
        sv_RetryIntervalSec = 4, sv_MasterEncryptionKey = ''k'', sv_ConnectionTimeout = 5, sv_OperationTimeout = 6,
        sv_TAuth = \<lparr>ta_SigningKey = ''s'', ta_CookieName = ''''\<rparr>\<rparr>,
      fc_Web = \<lparr>wb_Enabled = Some False, wb_ListenAddr = '''', wb_AllowedOrigins = [''o''], wb_TrustedProxies = []\<rparr>,
      fc_SMTPSubmission = \<lparr>ss_Enabled = False, ss_Hostname = '''', ss_ListenAddr = '''', ss_TLSListenAddr = '''', ss_TLSCertPath = '''',
        ss_TLSKeyPath = '''', ss_PublicPort = 0, ss_PublicSecurityMode = '''', ss_DeliveryMode = '''', ss_MaxMessageBytes = 0,
        ss_MaxRecipients = 0, ss_AllowInsecureAuth = False, ss_Relay = \<lparr>sr_Host = '''', sr_Port = 0, sr_Username = '''', sr_Password = ''''\<rparr>\<rparr>,
      fc_SMTPForwarding = \<lparr>sf_Enabled = False, sf_Hostname = '''', sf_ListenAddr = '''', sf_MaxMessageBytes = 0, sf_MaxRecipients = 0,
        sf_Relay = \<lparr>fr_Host = '''', fr_Port = 0, fr_Username = '''', fr_Password = ''''\<rparr>\<rparr>,
      fc_Tenants = \<lparr>tc_ConfigPath = ''t.yml'', tc_Tenants = []\<rparr>\<rparr>"

lemma demo_file_loads:
  "LoadConfig (\<lambda>p. False) (\<lambda>p. Inr ''x'') Map.empty (\<lambda>s. Inr demo_file) = Inr (webDefaults (configurationOf demo_file))"
proof -
  have "validateConfig (webDefaults (configurationOf demo_file)) = Inr ()" by code_simp
  moreover have "ExpandConfigEnvironment Map.empty ''x'' = Inr ''x''"
    by (simp add: ExpandConfigEnvironment_def expand_pieces_plain)
  ultimately show ?thesis by (simp add: LoadConfig_def loadConfigFromPath_def Let_def)
qed


end
