(* ===== verification/Email_Message.thy ===== *)
theory Email_Message
  imports Smtp_Client Go_Base64 Notification_Model Pinguin_Config
begin

text \<open>
  The e-mail and SMS senders (\<open>internal/service/email_service.go\<close>, \<open>sms_service.go\<close>): the MIME
  message, the SMTP dialogue that sends it and the Twilio request. The boundary of a multipart
  message comes from the clock, whose reading is an argument. The HTTP client is an argument that
  maps a request to a status and a body; \<open>newRequest\<close> is \<open>http.NewRequestWithContext\<close>, which fails on
  a malformed URL.
\<close>

abbreviation CRLF :: string where
  "CRLF \<equiv> [CHR 0x0D, CHR 0x0A]"

abbreviation DQ :: string where
  "DQ \<equiv> [CHR 0x22]"

subsection \<open>The message\<close>

function chunkLoop :: "string \<Rightarrow> string" where
  "chunkLoop encoded = (if encoded = [] then [] else take 76 encoded @ CRLF @ chunkLoop (drop 76 encoded))"
  by pat_completeness auto
termination
  by (relation "measure length") auto

declare chunkLoop.simps [simp del]

definition encodeBase64Chunked :: "bytes \<Rightarrow> string" where
  "encodeBase64Chunked data = (if length data = 0 then [] else chunkLoop (StdEncodeToString data))"

text \<open>
  Ranging over a string decodes UTF-8; a byte that is not part of a valid sequence becomes the
  replacement character U+FFFD, which \<open>WriteRune\<close> writes as its three bytes.
\<close>

function sanitizeLoop :: "string \<Rightarrow> string" where
  "sanitizeLoop s =
     (case s of
        [] \<Rightarrow> []
      | c # _ \<Rightarrow>
          (let w = rune_width s; n = (of_char c :: nat);
               rest = sanitizeLoop (drop w s) in
           if w = 1 \<and> (n < 32 \<or> n = 127) then rest
           else if w = 1 \<and> (c = CHR 0x22 \<or> c = CHR 0x5C) then rest
           else if w = 1 \<and> 128 \<le> n then [CHR 0xEF, CHR 0xBF, CHR 0xBD] @ rest
           else take w s @ rest))"
  by pat_completeness auto
termination
proof (relation "measure length", goal_cases)
  case 1
  then show ?case by simp
next
  case (2 s c t w n)
  then show ?case using rune_width_pos[of s] by simp
qed

declare sanitizeLoop.simps [simp del]

definition sanitizeFilename :: "string \<Rightarrow> string" where
  "sanitizeFilename filename =
     (let t = TrimSpace filename in
      if t = '''' then ''attachment''
      else (let sanitized = TrimSpace (sanitizeLoop t) in
            if sanitized = '''' then ''attachment'' else sanitized))"

definition attachmentPart :: "string \<Rightarrow> email_attachment \<Rightarrow> string" where
  "attachmentPart boundary a =
     ''--'' @ boundary @ CRLF
   @ ''Content-Type: '' @ (if ea_ContentType a = '''' then ''application/octet-stream'' else ea_ContentType a) @ CRLF
   @ ''Content-Transfer-Encoding: base64'' @ CRLF
   @ ''Content-Disposition: attachment; filename='' @ DQ @ sanitizeFilename (ea_Filename a) @ DQ @ CRLF
   @ CRLF
   @ encodeBase64Chunked (ea_Data a)
   @ CRLF"

definition buildEmailMessage ::
  "time \<Rightarrow> string \<Rightarrow> string \<Rightarrow> string \<Rightarrow> string \<Rightarrow> email_attachment list \<Rightarrow> string" where
  "buildEmailMessage unixNano fromAddress toAddress subject body attachments =
     ''From: '' @ fromAddress @ CRLF
   @ ''To: '' @ toAddress @ CRLF
   @ ''Subject: '' @ subject @ CRLF
   @ ''MIME-Version: 1.0'' @ CRLF
   @ (if length attachments = 0 then
        ''Content-Type: text/plain; charset='' @ DQ @ ''utf-8'' @ DQ @ CRLF @ CRLF @ body
      else
        (let boundary = ''PinguinBoundary-'' @ Itoa unixNano in
         ''Content-Type: multipart/mixed; boundary='' @ DQ @ boundary @ DQ @ CRLF @ CRLF
       @ ''--'' @ boundary @ CRLF
       @ ''Content-Type: text/plain; charset='' @ DQ @ ''utf-8'' @ DQ @ CRLF
       @ ''Content-Transfer-Encoding: 7bit'' @ CRLF @ CRLF
       @ body @ CRLF
       @ concat (map (attachmentPart boundary) attachments)
       @ ''--'' @ boundary @ ''--'' @ CRLF))"

subsection \<open>Sending e-mail\<close>

record smtp_config =
  smtp_Host :: string
  smtp_Port :: string
  smtp_Username :: string
  smtp_Password :: string
  smtp_FromAddress :: string
  smtp_Timeouts :: config

definition writeMessage :: "'w smtp_api \<Rightarrow> bytes \<Rightarrow> ('w, unit) io" where
  "writeMessage C rawMessage w =
     (case sa_call C (CWrite rawMessage) w of
        (Inl writeError, w') \<Rightarrow> (Inl (Errorf ''failed to write email message: '' writeError ''''), snd (sa_call C CCloseData w'))
      | (Inr _, w') \<Rightarrow> io_wrap (\<lambda>e. Errorf ''failed to close data writer: '' e '''') (sa_call C CCloseData) w')"

definition smtpConversation ::
  "'w smtp_api \<Rightarrow> smtp_config \<Rightarrow> string \<Rightarrow> string list \<Rightarrow> ('w, unit) io" where
  "smtpConversation C cfg fromAddress recipients =
     io_bind (io_wrap (\<lambda>e. Errorf ''failed to authenticate: '' e '''')
                (sa_call C (CAuth (smtp_Username cfg) (smtp_Password cfg) (smtp_Host cfg)))) (\<lambda>_.
     io_bind (io_wrap (\<lambda>e. Errorf ''failed to set sender: '' e '''') (sa_call C (CMail fromAddress))) (\<lambda>_.
     io_bind (io_each (\<lambda>recipient. io_wrap (\<lambda>e. Errorf ''failed to set recipient: '' e '''')
                (sa_call C (CRcpt recipient))) recipients) (\<lambda>_.
     io_wrap (\<lambda>e. Errorf ''failed to get data writer: '' e '''') (sa_call C CData))))"

definition SendRawEmail ::
  "'w smtp_api \<Rightarrow> smtp_config \<Rightarrow> string \<Rightarrow> string list \<Rightarrow> bytes \<Rightarrow> ('w, unit) io" where
  "SendRawEmail C cfg fromAddress recipients rawMessage =
     (let serverAddr = JoinHostPort (smtp_Host cfg) (smtp_Port cfg) in
      if smtp_Port cfg = ''465'' then
        io_bind (io_wrap (\<lambda>e. Errorf ''failed to dial TLS: '' e '''')
                   (sa_call C (CDialTLS (cfg_ConnectionTimeoutSec (smtp_Timeouts cfg) * second) serverAddr (smtp_Host cfg))))
          (\<lambda>_. io_defer
            (\<lambda>w. case sa_ctxErr C w of
                   Some e \<Rightarrow> (Inl e, w)
                 | None \<Rightarrow>
                   io_bind (io_wrap (\<lambda>e. Errorf ''failed to create SMTP client: '' e '''') (sa_call C (CNewClient (smtp_Host cfg))))
                     (\<lambda>_. io_defer
                        (io_bind (smtpConversation C cfg fromAddress recipients) (\<lambda>_. writeMessage C rawMessage))
                        (sa_call C CQuit)) w)
            (sa_call C CCloseConn))
      else
        io_wrap (\<lambda>e. Errorf ''smtp send failed: '' e '''')
          (sa_call C (CSendMail serverAddr (smtp_Username cfg) (smtp_Password cfg) (smtp_Host cfg)
             fromAddress recipients rawMessage)))"

definition SendEmail ::
  "'w smtp_api \<Rightarrow> time \<Rightarrow> smtp_config \<Rightarrow> string \<Rightarrow> string \<Rightarrow> string \<Rightarrow> email_attachment list \<Rightarrow> ('w, unit) io" where
  "SendEmail C unixNano cfg recipient subject message attachments =
     SendRawEmail C cfg (smtp_FromAddress cfg) [recipient]
       (buildEmailMessage unixNano (smtp_FromAddress cfg) recipient subject message attachments)"

subsection \<open>Sending SMS\<close>

definition unreserved :: "char \<Rightarrow> bool" where
  "unreserved c \<longleftrightarrow> (let n = (of_char c :: nat) in
     48 \<le> n \<and> n \<le> 57 \<or> 65 \<le> n \<and> n \<le> 90 \<or> 97 \<le> n \<and> n \<le> 122 \<or> c \<in> set ''-_.~'')"

definition upper_hex :: string where
  "upper_hex = ''0123456789ABCDEF''"

definition escape_byte :: "char \<Rightarrow> string" where
  "escape_byte c =
     (if unreserved c then [c]
      else if c = CHR '' '' then ''+''
      else [CHR ''%'', upper_hex ! (of_char c div 16), upper_hex ! (of_char c mod 16)])"

definition QueryEscape :: "string \<Rightarrow> string" where
  "QueryEscape s = concat (map escape_byte s)"

text \<open>\<open>url.Values.Encode\<close> on a map with one value per key: the keys sorted, joined by \<open>&\<close>.\<close>

definition values_Encode :: "(string \<times> string) list \<Rightarrow> string" where
  "values_Encode kvs = Join (map (\<lambda>(k, v). QueryEscape k @ ''='' @ QueryEscape v) (sort_key fst kvs)) ''&''"

record twilio_sender =
  tw_AccountSID :: string
  tw_AuthToken :: string
  tw_FromNumber :: string
  tw_Timeout :: duration

definition NewTwilioSmsSender :: "string \<Rightarrow> string \<Rightarrow> string \<Rightarrow> config \<Rightarrow> twilio_sender" where
  "NewTwilioSmsSender accountSID authToken fromNumber cfg =
     \<lparr>tw_AccountSID = accountSID, tw_AuthToken = authToken, tw_FromNumber = fromNumber,
      tw_Timeout = cfg_ConnectionTimeoutSec cfg * second\<rparr>"

record http_request =
  hr_Method :: string
  hr_URL :: string
  hr_BasicAuth :: "string \<times> string"
  hr_ContentType :: string
  hr_Body :: string

type_synonym 'w http_client = "duration \<Rightarrow> http_request \<Rightarrow> ('w, int \<times> string) io"

definition twilioRequest :: "twilio_sender \<Rightarrow> string \<Rightarrow> string \<Rightarrow> http_request" where
  "twilioRequest sender recipient message =
     \<lparr>hr_Method = ''POST'',
      hr_URL = ''https://api.twilio.com/2010-04-01/Accounts/'' @ tw_AccountSID sender @ ''/Messages.json'',
      hr_BasicAuth = (tw_AccountSID sender, tw_AuthToken sender),
      hr_ContentType = ''application/x-www-form-urlencoded'',
      hr_Body = values_Encode [(''To'', recipient), (''From'', tw_FromNumber sender), (''Body'', message)]\<rparr>"

definition SendSms ::
  "(string \<Rightarrow> unit result) \<Rightarrow> 'w http_client \<Rightarrow> twilio_sender \<Rightarrow> string \<Rightarrow> string \<Rightarrow> ('w, string) io" where
  "SendSms newRequest do' sender recipient message =
     (let request = twilioRequest sender recipient message in
      case newRequest (hr_URL request) of
        Inl requestError \<Rightarrow> io_fail requestError
      | Inr _ \<Rightarrow>
          io_bind (do' (tw_Timeout sender) request) (\<lambda>(statusCode, responseBody).
            if 300 \<le> statusCode then io_fail (ErrorsNew (''twilio API error: '' @ responseBody))
            else io_return responseBody))"

subsection \<open>Base64 lines\<close>

text \<open>The lines of a text in the sense of RFC 5322, cut at each CRLF.\<close>

fun crlf_lines :: "string \<Rightarrow> string list" where
  "crlf_lines [] = [[]]"
| "crlf_lines (c # s) =
     (if c = CHR 0x0D \<and> s \<noteq> [] \<and> hd s = CHR 0x0A then [] # crlf_lines (tl s)
      else (case crlf_lines s of [] \<Rightarrow> [[c]] | l # ls \<Rightarrow> (c # l) # ls))"

definition one_line :: "string \<Rightarrow> bool" where
  "one_line s \<longleftrightarrow> CHR 0x0D \<notin> set s \<and> CHR 0x0A \<notin> set s"

lemma one_line_simps [simp]:
  "one_line []" "one_line (c # s) \<longleftrightarrow> c \<noteq> CHR 0x0D \<and> c \<noteq> CHR 0x0A \<and> one_line s"
  "one_line (s @ t) \<longleftrightarrow> one_line s \<and> one_line t"
  by (auto simp: one_line_def)

lemma crlf_lines_nonempty [simp]: "crlf_lines s \<noteq> []"
  by (cases s) (auto split: list.splits)

lemma crlf_lines_append: "one_line l \<Longrightarrow> crlf_lines (l @ CRLF @ s) = l # crlf_lines s"
  by (induction l) auto

lemma strip_newlines_append [simp]:
  "strip_newlines (s @ t) = strip_newlines s @ strip_newlines t" "strip_newlines CRLF = []" "strip_newlines [] = []"
  by (simp_all add: strip_newlines_def)

lemma strip_newlines_one_line: "one_line s \<Longrightarrow> strip_newlines s = s"
  by (simp add: one_line_def strip_newlines_id)

lemma one_line_take: "one_line s \<Longrightarrow> one_line (take n s) \<and> one_line (drop n s)"
  by (auto simp: one_line_def dest: in_set_takeD in_set_dropD)

lemma chunkLoop_step: "s \<noteq> [] \<Longrightarrow> chunkLoop s = take 76 s @ CRLF @ chunkLoop (drop 76 s)"
  by (simp only: chunkLoop.simps[of s] if_False)

lemma chunkLoop_strip: "one_line s \<Longrightarrow> strip_newlines (chunkLoop s) = s"
proof (induction s rule: chunkLoop.induct)
  case (1 s)
  show ?case
  proof (cases "s = []")
    case True
    then show ?thesis by (simp add: chunkLoop.simps)
  next
    case False
    have "strip_newlines (chunkLoop s) = strip_newlines (take 76 s) @ strip_newlines (chunkLoop (drop 76 s))"
      unfolding chunkLoop_step[OF False] strip_newlines_append append_Nil ..
    also have "\<dots> = take 76 s @ drop 76 s"
      using 1(1)[OF False] one_line_take[OF 1(2)] strip_newlines_one_line by simp
    finally show ?thesis by simp
  qed
qed

lemma chunkLoop_lines: "one_line s \<Longrightarrow> list_all (\<lambda>l. length l \<le> 76) (crlf_lines (chunkLoop s))"
proof (induction s rule: chunkLoop.induct)
  case (1 s)
  show ?case
  proof (cases "s = []")
    case True
    then show ?thesis by (simp add: chunkLoop.simps)
  next
    case False
    have "crlf_lines (chunkLoop s) = take 76 s # crlf_lines (chunkLoop (drop 76 s))"
      unfolding chunkLoop_step[OF False] by (rule crlf_lines_append) (simp add: one_line_take[OF 1(2)])
    then show ?thesis using 1(1)[OF False] one_line_take[OF 1(2)] by simp
  qed
qed

lemma one_line_StdEncode: "one_line (StdEncodeToString d)"
  using set_StdEncode[of d] alphabets(6,7) unfolding one_line_def by auto

text \<open>The payload of an attachment decodes to the data of the attachment, and none of its
  lines is longer than the 76 characters RFC 2045 allows.\<close>

lemma base64_chunked_roundtrip:
  "StdDecodeString (encodeBase64Chunked data) = Some data
   \<and> list_all (\<lambda>l. length l \<le> 76) (crlf_lines (encodeBase64Chunked data))"
proof (cases "data = []")
  case True
  then show ?thesis by (simp add: encodeBase64Chunked_def StdDecodeString_def strip_newlines_def)
next
  case False
  have "StdDecodeString (chunkLoop (StdEncodeToString data)) = StdDecodeString (StdEncodeToString data)"
    unfolding StdDecodeString_def chunkLoop_strip[OF one_line_StdEncode]
      strip_newlines_one_line[OF one_line_StdEncode] ..
  with False show ?thesis
    by (simp add: encodeBase64Chunked_def Std_roundtrip chunkLoop_lines one_line_StdEncode)
qed

subsection \<open>File names\<close>

definition safe_byte :: "char \<Rightarrow> bool" where
  "safe_byte c \<longleftrightarrow> 32 \<le> (of_char c :: nat) \<and> of_char c \<noteq> (127 :: nat) \<and> c \<noteq> CHR 0x22 \<and> c \<noteq> CHR 0x5C"

lemma high_byte_safe: "128 \<le> (of_char c :: nat) \<Longrightarrow> safe_byte c"
  by (auto simp: safe_byte_def)

lemma wide_rune_high:
  assumes "rune_width s \<noteq> 1"
  shows "list_all (\<lambda>c. 128 \<le> (of_char c :: nat)) (take (rune_width s) s)"
proof -
  have "second_ok l d \<Longrightarrow> 128 \<le> (of_char d :: nat)" for l d
    by (auto simp: second_ok_def cont_byte_def Let_def split: if_splits)
  then show ?thesis
    using assms by (cases s rule: rune_width.cases) (auto simp: cont_byte_def Let_def split: if_splits)
qed

lemma sanitizeLoop_safe: "list_all safe_byte (sanitizeLoop s)"
proof (induction s rule: sanitizeLoop.induct)
  case (1 s)
  show ?case
  proof (cases s)
    case Nil
    then show ?thesis by (simp add: sanitizeLoop.simps)
  next
    case (Cons c t)
    have IH: "list_all safe_byte (sanitizeLoop (drop (rune_width s) s))"
      using 1[OF Cons refl refl] .
    show ?thesis
    proof (cases "rune_width s = 1")
      case False
      then have "sanitizeLoop s = take (rune_width s) s @ sanitizeLoop (drop (rune_width s) s)"
        using Cons by (simp add: sanitizeLoop.simps[of "c # t"] Let_def)
      with IH wide_rune_high[OF False] high_byte_safe show ?thesis by (auto simp: list_all_iff)
    next
      case True
      then have "sanitizeLoop s = (if safe_byte c then if 128 \<le> (of_char c :: nat) then [CHR 0xEF, CHR 0xBF, CHR 0xBD] else [c] else [])
          @ sanitizeLoop (drop (rune_width s) s)"
        using Cons by (auto simp: sanitizeLoop.simps[of "c # t"] Let_def safe_byte_def)
      moreover have "safe_byte (CHR 0xEF)" "safe_byte (CHR 0xBF)" "safe_byte (CHR 0xBD)" by (simp_all add: safe_byte_def)
      ultimately show ?thesis using IH by simp
    qed
  qed
qed

text \<open>The file name written into the Content-Disposition header is never empty and has no
  control character, quotation mark or backslash, so it can end neither the quoted string nor the
  header line.\<close>

lemma sanitize_filename_safe:
  "sanitizeFilename f \<noteq> '''' \<and> list_all safe_byte (sanitizeFilename f)"
proof -
  have "list_all safe_byte (TrimSpace (sanitizeLoop (TrimSpace f)))"
    using sanitizeLoop_safe[of "TrimSpace f"] set_TrimSpace[of "sanitizeLoop (TrimSpace f)"]
    by (auto simp: list_all_iff)
  then show ?thesis by (simp add: sanitizeFilename_def Let_def safe_byte_def)
qed

subsection \<open>Headers\<close>

definition header_lines :: "string \<Rightarrow> string list" where
  "header_lines message = takeWhile (\<lambda>l. l \<noteq> []) (crlf_lines message)"

definition content_type_line :: "time \<Rightarrow> email_attachment list \<Rightarrow> string" where
  "content_type_line now attachments =
     (if attachments = [] then ''Content-Type: text/plain; charset='' @ DQ @ ''utf-8'' @ DQ
      else ''Content-Type: multipart/mixed; boundary='' @ DQ @ ''PinguinBoundary-'' @ Itoa now @ DQ)"

lemma one_line_nat_digits: "one_line (nat_digits n)"
proof (induction n rule: nat_digits.induct)
  case (1 n)
  have "one_line [char_of (48 + m)]" if "m < 10" for m :: nat
    using that by (auto simp: one_line_def dest!: arg_cong[where f = "of_char :: char \<Rightarrow> nat"])
  with 1 show ?case by (simp add: nat_digits.simps[of n])
qed

lemma one_line_Itoa: "one_line (Itoa z)"
  by (simp add: Itoa_def one_line_nat_digits)

lemma header_lines_Cons:
  "one_line l \<Longrightarrow> l \<noteq> [] \<Longrightarrow> header_lines (l @ CRLF @ s) = l # header_lines s"
  "header_lines (CRLF @ s) = []"
  unfolding header_lines_def by (simp_all only: crlf_lines_append) simp_all

lemma build_message_shape:
  obtains rest where "buildEmailMessage now f t sub body atts =
    (''From: '' @ f) @ CRLF @ (''To: '' @ t) @ CRLF @ (''Subject: '' @ sub) @ CRLF @ ''MIME-Version: 1.0'' @ CRLF
    @ content_type_line now atts @ CRLF @ CRLF @ rest"
proof (cases "atts = []")
  case True
  then show thesis
    by (intro that[of body]) (simp add: buildEmailMessage_def content_type_line_def)
next
  case False
  let ?b = "''PinguinBoundary-'' @ Itoa now"
  show thesis
    by (rule that[of "''--'' @ ?b @ CRLF @ ''Content-Type: text/plain; charset='' @ DQ @ ''utf-8'' @ DQ @ CRLF
       @ ''Content-Transfer-Encoding: 7bit'' @ CRLF @ CRLF @ body @ CRLF
       @ concat (map (attachmentPart ?b) atts) @ ''--'' @ ?b @ ''--'' @ CRLF"])
      (use False in \<open>simp add: buildEmailMessage_def content_type_line_def Let_def\<close>)
qed

text \<open>The header of a built message is exactly its five lines when addresses and subject are
  single lines, whatever the body and the attachments.\<close>

lemma build_message_headers:
  assumes "one_line f" "one_line t" "one_line sub"
  shows "header_lines (buildEmailMessage now f t sub body atts) =
    [''From: '' @ f, ''To: '' @ t, ''Subject: '' @ sub, ''MIME-Version: 1.0'', content_type_line now atts]"
proof -
  have c: "one_line (content_type_line now atts)" "content_type_line now atts \<noteq> []"
    by (simp_all add: content_type_line_def one_line_Itoa)
  obtain rest where m: "buildEmailMessage now f t sub body atts =
    (''From: '' @ f) @ CRLF @ (''To: '' @ t) @ CRLF @ (''Subject: '' @ sub) @ CRLF @ ''MIME-Version: 1.0'' @ CRLF
    @ content_type_line now atts @ CRLF @ CRLF @ rest"
    by (rule build_message_shape)
  have l: "one_line (''From: '' @ f)" "''From: '' @ f \<noteq> []" "one_line (''To: '' @ t)" "''To: '' @ t \<noteq> []"
    "one_line (''Subject: '' @ sub)" "''Subject: '' @ sub \<noteq> []" "one_line ''MIME-Version: 1.0''" "''MIME-Version: 1.0'' \<noteq> []"
    using assms by simp_all
  show ?thesis
    unfolding m header_lines_Cons(1)[OF l(1,2)] header_lines_Cons(1)[OF l(3,4)] header_lines_Cons(1)[OF l(5,6)]
      header_lines_Cons(1)[OF l(7,8)] header_lines_Cons(1)[OF c] header_lines_Cons(2) ..
qed

text \<open>A subject with a line break in it adds a header line of its own: neither the request
  constructor nor the message builder rejects it.\<close>

lemma subject_line_break_adds_header:
  "header_lines (buildEmailMessage 7 ''a@x'' ''b@y'' (''hi'' @ CRLF @ ''Bcc: c@z'') ''text'' []) ! 3 = ''Bcc: c@z''"
  by code_simp

subsection \<open>The SMTP dialogue\<close>

definition smtp_dialogue :: "smtp_config \<Rightarrow> string \<Rightarrow> string list \<Rightarrow> bytes \<Rightarrow> smtp_call list" where
  "smtp_dialogue cfg from' rcpts msg =
     [CDialTLS (cfg_ConnectionTimeoutSec (smtp_Timeouts cfg) * second) (JoinHostPort (smtp_Host cfg) ''465'') (smtp_Host cfg),
      CNewClient (smtp_Host cfg), CAuth (smtp_Username cfg) (smtp_Password cfg) (smtp_Host cfg), CMail from']
     @ map CRcpt rcpts @ [CData, CWrite msg, CCloseData]"

text \<open>What the deferred calls add after the dialogue stopped.\<close>

definition closing :: "smtp_call list \<Rightarrow> smtp_call list" where
  "closing log =
     (case last log of CWrite _ \<Rightarrow> [CCloseData] | _ \<Rightarrow> [])
     @ (if 2 < length log then [CQuit] else []) @ (if 1 < length log then [CCloseConn] else [])"

lemma plays_conversation:
  "plays O' (smtpConversation (logging_client O' tls) cfg from' rcpts)
     ([CAuth (smtp_Username cfg) (smtp_Password cfg) (smtp_Host cfg)] @ [CMail from'] @ map CRcpt rcpts @ [CData])"
  unfolding smtpConversation_def logging_client_def smtp_api.simps
  by (intro plays_bind plays_wrap plays_call plays_each)

lemma writeMessage_log:
  "is_ok (fst (writeMessage (logging_client O' tls) msg log)) = fst (play O' log [CWrite msg, CCloseData])"
  "snd (writeMessage (logging_client O' tls) msg log) =
     (let l = snd (play O' log [CWrite msg, CCloseData]) in l @ (case last l of CWrite _ \<Rightarrow> [CCloseData] | _ \<Rightarrow> []))"
  by (cases "O' log (CWrite msg)"; cases "O' (log @ [CWrite msg]) CCloseData";
      simp add: writeMessage_def logging_client_def logged_def io_wrap_def)+

lemma no_write_in_conversation:
  assumes "play O' log cs = (False, l)" "CWrite x \<notin> set cs"
  shows "last l \<noteq> CWrite x"
  using assms(1)
proof (rule play_refused)
  fix d c rest
  assume "cs = d @ c # rest" "l = log @ d @ [c]"
  with assms(2) show ?thesis by auto
qed

lemma dialogue_then_write:
  assumes m: "plays O' m cs" and cs: "\<And>x. CWrite x \<notin> set cs"
  obtains ok l where "play O' log (cs @ [CWrite msg, CCloseData]) = (ok, l)"
    "is_ok (fst (io_bind m (\<lambda>_. writeMessage (logging_client O' tls) msg) log)) = ok"
    "snd (io_bind m (\<lambda>_. writeMessage (logging_client O' tls) msg) log) = l @ (case last l of CWrite _ \<Rightarrow> [CCloseData] | _ \<Rightarrow> [])"
proof -
  obtain r log' where c: "m log = (r, log')" "play O' log cs = (is_ok r, log')"
    by (rule playsD[OF m])
  show thesis
  proof (cases r)
    case (Inl e)
    with c(2) have l: "play O' log cs = (False, log')" by simp
    have "last log' \<noteq> CWrite x" for x
      by (rule no_write_in_conversation[OF l cs])
    then have "(case last log' of CWrite _ \<Rightarrow> [CCloseData] | _ \<Rightarrow> []) = []" by (cases "last log'") auto
    with Inl c(1) l show thesis by (intro that[of False log']) (simp_all add: io_bind_def play_append)
  next
    case (Inr u)
    let ?p = "play O' log' [CWrite msg, CCloseData]"
    from Inr c show thesis
      by (intro that[of "fst ?p" "snd ?p"])
        (simp_all only: play_append io_bind_def prod.case sum.case is_ok_simps if_True prod.collapse writeMessage_log Let_def)
  qed
qed


subsection \<open>The Twilio form\<close>

text \<open>The reference decoder of a form, the inverse of \<open>url.Values.Encode\<close>.\<close>

fun QueryUnescape :: "string \<Rightarrow> string option" where
  "QueryUnescape [] = Some []"
| "QueryUnescape (c # s) =
     (if c = CHR ''%'' then
        (case s of
           a # b # rest \<Rightarrow>
             (case (index_of a upper_hex, index_of b upper_hex, QueryUnescape rest) of
                (Some x, Some y, Some t) \<Rightarrow> Some (char_of (16 * x + y) # t)
              | _ \<Rightarrow> None)
         | _ \<Rightarrow> None)
      else map_option ((#) (if c = CHR ''+'' then CHR '' '' else c)) (QueryUnescape s))"

definition parse_form :: "string \<Rightarrow> (string option \<times> string option) list" where
  "parse_form s = map (\<lambda>seg. let (k, v, found) = Cut seg (CHR ''='') in (QueryUnescape k, QueryUnescape v)) (Split s (CHR ''&''))"

lemma upper_hex_index: "n < 16 \<Longrightarrow> index_of (upper_hex ! n) upper_hex = Some n"
  by (rule index_of_nth) (simp_all add: upper_hex_def)

lemma hex_nibbles: "of_char c div 16 < (16 :: nat)" "of_char c mod 16 < (16 :: nat)"
proof -
  have "of_char c < (16 * 16 :: nat)" using of_char_lt[of "of_char c" "[c]"] by simp
  then show "of_char c div 16 < (16 :: nat)" by (rule less_mult_imp_div_less)
qed simp

lemma unescape_escape: "QueryUnescape (QueryEscape s) = Some s"
proof (induction s)
  case Nil
  then show ?case by (simp add: QueryEscape_def)
next
  case (Cons c s)
  have step: "QueryEscape (c # s) = escape_byte c @ QueryEscape s" by (simp add: QueryEscape_def)
  note h = upper_hex_index[OF hex_nibbles(1)[of c]] upper_hex_index[OF hex_nibbles(2)[of c]]
  have u: "c \<noteq> CHR ''%'' \<and> c \<noteq> CHR ''+''" if "unreserved c" using that by (auto simp: unreserved_def)
  show ?case
    unfolding step escape_byte_def using Cons h u by auto
qed

lemma escape_clean: "c \<in> {CHR ''&'', CHR ''=''} \<Longrightarrow> c \<notin> set (QueryEscape s)"
proof -
  have "\<forall>c \<in> set upper_hex. c \<noteq> CHR ''&'' \<and> c \<noteq> CHR ''=''" by (simp add: upper_hex_def)
  moreover have "upper_hex ! n \<in> set upper_hex" if "n < 16" for n
    using that by (intro nth_mem) (simp add: upper_hex_def)
  ultimately have h: "upper_hex ! n \<noteq> CHR ''&'' \<and> upper_hex ! n \<noteq> CHR ''=''" if "n < 16" for n using that by blast
  have "CHR ''&'' \<notin> set (escape_byte d) \<and> CHR ''='' \<notin> set (escape_byte d)" for d
    using h[OF hex_nibbles(1)[of d]] h[OF hex_nibbles(2)[of d]] by (auto simp: escape_byte_def unreserved_def)
  then show "c \<in> {CHR ''&'', CHR ''=''} \<Longrightarrow> c \<notin> set (QueryEscape s)" by (auto simp: QueryEscape_def)
qed

lemma Split_append: "c \<notin> set s \<Longrightarrow> Split (s @ c # t) c = s # Split t c"
  by (induction s) auto

lemma parse_form_Join:
  "parse_form (Join (map (\<lambda>(k, v). QueryEscape k @ ''='' @ QueryEscape v) kvs) ''&'') = map (\<lambda>(k, v). (Some k, Some v)) kvs"
  if "kvs \<noteq> []"
  using that
proof (induction kvs)
  case (Cons kv kvs)
  obtain k v where kv: "kv = (k, v)" by fastforce
  let ?seg = "QueryEscape k @ ''='' @ QueryEscape v"
  have amp: "CHR ''&'' \<notin> set ?seg" by (simp add: escape_clean)
  have cut: "Cut ?seg (CHR ''='') = (QueryEscape k, QueryEscape v, True)"
    unfolding Cut_found by (simp add: escape_clean)
  show ?case
  proof (cases kvs)
    case Nil
    then show ?thesis using Split_absent[OF amp] cut kv by (simp add: parse_form_def unescape_escape)
  next
    case (Cons kv' kvs')
    let ?rest = "Join (map (\<lambda>(k, v). QueryEscape k @ ''='' @ QueryEscape v) kvs) ''&''"
    have "Join (map (\<lambda>(k, v). QueryEscape k @ ''='' @ QueryEscape v) (kv # kvs)) ''&'' = ?seg @ CHR ''&'' # ?rest"
      using Cons kv by simp
    then have "parse_form (Join (map (\<lambda>(k, v). QueryEscape k @ ''='' @ QueryEscape v) (kv # kvs)) ''&'') =
        (Some k, Some v) # parse_form ?rest"
      using Split_append[OF amp, of ?rest] cut by (simp add: parse_form_def unescape_escape)
    then show ?thesis using Cons.IH Cons kv by simp
  qed
qed simp

text \<open>The SMS sender posts to the account's endpoint one form with exactly the message, the
  configured number and the recipient, whatever bytes they contain, and reports the response
  body for a status below 300, the body as an error otherwise.\<close>

lemma send_sms_form:
  "parse_form (hr_Body (twilioRequest sender to' msg)) =
     [(Some ''Body'', Some msg), (Some ''From'', Some (tw_FromNumber sender)), (Some ''To'', Some to')]
   \<and> SendSms (\<lambda>_. Inr ()) (\<lambda>t r w. (answer t r w, w @ [r])) sender to' msg w =
       (case answer (tw_Timeout sender) (twilioRequest sender to' msg) w of
          Inl e \<Rightarrow> Inl e
        | Inr (status, body) \<Rightarrow> if status < 300 then Inr body else Inl (ErrorsNew (''twilio API error: '' @ body)),
        w @ [twilioRequest sender to' msg])"
proof -
  have "sort_key fst [(''To'', to'), (''From'', tw_FromNumber sender), (''Body'', msg)] =
      [(''Body'', msg), (''From'', tw_FromNumber sender), (''To'', to')]"
    by (simp add: insort_key.simps less_eq_char_def list_le_def)
  then have "hr_Body (twilioRequest sender to' msg) =
      Join (map (\<lambda>(k, v). QueryEscape k @ ''='' @ QueryEscape v) [(''Body'', msg), (''From'', tw_FromNumber sender), (''To'', to')]) ''&''"
    unfolding twilioRequest_def http_request.simps values_Encode_def by (simp only:)
  then have form: "parse_form (hr_Body (twilioRequest sender to' msg)) =
      [(Some ''Body'', Some msg), (Some ''From'', Some (tw_FromNumber sender)), (Some ''To'', Some to')]"
    using parse_form_Join[of "[(''Body'', msg), (''From'', tw_FromNumber sender), (''To'', to')]"] by (simp only:) simp
  show ?thesis
    by (rule conjI[OF form], cases "answer (tw_Timeout sender) (twilioRequest sender to' msg) w")
      (simp_all add: SendSms_def Let_def io_bind_def io_fail_def io_return_def split: prod.splits)
qed

end
