(* ===== verification/Notification_Service.thy ===== *)
theory Notification_Service
  imports Email_Message
begin

text \<open>
  The notification service (\<open>internal/service/notification_service.go\<close>). The state holds the database, the
  repository caches, the caches of senders and the outside world; what the code calls from
  libraries is the record \<open>service_env\<close>: the tables, the join query of the retry store, the clock,
  the SMTP and HTTP clients. A sender is the code of \<open>Email_Message\<close> with a configuration, or a
  function of the caller's. A request context is the tenant configuration it carries, if any.
\<close>

subsection \<open>Senders and state\<close>

datatype 'w email_sender =
    CustomEmailSender "string \<Rightarrow> string \<Rightarrow> string \<Rightarrow> email_attachment list \<Rightarrow> ('w, unit) io"
  | SMTPEmailSender smtp_config

datatype 'w sms_sender =
    CustomSmsSender "string \<Rightarrow> string \<Rightarrow> ('w, string) io"
  | TwilioSmsSender twilio_sender

record ('d, 'w) service_env =
  env_notes :: "'d notification_table"
  env_pendingJoin :: "(notification \<Rightarrow> tenant \<Rightarrow> bool) \<Rightarrow> 'd \<Rightarrow> notification list result"
  env_like :: sql_like
  env_codec :: cursor_codec
  env_tenants :: "'d tenant_db"
  env_aead :: aead
  env_keeper :: secret_keeper
  env_clock :: "'w \<Rightarrow> time \<times> 'w"
  env_smtp :: "'w smtp_api"
  env_newRequest :: "string \<Rightarrow> unit result"
  env_http :: "'w http_client"

record 'w notification_service =
  ns_tenantRepo :: bool
  ns_config :: config
  ns_defaultEmailSender :: "'w email_sender option"
  ns_defaultSmsSender :: "'w sms_sender option"
  ns_maxRetries :: int
  ns_retryIntervalSec :: int

record ('d, 'w) service_state =
  sst_db :: 'd
  sst_world :: 'w
  sst_repo :: tenant_repository
  sst_emailSenders :: "string \<rightharpoonup> smtp_config"
  sst_smsSenders :: "string \<rightharpoonup> twilio_sender"

type_synonym ('d, 'w, 'a) service_io = "(('d, 'w) service_state, 'a) io"
type_synonym request_context = "runtime_config option"

definition on_world :: "('w, 'a) io \<Rightarrow> ('d, 'w, 'a) service_io" where
  "on_world m s = (case m (sst_world s) of (r, w) \<Rightarrow> (r, s\<lparr>sst_world := w\<rparr>))"

definition with_db :: "('d \<Rightarrow> 'a result \<times> 'd) \<Rightarrow> ('d, 'w, 'a) service_io" where
  "with_db m s = (case m (sst_db s) of (r, d) \<Rightarrow> (r, s\<lparr>sst_db := d\<rparr>))"

definition read_db :: "('d \<Rightarrow> 'a result) \<Rightarrow> ('d, 'w, 'a) service_io" where
  "read_db m s = (m (sst_db s), s)"

definition time_Now :: "('d, 'w) service_env \<Rightarrow> ('d, 'w, time) service_io" where
  "time_Now E = on_world (io_pure (env_clock E))"

definition ErrSMSDisabled :: go_error where
  "ErrSMSDisabled = ErrorsNew ''sms delivery disabled: missing Twilio credentials''"
definition ErrNotificationNotEditable :: go_error where
  "ErrNotificationNotEditable = ErrorsNew ''notification must be queued before editing''"
definition ErrMissingTenantContext :: go_error where
  "ErrMissingTenantContext = ErrorsNew ''tenant context missing''"

definition NewNotificationServiceWithSenders ::
  "config \<Rightarrow> bool \<Rightarrow> 'w email_sender option \<Rightarrow> 'w sms_sender option \<Rightarrow> 'w notification_service" where
  "NewNotificationServiceWithSenders cfg tenantRepo emailSender smsSender =
     \<lparr>ns_tenantRepo = tenantRepo, ns_config = cfg,
      ns_defaultEmailSender =
        (if emailSender \<noteq> None then emailSender
         else if \<not> tenantRepo then
           Some (SMTPEmailSender \<lparr>smtp_Host = cfg_SMTPHost cfg, smtp_Port = Itoa (cfg_SMTPPort cfg),
             smtp_Username = cfg_SMTPUsername cfg, smtp_Password = cfg_SMTPPassword cfg,
             smtp_FromAddress = cfg_FromEmail cfg, smtp_Timeouts = cfg\<rparr>)
         else None),
      ns_defaultSmsSender =
        (if smsSender \<noteq> None then smsSender
         else if \<not> tenantRepo \<and> TwilioConfigured cfg then
           Some (TwilioSmsSender (NewTwilioSmsSender (cfg_TwilioAccountSID cfg) (cfg_TwilioAuthToken cfg)
             (cfg_TwilioFromNumber cfg) cfg))
         else None),
      ns_maxRetries = cfg_MaxRetries cfg, ns_retryIntervalSec = cfg_RetryIntervalSec cfg\<rparr>"

definition NewNotificationService :: "config \<Rightarrow> bool \<Rightarrow> 'w notification_service" where
  "NewNotificationService cfg tenantRepo = NewNotificationServiceWithSenders cfg tenantRepo None None"

definition sender_SendEmail ::
  "('d, 'w) service_env \<Rightarrow> 'w email_sender \<Rightarrow> string \<Rightarrow> string \<Rightarrow> string \<Rightarrow> email_attachment list \<Rightarrow> ('w, unit) io" where
  "sender_SendEmail E sender recipient subject message attachments =
     (case sender of
        CustomEmailSender f \<Rightarrow> f recipient subject message attachments
      | SMTPEmailSender cfg \<Rightarrow>
          if attachments = [] then SendEmail (env_smtp E) 0 cfg recipient subject message []
          else io_bind (io_pure (env_clock E)) (\<lambda>now. SendEmail (env_smtp E) now cfg recipient subject message attachments))"

definition sender_SendSms ::
  "('d, 'w) service_env \<Rightarrow> 'w sms_sender \<Rightarrow> string \<Rightarrow> string \<Rightarrow> ('w, string) io" where
  "sender_SendSms E sender recipient message =
     (case sender of
        CustomSmsSender f \<Rightarrow> f recipient message
      | TwilioSmsSender tw \<Rightarrow> SendSms (env_newRequest E) (env_http E) tw recipient message)"

subsection \<open>Tenants and their senders\<close>

definition requireTenant :: "request_context \<Rightarrow> runtime_config result" where
  "requireTenant ctx = (case ctx of None \<Rightarrow> Inl ErrMissingTenantContext | Some runtimeCfg \<Rightarrow> Inr runtimeCfg)"

definition smtpConfigOf :: "'w notification_service \<Rightarrow> runtime_config \<Rightarrow> smtp_config" where
  "smtpConfigOf svc runtimeCfg =
     \<lparr>smtp_Host = ec_Host (rc_Email runtimeCfg), smtp_Port = Itoa (ec_Port (rc_Email runtimeCfg)),
      smtp_Username = ec_Username (rc_Email runtimeCfg), smtp_Password = ec_Password (rc_Email runtimeCfg),
      smtp_FromAddress = ec_FromAddress (rc_Email runtimeCfg), smtp_Timeouts = ns_config svc\<rparr>"

definition emailSenderForTenant ::
  "'w notification_service \<Rightarrow> runtime_config \<Rightarrow> ('d, 'w, 'w email_sender) service_io" where
  "emailSenderForTenant svc runtimeCfg s =
     (case ns_defaultEmailSender svc of
        Some sender \<Rightarrow> (Inr sender, s)
      | None \<Rightarrow>
          let email = rc_Email runtimeCfg; tenantID = t_ID (rc_Tenant runtimeCfg) in
          if ec_Host email = '''' \<or> ec_Username email = '''' \<or> ec_Password email = '''' \<or> ec_FromAddress email = ''''
          then (Inl (ErrorsNew (''email credentials unavailable for tenant '' @ tenantID)), s)
          else (case sst_emailSenders s tenantID of
              Some cached \<Rightarrow> (Inr (SMTPEmailSender cached), s)
            | None \<Rightarrow>
                let smtpSender = smtpConfigOf svc runtimeCfg in
                (Inr (SMTPEmailSender smtpSender),
                 s\<lparr>sst_emailSenders := (sst_emailSenders s)(tenantID \<mapsto> smtpSender)\<rparr>)))"

definition smsSenderForTenant ::
  "'w notification_service \<Rightarrow> runtime_config \<Rightarrow> ('d, 'w, 'w sms_sender) service_io" where
  "smsSenderForTenant svc runtimeCfg s =
     (case ns_defaultSmsSender svc of
        Some sender \<Rightarrow> (Inr sender, s)
      | None \<Rightarrow>
          (case rc_SMS runtimeCfg of
             None \<Rightarrow> (Inl ErrSMSDisabled, s)
           | Some sms \<Rightarrow>
               if smc_AccountSID sms = '''' \<or> smc_AuthToken sms = '''' \<or> smc_FromNumber sms = '''' then (Inl ErrSMSDisabled, s)
               else let tenantID = t_ID (rc_Tenant runtimeCfg) in
               (case sst_smsSenders s tenantID of
                  Some cached \<Rightarrow> (Inr (TwilioSmsSender cached), s)
                | None \<Rightarrow>
                    let smsSender = NewTwilioSmsSender (smc_AccountSID sms) (smc_AuthToken sms) (smc_FromNumber sms) (ns_config svc) in
                    (Inr (TwilioSmsSender smsSender),
                     s\<lparr>sst_smsSenders := (sst_smsSenders s)(tenantID \<mapsto> smsSender)\<rparr>))))"

definition zero_runtime :: "string \<Rightarrow> runtime_config" where
  "zero_runtime tenantID =
     \<lparr>rc_Tenant = \<lparr>t_ID = tenantID, t_DisplayName = '''', t_SupportEmail = '''', t_Status = '''',
                   t_CreatedAt = zero_time, t_UpdatedAt = zero_time\<rparr>,
      rc_Email = \<lparr>ec_Host = '''', ec_Port = 0, ec_Username = '''', ec_Password = '''', ec_FromAddress = ''''\<rparr>,
      rc_SMS = None\<rparr>"

definition runtimeForTenantID ::
  "('d, 'w) service_env \<Rightarrow> 'w notification_service \<Rightarrow> request_context \<Rightarrow> string \<Rightarrow> ('d, 'w, runtime_config) service_io" where
  "runtimeForTenantID E svc ctx tenantID s =
     (if tenantID = '''' then (Inl ErrMissingTenantContext, s)
      else if ns_tenantRepo svc then
        (case ResolveByID (env_aead E) (env_keeper E) (env_tenants E) tenantID (sst_db s) (sst_repo s) of
           (r, repo) \<Rightarrow> (r, s\<lparr>sst_repo := repo\<rparr>))
      else (case ctx of
          None \<Rightarrow>
            if ns_defaultEmailSender svc \<noteq> None \<or> ns_defaultSmsSender svc \<noteq> None
            then (Inr (zero_runtime tenantID), s)
            else (Inl ErrMissingTenantContext, s)
        | Some runtimeCfg \<Rightarrow>
            if t_ID (rc_Tenant runtimeCfg) \<noteq> tenantID
            then (Inl (ErrorsNew (''tenant mismatch: context='' @ t_ID (rc_Tenant runtimeCfg) @ '' payload='' @ tenantID)), s)
            else (Inr runtimeCfg, s)))"

subsection \<open>Requests\<close>

definition dispatchNow ::
  "('d, 'w) service_env \<Rightarrow> 'w notification_service \<Rightarrow> runtime_config \<Rightarrow> notification_request \<Rightarrow> time
   \<Rightarrow> notification \<Rightarrow> ('d, 'w, notification) service_io" where
  "dispatchNow E svc runtimeCfg request currentTime n =
     (if n_NotificationType n = NotificationEmail then
        io_bind (emailSenderForTenant svc runtimeCfg) (\<lambda>emailSender.
        io_bind (io_try (on_world (sender_SendEmail E emailSender (nr_recipient request) (nr_subject request)
                   (nr_message request) (nr_attachments request)))) (\<lambda>dispatched.
        io_return (case dispatched of
            Inr _ \<Rightarrow> n\<lparr>n_Status := StatusSent, n_LastAttemptedAt := currentTime\<rparr>
          | Inl _ \<Rightarrow> n\<lparr>n_Status := StatusErrored, n_LastAttemptedAt := currentTime\<rparr>)))
      else if n_NotificationType n = NotificationSMS then
        io_bind (smsSenderForTenant svc runtimeCfg) (\<lambda>smsSender.
        io_bind (io_try (on_world (sender_SendSms E smsSender (nr_recipient request) (nr_message request)))) (\<lambda>dispatched.
        io_return (case dispatched of
            Inr providerMessageID \<Rightarrow>
              n\<lparr>n_Status := StatusSent, n_ProviderMessageID := providerMessageID, n_LastAttemptedAt := currentTime\<rparr>
          | Inl _ \<Rightarrow> n\<lparr>n_Status := StatusErrored, n_LastAttemptedAt := currentTime\<rparr>)))
      else io_return n)"

definition scheduledLater :: "notification_request \<Rightarrow> time \<Rightarrow> bool" where
  "scheduledLater request currentTime \<longleftrightarrow>
     (case nr_scheduledFor request of None \<Rightarrow> False | Some t \<Rightarrow> currentTime < t)"

definition SendNotification ::
  "('d, 'w) service_env \<Rightarrow> 'w notification_service \<Rightarrow> request_context \<Rightarrow> notification_request
   \<Rightarrow> ('d, 'w, notification_response) service_io" where
  "SendNotification E svc ctx request =
     io_bind (io_lift (requireTenant ctx)) (\<lambda>runtimeCfg.
     io_bind (time_Now E) (\<lambda>unixNano.
     io_bind (time_Now E) (\<lambda>createdAt.
     io_bind (time_Now E) (\<lambda>currentTime.
     let notificationID = ''notif-'' @ Itoa unixNano;
         newNotification = NewNotification createdAt notificationID (t_ID (rc_Tenant runtimeCfg)) request in
     io_bind (if scheduledLater request currentTime then io_return newNotification
              else dispatchNow E svc runtimeCfg request currentTime newNotification) (\<lambda>dispatched.
     io_bind (with_db (CreateNotification (env_notes E) dispatched)) (\<lambda>stored.
     io_return (NewNotificationResponse stored)))))))"

definition GetNotificationStatus ::
  "('d, 'w) service_env \<Rightarrow> request_context \<Rightarrow> string \<Rightarrow> ('d, 'w, notification_response) service_io" where
  "GetNotificationStatus E ctx notificationID =
     io_bind (io_lift (requireTenant ctx)) (\<lambda>runtimeCfg.
     io_bind (read_db (MustGetNotificationByID (env_notes E) (t_ID (rc_Tenant runtimeCfg)) notificationID)) (\<lambda>record.
     io_return (NewNotificationResponse record)))"

definition ListNotifications ::
  "('d, 'w) service_env \<Rightarrow> request_context \<Rightarrow> notification_list_filters \<Rightarrow> ('d, 'w, notification_response list) service_io" where
  "ListNotifications E ctx filters =
     io_bind (io_lift (requireTenant ctx)) (\<lambda>runtimeCfg.
     io_bind (read_db (Notification_Model.ListNotifications (env_like E) (env_notes E) (t_ID (rc_Tenant runtimeCfg)) filters))
       (\<lambda>records. io_return (map NewNotificationResponse records)))"

definition ListNotificationsPage ::
  "('d, 'w) service_env \<Rightarrow> request_context \<Rightarrow> notification_list_filters \<Rightarrow> notification_list_page_request
   \<Rightarrow> ('d, 'w, notification_list_response_page) service_io" where
  "ListNotificationsPage E ctx filters pageRequest =
     io_bind (io_lift (requireTenant ctx)) (\<lambda>runtimeCfg.
     io_bind (read_db (Notification_Model.ListNotificationsPage (env_codec E) (env_like E) (env_notes E)
                (t_ID (rc_Tenant runtimeCfg)) filters pageRequest))
       (\<lambda>page. io_return \<lparr>rp_Notifications = map NewNotificationResponse (np_Notifications page),
                          rp_NextCursor = np_NextCursor page\<rparr>))"

definition ListNotificationsAll ::
  "('d, 'w) service_env \<Rightarrow> notification_list_filters \<Rightarrow> ('d, 'w, notification_response list) service_io" where
  "ListNotificationsAll E filters =
     io_bind (read_db (Notification_Model.ListNotificationsAll (env_like E) (env_notes E) filters))
       (\<lambda>records. io_return (map NewNotificationResponse records))"

definition RescheduleNotification ::
  "('d, 'w) service_env \<Rightarrow> request_context \<Rightarrow> string \<Rightarrow> time \<Rightarrow> ('d, 'w, notification_response) service_io" where
  "RescheduleNotification E ctx notificationID scheduledFor =
     io_bind (io_lift (requireTenant ctx)) (\<lambda>runtimeCfg.
     io_bind (read_db (MustGetNotificationByID (env_notes E) (t_ID (rc_Tenant runtimeCfg)) notificationID)) (\<lambda>existing.
     if n_Status existing \<noteq> StatusQueued then io_fail ErrNotificationNotEditable
     else io_bind (time_Now E) (\<lambda>now.
     io_bind (with_db (SaveNotification (env_notes E) (existing\<lparr>n_ScheduledFor := Some scheduledFor, n_UpdatedAt := now\<rparr>))) (\<lambda>saved.
     io_return (NewNotificationResponse saved)))))"

definition CancelNotification ::
  "('d, 'w) service_env \<Rightarrow> request_context \<Rightarrow> string \<Rightarrow> ('d, 'w, notification_response) service_io" where
  "CancelNotification E ctx notificationID =
     io_bind (io_lift (requireTenant ctx)) (\<lambda>runtimeCfg.
     io_bind (read_db (MustGetNotificationByID (env_notes E) (t_ID (rc_Tenant runtimeCfg)) notificationID)) (\<lambda>existing.
     if n_Status existing \<noteq> StatusQueued then io_fail ErrNotificationNotEditable
     else io_bind (time_Now E) (\<lambda>now.
     io_bind (with_db (SaveNotification (env_notes E)
                (existing\<lparr>n_Status := StatusCancelled, n_ScheduledFor := None, n_UpdatedAt := now\<rparr>))) (\<lambda>saved.
     io_return (NewNotificationResponse saved)))))"

subsection \<open>What operations leave alone\<close>

lemma on_world_Inr [io_success]:
  "on_world m s = (Inr x, s') \<longleftrightarrow> (\<exists>w. m (sst_world s) = (Inr x, w) \<and> s' = s\<lparr>sst_world := w\<rparr>)"
  by (auto simp: on_world_def split: prod.splits)

lemma with_db_Inr [io_success]:
  "with_db m s = (Inr x, s') \<longleftrightarrow> (\<exists>d. m (sst_db s) = (Inr x, d) \<and> s' = s\<lparr>sst_db := d\<rparr>)"
  by (auto simp: with_db_def split: prod.splits)

lemma with_db_Inl: "with_db m s = (Inl e, s') \<longleftrightarrow> (\<exists>d. m (sst_db s) = (Inl e, d) \<and> s' = s\<lparr>sst_db := d\<rparr>)"
  by (auto simp: with_db_def split: prod.splits)

lemma read_db_Inr [io_success]: "read_db m s = (Inr x, s') \<longleftrightarrow> m (sst_db s) = Inr x \<and> s' = s"
  by (auto simp: read_db_def)

lemma io_keeps_on_world [io_keeps_intros]:
  "(\<And>s w. f (s\<lparr>sst_world := w\<rparr>) = f s) \<Longrightarrow> io_keeps f (on_world m)"
  by (simp add: io_keeps_def on_world_def split: prod.splits)

lemma io_keeps_read_db [io_keeps_intros]: "io_keeps f (read_db m)"
  by (simp add: io_keeps_def read_db_def)

lemma io_keeps_time_Now [io_keeps_intros]:
  "(\<And>s w. f (s\<lparr>sst_world := w\<rparr>) = f s) \<Longrightarrow> io_keeps f (time_Now E)"
  by (simp add: time_Now_def io_keeps_on_world)

lemma io_keeps_case_sum [io_keeps_intros]:
  "(\<And>e. io_keeps f (g e)) \<Longrightarrow> (\<And>x. io_keeps f (h x)) \<Longrightarrow> io_keeps f (case r of Inl e \<Rightarrow> g e | Inr x \<Rightarrow> h x)"
  by (cases r) simp_all

lemma senders_keep [io_keeps_intros]:
  "io_keeps sst_db (emailSenderForTenant svc rc)" "io_keeps sst_db (smsSenderForTenant svc rc)"
  "io_keeps sst_world (emailSenderForTenant svc rc)" "io_keeps sst_world (smsSenderForTenant svc rc)"
  by (simp_all add: io_keeps_def emailSenderForTenant_def smsSenderForTenant_def Let_def split: option.splits)

lemma runtime_keeps [io_keeps_intros]:
  "io_keeps sst_db (runtimeForTenantID E svc ctx tid)" "io_keeps sst_world (runtimeForTenantID E svc ctx tid)"
  by (simp_all add: io_keeps_def runtimeForTenantID_def split: option.splits prod.splits)

lemma dispatch_keeps_db [io_keeps_intros]: "io_keeps sst_db (dispatchNow E svc rc req now n)"
  unfolding dispatchNow_def by (intro io_keeps_intros) simp_all

subsection \<open>Sending\<close>

text \<open>The call a sender makes for a request, and the senders a tenant's request may use.\<close>

definition send_call ::
  "('d, 'w) service_env \<Rightarrow> 'w email_sender + 'w sms_sender \<Rightarrow> notification_request \<Rightarrow> ('w, string) io" where
  "send_call E sender req =
     (case sender of
        Inl e \<Rightarrow> io_bind (sender_SendEmail E e (nr_recipient req) (nr_subject req) (nr_message req) (nr_attachments req))
                   (\<lambda>_. io_return '''')
      | Inr m \<Rightarrow> sender_SendSms E m (nr_recipient req) (nr_message req))"

definition sender_of ::
  "'w notification_service \<Rightarrow> runtime_config \<Rightarrow> ('d, 'w) service_state \<Rightarrow> string \<Rightarrow> ('w email_sender + 'w sms_sender) result" where
  "sender_of svc rc s kind =
     (if kind = NotificationEmail then map_sum id Inl (fst (emailSenderForTenant svc rc s))
      else if kind = NotificationSMS then map_sum id Inr (fst (smsSenderForTenant svc rc s))
      else Inl (ErrorsNew ''''))"

definition content :: "notification \<Rightarrow> string list \<times> time \<times> email_attachment list" where
  "content n = ([n_TenantID n, n_NotificationID n, n_NotificationType n, n_Recipient n, n_Subject n, n_Message n],
                n_CreatedAt n, ToEmailAttachments (n_Attachments n))"

definition stores_request :: "notification_request \<Rightarrow> notification \<Rightarrow> bool" where
  "stores_request req n \<longleftrightarrow>
     [n_NotificationType n, n_Recipient n, n_Subject n, n_Message n] =
       [nr_notificationType req, nr_recipient req, nr_subject req, nr_message req]
     \<and> ToEmailAttachments (n_Attachments n) = nr_attachments req \<and> n_ScheduledFor n = nr_scheduledFor req"

lemma same_note_fields:
  assumes "same_note n n'"
  shows "content n' = content n" "n_Status n' = n_Status n" "n_RetryCount n' = n_RetryCount n"
    "n_ScheduledFor n' = n_ScheduledFor n" "n_ProviderMessageID n' = n_ProviderMessageID n"
    "n_LastAttemptedAt n' = n_LastAttemptedAt n"
  using assms unfolding same_note_def content_def by (cases n; cases n'; simp)+

lemma dispatchNow_Inr:
  assumes "dispatchNow E svc rc req now n s = (Inr n', s')" "n_Status n = StatusQueued" "n_NotificationType n = nr_notificationType req"
    and "n_ProviderMessageID n = ''''"
  obtains (unsupported) "\<not> isSupportedNotificationType (nr_notificationType req)" "n' = n" "sst_world s' = sst_world s"
  | (accepted) sender pid where "sender_of svc rc s (nr_notificationType req) = Inr sender"
      "send_call E sender req (sst_world s) = (Inr pid, sst_world s')"
      "n' = n\<lparr>n_Status := StatusSent, n_ProviderMessageID := pid, n_LastAttemptedAt := now\<rparr>"
  | (refused) sender e where "sender_of svc rc s (nr_notificationType req) = Inr sender"
      "send_call E sender req (sst_world s) = (Inl e, sst_world s')"
      "n' = n\<lparr>n_Status := StatusErrored, n_LastAttemptedAt := now\<rparr>"
proof -
  consider (email) "n_NotificationType n = NotificationEmail" | (sms) "n_NotificationType n = NotificationSMS"
    "n_NotificationType n \<noteq> NotificationEmail" | (other) "n_NotificationType n \<notin> {NotificationEmail, NotificationSMS}" by blast
  then show thesis
  proof cases
    case email
    from assms(1) email obtain e s1 r s2 where e: "emailSenderForTenant svc rc s = (Inr e, s1)"
        "on_world (sender_SendEmail E e (nr_recipient req) (nr_subject req) (nr_message req) (nr_attachments req)) s1 = (r, s2)"
        "s' = s2" "n' = (case r of Inr _ \<Rightarrow> n\<lparr>n_Status := StatusSent, n_LastAttemptedAt := now\<rparr>
           | Inl _ \<Rightarrow> n\<lparr>n_Status := StatusErrored, n_LastAttemptedAt := now\<rparr>)"
      unfolding dispatchNow_def by (auto simp: io_success)
    have w: "sst_world s1 = sst_world s" by (rule io_keepsD[OF senders_keep(3) e(1)])
    have so: "sender_of svc rc s (nr_notificationType req) = Inr (Inl e)"
      using e(1) email assms(3) by (simp add: sender_of_def)
    have call: "sender_SendEmail E e (nr_recipient req) (nr_subject req) (nr_message req) (nr_attachments req) (sst_world s) = (r, sst_world s')"
      using e(2) w unfolding e(3) on_world_def by (auto split: prod.splits)
    show thesis
    proof (cases r)
      case (Inl x)
      with call so e(4) show thesis by (intro refused[of "Inl e" x]) (simp_all add: send_call_def io_bind_def)
    next
      case (Inr x)
      with call so e(4) assms(4) show thesis
        by (intro accepted[of "Inl e" "''''"]) (simp_all add: send_call_def io_bind_def io_return_def)
    qed
  next
    case sms
    from assms(1) sms obtain m s1 r s2 where m: "smsSenderForTenant svc rc s = (Inr m, s1)"
        "on_world (sender_SendSms E m (nr_recipient req) (nr_message req)) s1 = (r, s2)"
        "s' = s2" "n' = (case r of Inr pid \<Rightarrow> n\<lparr>n_Status := StatusSent, n_ProviderMessageID := pid, n_LastAttemptedAt := now\<rparr>
           | Inl _ \<Rightarrow> n\<lparr>n_Status := StatusErrored, n_LastAttemptedAt := now\<rparr>)"
      unfolding dispatchNow_def by (auto simp: io_success)
    have w: "sst_world s1 = sst_world s" by (rule io_keepsD[OF senders_keep(4) m(1)])
    have so: "sender_of svc rc s (nr_notificationType req) = Inr (Inr m)"
      using m(1) sms assms(3) by (simp add: sender_of_def)
    have call: "sender_SendSms E m (nr_recipient req) (nr_message req) (sst_world s) = (r, sst_world s')"
      using m(2) w unfolding m(3) on_world_def by (auto split: prod.splits)
    show thesis
    proof (cases r)
      case (Inl x)
      with call so m(4) show thesis by (intro refused[of "Inr m" x]) (simp_all add: send_call_def)
    next
      case (Inr x)
      with call so m(4) show thesis by (intro accepted[of "Inr m" x]) (simp_all add: send_call_def)
    qed
  next
    case other
    with assms(1,3) show thesis
      by (intro unsupported) (simp_all add: dispatchNow_def io_return_def isSupportedNotificationType_def)
  qed
qed

definition third_reading :: "('d, 'w) service_env \<Rightarrow> 'w \<Rightarrow> time \<times> 'w" where
  "third_reading E w = env_clock E (snd (env_clock E (snd (env_clock E w))))"

lemma sender_of_world [simp]: "sender_of svc rc (s\<lparr>sst_world := w\<rparr>) k = sender_of svc rc s k"
  by (simp add: sender_of_def emailSenderForTenant_def smsSenderForTenant_def Let_def split: option.splits)

lemma time_Now_eq: "time_Now E s = (Inr (fst (env_clock E (sst_world s))), s\<lparr>sst_world := snd (env_clock E (sst_world s))\<rparr>)"
  by (simp add: time_Now_def on_world_def io_pure_def split: prod.splits)

lemma bind_time_Now:
  "io_bind (time_Now E) f s = f (fst (env_clock E (sst_world s))) (s\<lparr>sst_world := snd (env_clock E (sst_world s))\<rparr>)"
  by (simp add: io_bind_def time_Now_eq)

lemma bind_lift: "io_bind (io_lift r) f s = (case r of Inl e \<Rightarrow> (Inl e, s) | Inr x \<Rightarrow> f x s)"
  by (simp add: io_bind_def io_lift_def split: sum.splits)

lemma bind_read_db: "io_bind (read_db m) f s = (case m (sst_db s) of Inl e \<Rightarrow> (Inl e, s) | Inr x \<Rightarrow> f x s)"
  by (simp add: io_bind_def read_db_def split: sum.splits)

text \<open>The run of \<open>SendNotification\<close> after the clock was read three times.\<close>

lemma SendNotification_unfold:
  obtains t1 t2 where "SendNotification E svc (Some rc) req s =
    (let (now, w) = third_reading E (sst_world s);
         n = NewNotification t2 (''notif-'' @ Itoa t1) (t_ID (rc_Tenant rc)) req in
     io_bind (if scheduledLater req now then io_return n else dispatchNow E svc rc req now n)
       (\<lambda>n'. io_bind (with_db (CreateNotification (env_notes E) n')) (\<lambda>stored. io_return (NewNotificationResponse stored)))
       (s\<lparr>sst_world := w\<rparr>))"
  by (rule that[of "fst (env_clock E (snd (env_clock E (sst_world s))))" "fst (env_clock E (sst_world s))"])
    (simp add: SendNotification_def requireTenant_def bind_lift bind_time_Now third_reading_def Let_def split_beta)

lemma NewNotification_stores:
  "stores_request req (NewNotification t i tid req)" "n_TenantID (NewNotification t i tid req) = tid"
  "n_RetryCount (NewNotification t i tid req) = 0" "n_Status (NewNotification t i tid req) = StatusQueued"
  "n_ProviderMessageID (NewNotification t i tid req) = ''''" "n_NotificationType (NewNotification t i tid req) = nr_notificationType req"
  by (simp_all add: stores_request_def NewNotification_def ToEmailAttachments_def convertEmailAttachments_def comp_def map_idI)

lemma stores_request_same:
  assumes "same_note n n'" "stores_request req n"
  shows "stores_request req n'" "n_TenantID n' = n_TenantID n"
  using same_note_fields(1,4)[OF assms(1)] assms(2) by (auto simp: stores_request_def content_def)

lemma created_row:
  assumes "create_law T rows n_ID same_note" "CreateNotification T n d = (Inr stored, d')"
  shows "rows d' = rows d @ [stored]" "same_note n stored"
  using assms unfolding create_law_def CreateNotification_def by blast+

subsection \<open>A service for the examples\<close>

text \<open>Notifications and tenants kept as lists, a clock that ticks at each reading, a sender that
  records what it sends.\<close>

type_synonym demo_db = "notification list \<times> tenant_store"
type_synonym demo_world = "time \<times> (string \<times> string) list"

definition table_on_snd :: "('b, 'r) gorm_table \<Rightarrow> ('a \<times> 'b, 'r) gorm_table" where
  "table_on_snd T =
     \<lparr>g_Create = (\<lambda>r d. apsnd (Pair (fst d)) (g_Create T r (snd d))), g_Save = (\<lambda>r d. apsnd (Pair (fst d)) (g_Save T r (snd d))),
      g_Find = (\<lambda>p le lim d. g_Find T p le lim (snd d)), g_First = (\<lambda>p d. g_First T p (snd d)),
      g_Updates = (\<lambda>p f d. apsnd (Pair (fst d)) (g_Updates T p f (snd d))),
      g_Delete = (\<lambda>p d. apsnd (Pair (fst d)) (g_Delete T p (snd d)))\<rparr>"

definition demo_tenants :: "demo_db tenant_db" where
  "demo_tenants =
     \<lparr>tb_tenants = table_on_snd (tb_tenants store_db), tb_domains = table_on_snd (tb_domains store_db),
      tb_admins = table_on_snd (tb_admins store_db), tb_emails = table_on_snd (tb_emails store_db),
      tb_sms = table_on_snd (tb_sms store_db),
      tb_FindJoinDomains = (\<lambda>p le d. tb_FindJoinDomains store_db p le (snd d)),
      tb_CountJoinAdmins = (\<lambda>p d. tb_CountJoinAdmins store_db p (snd d)),
      tb_UpsertTenant = (\<lambda>t d. apsnd (Pair (fst d)) (tb_UpsertTenant store_db t (snd d))),
      tb_CreateDomainDoNothing = (\<lambda>x d. apsnd (Pair (fst d)) (tb_CreateDomainDoNothing store_db x (snd d))),
      tb_Commit = (\<lambda>d. Inr ())\<rparr>"

definition demo_env :: "(demo_db, demo_world) service_env" where
  "demo_env =
     \<lparr>env_notes = list_table fst (\<lambda>rs d. (rs, snd d)) n_ID (\<lambda>k n. n\<lparr>n_ID := k\<rparr>),
      env_pendingJoin = (\<lambda>p d. Inr (concat (map (\<lambda>n. map (\<lambda>t. n) (filter (p n) (ts_tenants (snd d)))) (fst d)))),
      env_like = (\<lambda>_ _. True), env_codec = unary_codec, env_tenants = demo_tenants,
      env_aead = \<lparr>aead_Seal = (\<lambda>k n p. p), aead_Open = (\<lambda>k n c. Some c)\<rparr>, env_keeper = \<lparr>sk_key = ''''\<rparr>,
      env_clock = (\<lambda>(t, sent). (t, (t + 1, sent))),
      env_smtp = \<lparr>sa_call = (\<lambda>c w. (Inr (), w)), sa_extension = (\<lambda>_ _. False), sa_ctxErr = (\<lambda>_. None)\<rparr>,
      env_newRequest = (\<lambda>_. Inr ()), env_http = (\<lambda>t r w. (Inr (200, ''''), w))\<rparr>"

definition demo_service :: "demo_world notification_service" where
  "demo_service =
     \<lparr>ns_tenantRepo = True, ns_config = webDefaults (configurationOf demo_file),
      ns_defaultEmailSender = Some (CustomEmailSender (\<lambda>to' sub msg atts (t, sent). (Inr (), (t, sent @ [(to', msg)])))),
      ns_defaultSmsSender = None, ns_maxRetries = 3, ns_retryIntervalSec = 4\<rparr>"

definition demo_runtime :: runtime_config where
  "demo_runtime = (zero_runtime ''t1'')\<lparr>rc_Tenant := \<lparr>t_ID = ''t1'', t_DisplayName = ''T'', t_SupportEmail = '''',
     t_Status = ''active'', t_CreatedAt = 0, t_UpdatedAt = 0\<rparr>\<rparr>"

definition demo_state :: "notification list \<Rightarrow> (demo_db, demo_world) service_state" where
  "demo_state ns =
     \<lparr>sst_db = (ns, empty_store\<lparr>ts_tenants := [rc_Tenant demo_runtime]\<rparr>), sst_world = (5, []),
      sst_repo = NewRepository\<lparr>runtimeCache := [''t1'' \<mapsto> demo_runtime]\<rparr>,
      sst_emailSenders = Map.empty, sst_smsSenders = Map.empty\<rparr>"

definition demo_request :: notification_request where
  "demo_request = \<lparr>nr_notificationType = ''email'', nr_recipient = ''a@b.c'', nr_subject = ''s'', nr_message = ''m'',
     nr_scheduledFor = None, nr_attachments = []\<rparr>"

lemma demo_laws:
  "find_law (env_notes demo_env) fst" "first_law (env_notes demo_env) fst"
  "create_law (env_notes demo_env) fst n_ID same_note" "save_law (env_notes demo_env) fst n_ID same_note"
  unfolding demo_env_def service_env.simps by (rule list_table_laws; simp)+



lemma send_rows_on_failure:
  assumes "create_law (env_notes E) rows n_ID same_note"
    and "SendNotification E svc ctx req s = (Inl e, s')"
  shows "rows (sst_db s') = rows (sst_db s)"
proof (cases ctx)
  case None
  with assms(2) show ?thesis by (simp add: SendNotification_def requireTenant_def bind_lift)
next
  case (Some rc)
  obtain now w where tr: "third_reading E (sst_world s) = (now, w)" by fastforce
  obtain t1 t2 where u: "SendNotification E svc (Some rc) req s =
      (let (now, w) = third_reading E (sst_world s);
           n = NewNotification t2 (''notif-'' @ Itoa t1) (t_ID (rc_Tenant rc)) req in
       io_bind (if scheduledLater req now then io_return n else dispatchNow E svc rc req now n)
         (\<lambda>n'. io_bind (with_db (CreateNotification (env_notes E) n')) (\<lambda>stored. io_return (NewNotificationResponse stored)))
         (s\<lparr>sst_world := w\<rparr>))"
    by (rule SendNotification_unfold)
  define n0 where "n0 = NewNotification t2 (''notif-'' @ Itoa t1) (t_ID (rc_Tenant rc)) req"
  let ?m = "if scheduledLater req now then io_return n0 else dispatchNow E svc rc req now n0"
  have k: "io_keeps sst_db ?m" by (intro io_keeps_intros)
  from assms(2)[unfolded Some u tr Let_def prod.case n0_def[symmetric]]
  consider (dispatch) "?m (s\<lparr>sst_world := w\<rparr>) = (Inl e, s')"
    | (create) n1 s1 where "?m (s\<lparr>sst_world := w\<rparr>) = (Inr n1, s1)"
        "with_db (CreateNotification (env_notes E) n1) s1 = (Inl e, s')"
    by (auto simp: io_bind_Inl)
  then show ?thesis
  proof cases
    case dispatch
    from io_keepsD[OF k dispatch] show ?thesis by simp
  next
    case create
    from io_keepsD[OF k create(1)] have "sst_db s1 = sst_db s" by simp
    moreover from create(2) obtain d where "g_Create (env_notes E) n1 (sst_db s1) = (Inl e, d)" "s' = s1\<lparr>sst_db := d\<rparr>"
      by (auto simp: with_db_Inl CreateNotification_def)
    ultimately show ?thesis using assms(1) unfolding create_law_def by simp
  qed
qed

text \<open>C25. A \<open>SendNotification\<close> that fails stores nothing: no tenant, no sender for the type, or a
  refused insert leave the notifications as they were.\<close>

theorem send_failure_stores_nothing:
  assumes "create_law (env_notes E) rows n_ID same_note"
    and "SendNotification E svc ctx req s = (Inl e, s')"
  shows "rows (sst_db s') = rows (sst_db s)"
  by (rule send_rows_on_failure[OF assms])

theorem send_failure_stores_nothing_witness:
  "fst (sst_db (snd (SendNotification demo_env demo_service (Some demo_runtime)
     (demo_request\<lparr>nr_notificationType := ''sms''\<rparr>) (demo_state [])))) = []"
proof -
  let ?run = "SendNotification demo_env demo_service (Some demo_runtime) (demo_request\<lparr>nr_notificationType := ''sms''\<rparr>) (demo_state [])"
  have "\<not> is_ok (fst ?run)" by code_simp
  then obtain e where "?run = (Inl e, snd ?run)" by (cases "fst ?run") (auto simp: prod_eq_iff)
  from send_failure_stores_nothing[OF demo_laws(3) this] show ?thesis by (simp add: demo_state_def)
qed

subsection \<open>Editing\<close>

text \<open>Rescheduling and cancelling differ only in the fields they set.\<close>

definition edit_queued ::
  "('d, 'w) service_env \<Rightarrow> request_context \<Rightarrow> string \<Rightarrow> (time \<Rightarrow> notification \<Rightarrow> notification) \<Rightarrow> ('d, 'w, notification_response) service_io" where
  "edit_queued E ctx nid f =
     io_bind (io_lift (requireTenant ctx)) (\<lambda>rc.
     io_bind (read_db (MustGetNotificationByID (env_notes E) (t_ID (rc_Tenant rc)) nid)) (\<lambda>n.
     if n_Status n \<noteq> StatusQueued then io_fail ErrNotificationNotEditable
     else io_bind (time_Now E) (\<lambda>now.
     io_bind (with_db (SaveNotification (env_notes E) (f now n))) (\<lambda>saved. io_return (NewNotificationResponse saved)))))"

lemma edits:
  "RescheduleNotification E ctx nid t = edit_queued E ctx nid (\<lambda>now n. n\<lparr>n_ScheduledFor := Some t, n_UpdatedAt := now\<rparr>)"
  "CancelNotification E ctx nid =
     edit_queued E ctx nid (\<lambda>now n. n\<lparr>n_Status := StatusCancelled, n_ScheduledFor := None, n_UpdatedAt := now\<rparr>)"
  by (simp_all add: RescheduleNotification_def CancelNotification_def edit_queued_def)

definition replace_row :: "notification \<Rightarrow> notification list \<Rightarrow> notification list" where
  "replace_row n' rs = map (\<lambda>x. if n_ID x = n_ID n' then n' else x) rs"

lemma found_row:
  assumes "first_law T rows" "MustGetNotificationByID T tid nid d = Inr n"
  shows "n \<in> set (rows d)" "where_field tid (n_TenantID n)" "where_field nid (n_NotificationID n)"
proof -
  from assms(2) have "GetNotificationByID T tid nid d = Inr n"
    by (simp add: MustGetNotificationByID_def split: sum.splits if_splits)
  with assms(1) show "n \<in> set (rows d)" "where_field tid (n_TenantID n)" "where_field nid (n_NotificationID n)"
    unfolding GetNotificationByID_def first_law_def by blast+
qed

lemma saved_row:
  assumes "save_law T rows n_ID same_note" "SaveNotification T n d = (Inr n', d')" "n_ID n \<in> n_ID ` set (rows d)"
  shows "rows d' = replace_row n' (rows d)" "same_note n n'" "n_ID n' = n_ID n"
proof -
  from assms have "rows d' = map (\<lambda>x. if n_ID x = n_ID n then n' else x) (rows d) \<and> same_note n n' \<and> n_ID n' = n_ID n"
    unfolding save_law_def SaveNotification_def by blast
  then show "rows d' = replace_row n' (rows d)" "same_note n n'" "n_ID n' = n_ID n" by (simp_all add: replace_row_def)
qed

text \<open>The contract of an edit: it replaces one queued row of the tenant, or changes nothing.\<close>

definition edits_queued_row ::
  "notification list \<Rightarrow> string \<Rightarrow> string \<Rightarrow> (notification \<Rightarrow> bool) \<Rightarrow> notification_response result \<Rightarrow> notification list \<Rightarrow> bool" where
  "edits_queued_row rs tid nid done' r rs' \<longleftrightarrow>
     (case r of
        Inl e \<Rightarrow> rs' = rs
      | Inr resp \<Rightarrow> (\<exists>n n'. n \<in> set rs \<and> n_TenantID n = tid \<and> n_NotificationID n = nid \<and> n_Status n = StatusQueued
            \<and> n_ID n' = n_ID n \<and> content n' = content n \<and> done' n' \<and> rs' = replace_row n' rs \<and> resp = NewNotificationResponse n'))"

lemma edit_queued_row:
  assumes laws: "first_law (env_notes E) rows" "save_law (env_notes E) rows n_ID same_note"
    and f: "\<And>now n. n_ID (f now n) = n_ID n"
    and run: "edit_queued E (Some rc) nid f s = (r, s')"
  obtains (unchanged) e where "r = Inl e" "rows (sst_db s') = rows (sst_db s)"
  | (replaced) n n' now where "n \<in> set (rows (sst_db s))" "where_field (t_ID (rc_Tenant rc)) (n_TenantID n)"
      "where_field nid (n_NotificationID n)" "n_Status n = StatusQueued" "same_note (f now n) n'" "n_ID n' = n_ID n"
      "rows (sst_db s') = replace_row n' (rows (sst_db s))" "r = Inr (NewNotificationResponse n')"
proof (cases "MustGetNotificationByID (env_notes E) (t_ID (rc_Tenant rc)) nid (sst_db s)")
  case (Inl e)
  with run show thesis by (intro unchanged[of e]) (auto simp: edit_queued_def requireTenant_def bind_lift bind_read_db)
next
  case (Inr n)
  note fr = found_row[OF laws(1) Inr]
  let ?s = "s\<lparr>sst_world := snd (env_clock E (sst_world s))\<rparr>" and ?n = "f (fst (env_clock E (sst_world s))) n"
  show thesis
  proof (cases "n_Status n = StatusQueued")
    case False
    with run Inr show thesis
      by (intro unchanged[of ErrNotificationNotEditable]) (auto simp: edit_queued_def requireTenant_def bind_lift bind_read_db io_fail_def)
  next
    case True
    obtain q d where q: "SaveNotification (env_notes E) ?n (sst_db s) = (q, d)" by fastforce
    have run': "(r, s') = (map_sum id NewNotificationResponse q, ?s\<lparr>sst_db := d\<rparr>)"
      using run Inr True q
      by (cases q) (auto simp: edit_queued_def requireTenant_def bind_lift bind_read_db bind_time_Now
          io_bind_def[of "with_db _"] with_db_def io_return_def)
    show thesis
    proof (cases q)
      case (Inl e)
      with q laws(2) have "rows d = rows (sst_db s)" unfolding save_law_def SaveNotification_def by blast
      with Inl run' show thesis by (intro unchanged[of e]) simp_all
    next
      case (Inr n')
      have "n_ID ?n \<in> n_ID ` set (rows (sst_db s))" using fr(1) f by simp
      note sr = saved_row[OF laws(2) q[unfolded Inr] this]
      show thesis
        by (rule replaced[OF fr True sr(2)]) (use sr(1,3) Inr run' f in simp_all)
    qed
  qed
qed

lemma edit_queued_contract:
  assumes laws: "first_law (env_notes E) rows" "save_law (env_notes E) rows n_ID same_note"
    and f: "\<And>now n. n_ID (f now n) = n_ID n" "\<And>now n. content (f now n) = content n"
      "\<And>now n n'. n_Status n = StatusQueued \<Longrightarrow> same_note (f now n) n' \<Longrightarrow> done' n'"
    and ids: "t_ID (rc_Tenant rc) \<noteq> ''''" "nid \<noteq> ''''"
    and run: "edit_queued E (Some rc) nid f s = (r, s')"
  shows "edits_queued_row (rows (sst_db s)) (t_ID (rc_Tenant rc)) nid done' r (rows (sst_db s'))"
proof (rule edit_queued_row[OF laws f(1) run])
  fix n n' now
  assume h: "n \<in> set (rows (sst_db s))" "where_field (t_ID (rc_Tenant rc)) (n_TenantID n)" "where_field nid (n_NotificationID n)"
    "n_Status n = StatusQueued" "same_note (f now n) n'" "n_ID n' = n_ID n"
    "rows (sst_db s') = replace_row n' (rows (sst_db s))" "r = Inr (NewNotificationResponse n')"
  have "n \<in> set (rows (sst_db s)) \<and> n_TenantID n = t_ID (rc_Tenant rc) \<and> n_NotificationID n = nid \<and> n_Status n = StatusQueued
      \<and> n_ID n' = n_ID n \<and> content n' = content n \<and> done' n' \<and> rows (sst_db s') = replace_row n' (rows (sst_db s))"
    using h ids f(2) same_note_fields(1)[OF h(5)] f(3)[OF h(4,5)] by (simp add: where_field_def)
  then show ?thesis unfolding h(8) edits_queued_row_def sum.case by blast
qed (simp add: edits_queued_row_def)

text \<open>C14. \<open>CancelNotification\<close> touches only a queued notification of the calling tenant with the
  given identifier: that row becomes cancelled and unscheduled with its content unchanged, every
  other row stays as it is, and on any error, a notification that is not queued included, nothing
  changes.\<close>

theorem cancel_only_queued:
  assumes "first_law (env_notes E) rows" "save_law (env_notes E) rows n_ID same_note"
    and "t_ID (rc_Tenant rc) \<noteq> ''''" "nid \<noteq> ''''"
    and "CancelNotification E (Some rc) nid s = (r, s')"
  shows "edits_queued_row (rows (sst_db s)) (t_ID (rc_Tenant rc)) nid
    (\<lambda>n'. n_Status n' = StatusCancelled \<and> n_ScheduledFor n' = None) r (rows (sst_db s'))"
  by (rule edit_queued_contract[OF assms(1,2) _ _ _ assms(3,4) assms(5)[unfolded edits]])
    (auto simp: content_def dest: same_note_fields(2,4))

theorem cancel_only_queued_witness:
  "edits_queued_row [demo_note 1 ''t1'' 5] ''t1'' ''n1'' (\<lambda>n'. n_Status n' = StatusCancelled \<and> n_ScheduledFor n' = None)
     (fst (CancelNotification demo_env (Some demo_runtime) ''n1'' (demo_state [demo_note 1 ''t1'' 5])))
     (fst (sst_db (snd (CancelNotification demo_env (Some demo_runtime) ''n1'' (demo_state [demo_note 1 ''t1'' 5])))))
   \<and> is_ok (fst (CancelNotification demo_env (Some demo_runtime) ''n1'' (demo_state [demo_note 1 ''t1'' 5])))"
proof
  show "edits_queued_row [demo_note 1 ''t1'' 5] ''t1'' ''n1'' (\<lambda>n'. n_Status n' = StatusCancelled \<and> n_ScheduledFor n' = None)
     (fst (CancelNotification demo_env (Some demo_runtime) ''n1'' (demo_state [demo_note 1 ''t1'' 5])))
     (fst (sst_db (snd (CancelNotification demo_env (Some demo_runtime) ''n1'' (demo_state [demo_note 1 ''t1'' 5])))))"
    using cancel_only_queued[OF demo_laws(2,4), of demo_runtime "''n1''" "demo_state [demo_note 1 ''t1'' 5]"]
    by (simp add: demo_runtime_def demo_state_def)
  show "is_ok (fst (CancelNotification demo_env (Some demo_runtime) ''n1'' (demo_state [demo_note 1 ''t1'' 5])))" by code_simp
qed

text \<open>C24. \<open>RescheduleNotification\<close> likewise touches only a queued notification of the calling
  tenant with the given identifier: it stays queued, with the new time and its content unchanged.\<close>

theorem reschedule_only_queued:
  assumes "first_law (env_notes E) rows" "save_law (env_notes E) rows n_ID same_note"
    and "t_ID (rc_Tenant rc) \<noteq> ''''" "nid \<noteq> ''''"
    and "RescheduleNotification E (Some rc) nid t s = (r, s')"
  shows "edits_queued_row (rows (sst_db s)) (t_ID (rc_Tenant rc)) nid
    (\<lambda>n'. n_Status n' = StatusQueued \<and> n_ScheduledFor n' = Some t) r (rows (sst_db s'))"
  by (rule edit_queued_contract[OF assms(1,2) _ _ _ assms(3,4) assms(5)[unfolded edits]])
    (auto simp: content_def dest: same_note_fields(2,4))

theorem reschedule_only_queued_witness:
  "edits_queued_row [demo_note 1 ''t1'' 5] ''t1'' ''n1'' (\<lambda>n'. n_Status n' = StatusQueued \<and> n_ScheduledFor n' = Some 9)
     (fst (RescheduleNotification demo_env (Some demo_runtime) ''n1'' 9 (demo_state [demo_note 1 ''t1'' 5])))
     (fst (sst_db (snd (RescheduleNotification demo_env (Some demo_runtime) ''n1'' 9 (demo_state [demo_note 1 ''t1'' 5])))))
   \<and> is_ok (fst (RescheduleNotification demo_env (Some demo_runtime) ''n1'' 9 (demo_state [demo_note 1 ''t1'' 5])))"
proof
  show "edits_queued_row [demo_note 1 ''t1'' 5] ''t1'' ''n1'' (\<lambda>n'. n_Status n' = StatusQueued \<and> n_ScheduledFor n' = Some 9)
     (fst (RescheduleNotification demo_env (Some demo_runtime) ''n1'' 9 (demo_state [demo_note 1 ''t1'' 5])))
     (fst (sst_db (snd (RescheduleNotification demo_env (Some demo_runtime) ''n1'' 9 (demo_state [demo_note 1 ''t1'' 5])))))"
    using reschedule_only_queued[OF demo_laws(2,4), of demo_runtime "''n1''" 9 "demo_state [demo_note 1 ''t1'' 5]"]
    by (simp add: demo_runtime_def demo_state_def)
  show "is_ok (fst (RescheduleNotification demo_env (Some demo_runtime) ''n1'' 9 (demo_state [demo_note 1 ''t1'' 5])))" by code_simp
qed

end
