(* ===== verification/Notification_Retry.thy ===== *)
theory Notification_Retry
  imports Notification_Service
begin

text \<open>
  The store and the dispatcher of the retry worker (\<open>internal/service/notification_retry.go\<close>). The
  scheduler that drives them is a library; the model has what it is given (the store, the
  dispatcher, its configuration), and the properties quantify over the calls it may make.
\<close>

subsection \<open>Retries\<close>

datatype job_payload = PayloadNil | PayloadNotification "notification option" | PayloadOther

record job =
  job_ID :: string
  job_ScheduledFor :: "time option"
  job_RetryCount :: int
  job_LastAttemptedAt :: time
  job_Payload :: job_payload

record attempt_update =
  au_Status :: string
  au_ProviderMessageID :: string
  au_RetryCount :: int
  au_LastAttemptedAt :: time

record dispatch_result =
  dr_Status :: string
  dr_ProviderMessageID :: string

record scheduler_config =
  sch_Interval :: duration
  sch_MaxRetries :: int
  sch_SuccessStatus :: string
  sch_FailureStatus :: string

definition retryWorkerConfig :: "'w notification_service \<Rightarrow> scheduler_config" where
  "retryWorkerConfig svc =
     \<lparr>sch_Interval = ns_retryIntervalSec svc * second, sch_MaxRetries = ns_maxRetries svc,
      sch_SuccessStatus = StatusSent, sch_FailureStatus = StatusErrored\<rparr>"

definition pendingJobsFilter :: "int \<Rightarrow> time \<Rightarrow> notification \<Rightarrow> bool" where
  "pendingJobsFilter maxRetries currentTime n \<longleftrightarrow>
     n_Status n \<in> {StatusQueued, StatusErrored} \<and> n_RetryCount n < maxRetries
     \<and> (case n_ScheduledFor n of None \<Rightarrow> True | Some t \<Rightarrow> t \<le> currentTime)"

definition jobsFromNotifications :: "notification list \<Rightarrow> job list" where
  "jobsFromNotifications records =
     map (\<lambda>record. \<lparr>job_ID = n_NotificationID record, job_ScheduledFor = n_ScheduledFor record,
            job_RetryCount = n_RetryCount record, job_LastAttemptedAt = n_LastAttemptedAt record,
            job_Payload = PayloadNotification (Some record)\<rparr>) records"

definition activeTenantJoinClause :: "notification \<Rightarrow> tenant \<Rightarrow> bool" where
  "activeTenantJoinClause n t \<longleftrightarrow> t_ID t = n_TenantID n"

definition pendingJobsForActiveTenants ::
  "('d, 'w) service_env \<Rightarrow> int \<Rightarrow> time \<Rightarrow> 'd \<Rightarrow> job list result" where
  "pendingJobsForActiveTenants E maxRetries now d =
     (case env_pendingJoin E (\<lambda>n t. activeTenantJoinClause n t \<and> t_Status t = TenantStatusActive
                                   \<and> pendingJobsFilter maxRetries now n) d of
        Inl e \<Rightarrow> Inl e
      | Inr notifications \<Rightarrow> Inr (jobsFromNotifications notifications))"

definition pendingJobsAll :: "('d, 'w) service_env \<Rightarrow> int \<Rightarrow> time \<Rightarrow> 'd \<Rightarrow> job list result" where
  "pendingJobsAll E maxRetries now d =
     (case g_Find (env_notes E) (pendingJobsFilter maxRetries now) any_order None d of
        Inl e \<Rightarrow> Inl e
      | Inr notifications \<Rightarrow> Inr (jobsFromNotifications notifications))"

definition PendingJobs ::
  "('d, 'w) service_env \<Rightarrow> bool \<Rightarrow> int \<Rightarrow> time \<Rightarrow> 'd \<Rightarrow> job list result" where
  "PendingJobs E tenantRepo maxRetries now d =
     (if \<not> tenantRepo then pendingJobsAll E maxRetries now d
      else pendingJobsForActiveTenants E maxRetries now d)"

definition notificationFromJob :: "job \<Rightarrow> notification option result" where
  "notificationFromJob job =
     (case job_Payload job of
        PayloadNil \<Rightarrow> Inl (ErrorsNew (''missing notification payload for job '' @ job_ID job))
      | PayloadOther \<Rightarrow> Inl (ErrorsNew (''invalid notification payload type for job '' @ job_ID job))
      | PayloadNotification record \<Rightarrow> Inr record)"

text \<open>\<open>attempted\<close> is the payload after the assignments of \<open>ApplyAttemptResult\<close>, which go through the
  job's pointer.\<close>

definition attempted :: "attempt_update \<Rightarrow> notification \<Rightarrow> notification" where
  "attempted update record =
     (let canonicalStatus = CanonicalStatus (au_Status update);
          status = (if canonicalStatus = '''' then StatusErrored else canonicalStatus) in
      record\<lparr>n_Status := status, n_ProviderMessageID := au_ProviderMessageID update,
             n_RetryCount := au_RetryCount update, n_LastAttemptedAt := au_LastAttemptedAt update,
             n_UpdatedAt := au_LastAttemptedAt update\<rparr>)"

definition ApplyAttemptResult ::
  "('d, 'w) service_env \<Rightarrow> job \<Rightarrow> attempt_update \<Rightarrow> ('d, 'w, notification) service_io" where
  "ApplyAttemptResult E job update =
     io_bind (io_lift (notificationFromJob job)) (\<lambda>record.
       case record of
         None \<Rightarrow> io_fail (External ''panic: nil pointer dereference'')
       | Some n \<Rightarrow> with_db (SaveNotification (env_notes E) (attempted update n)))"

definition recordFromJob :: "job \<Rightarrow> notification result" where
  "recordFromJob job =
     (case job_Payload job of
        PayloadNotification (Some record) \<Rightarrow> Inr record
      | _ \<Rightarrow> Inl (ErrorsNew ''notification payload missing from job''))"

definition failed_dispatch :: "string \<Rightarrow> go_error \<Rightarrow> dispatch_result \<times> go_error option" where
  "failed_dispatch status e = (\<lparr>dr_Status = status, dr_ProviderMessageID = ''''\<rparr>, Some e)"

text \<open>\<open>Attempt\<close> returns a result and an error at once, so it never fails in the sense of \<open>io\<close>.\<close>

definition Attempt ::
  "('d, 'w) service_env \<Rightarrow> 'w notification_service \<Rightarrow> request_context \<Rightarrow> job
   \<Rightarrow> ('d, 'w, dispatch_result \<times> go_error option) service_io" where
  "Attempt E svc ctx job =
     (case recordFromJob job of
        Inl e \<Rightarrow> io_return (failed_dispatch '''' e)
      | Inr record \<Rightarrow>
     io_bind (io_try (runtimeForTenantID E svc ctx (n_TenantID record))) (\<lambda>runtime.
     case runtime of
       Inl runtimeErr \<Rightarrow> io_return (failed_dispatch StatusErrored runtimeErr)
     | Inr runtimeCfg \<Rightarrow>
     if n_NotificationType record = NotificationEmail then
       io_bind (io_try (emailSenderForTenant svc runtimeCfg)) (\<lambda>sender.
         case sender of
           Inl senderErr \<Rightarrow> io_return (failed_dispatch StatusErrored senderErr)
         | Inr emailSender \<Rightarrow>
             io_bind (io_try (on_world (sender_SendEmail E emailSender (n_Recipient record) (n_Subject record)
                        (n_Message record) (ToEmailAttachments (n_Attachments record))))) (\<lambda>sent.
               case sent of
                 Inl sendErr \<Rightarrow> io_return (failed_dispatch '''' sendErr)
               | Inr _ \<Rightarrow> io_return (\<lparr>dr_Status = StatusSent, dr_ProviderMessageID = ''''\<rparr>, None)))
     else if n_NotificationType record = NotificationSMS then
       io_bind (io_try (smsSenderForTenant svc runtimeCfg)) (\<lambda>sender.
         case sender of
           Inl senderErr \<Rightarrow> io_return (failed_dispatch StatusErrored senderErr)
         | Inr smsSender \<Rightarrow>
             io_bind (io_try (on_world (sender_SendSms E smsSender (n_Recipient record) (n_Message record)))) (\<lambda>sent.
               case sent of
                 Inl sendErr \<Rightarrow> io_return (failed_dispatch '''' sendErr)
               | Inr providerMessageID \<Rightarrow>
                   io_return (\<lparr>dr_Status = StatusSent, dr_ProviderMessageID = providerMessageID\<rparr>, None)))
     else io_return (failed_dispatch StatusErrored (ErrorsNew (''unsupported notification type: '' @ n_NotificationType record)))))"

lemma Attempt_keeps_db: "io_keeps sst_db (Attempt E svc ctx job)"
  unfolding Attempt_def by (intro io_keeps_intros) simp_all

subsection \<open>Pending jobs\<close>

definition pending_join_law ::
  "('d, 'w) service_env \<Rightarrow> ('d \<Rightarrow> notification list) \<Rightarrow> ('d \<Rightarrow> tenant list) \<Rightarrow> bool" where
  "pending_join_law E rows tens \<longleftrightarrow>
     (\<forall>p d rs. env_pendingJoin E p d = Inr rs \<longrightarrow>
        mset rs = mset (concat (map (\<lambda>n. map (\<lambda>t. n) (filter (p n) (tens d))) (rows d))))"

definition tenant_active :: "tenant list \<Rightarrow> string \<Rightarrow> bool" where
  "tenant_active ts tid \<longleftrightarrow> list_ex (\<lambda>t. t_ID t = tid \<and> t_Status t = TenantStatusActive) ts"

definition due :: "bool \<Rightarrow> tenant list \<Rightarrow> int \<Rightarrow> time \<Rightarrow> notification \<Rightarrow> bool" where
  "due tenantRepo ts maxRetries now n \<longleftrightarrow>
     (n_Status n = ''queued'' \<or> n_Status n = ''errored'') \<and> n_RetryCount n < maxRetries
     \<and> (case n_ScheduledFor n of None \<Rightarrow> True | Some t \<Rightarrow> \<not> now < t)
     \<and> (tenantRepo \<longrightarrow> tenant_active ts (n_TenantID n))"

lemma due_filter:
  "due tenantRepo ts maxRetries now n \<longleftrightarrow>
     pendingJobsFilter maxRetries now n \<and> (\<not> tenantRepo \<or> tenant_active ts (n_TenantID n))"
  by (auto simp: due_def pendingJobsFilter_def StatusQueued_def StatusErrored_def split: option.splits)

lemma join_at_most_once:
  assumes "distinct (map t_ID ts)"
  shows "map (\<lambda>t. x) (filter (\<lambda>t. t_ID t = tid \<and> t_Status t = TenantStatusActive \<and> P) ts) = (if P \<and> tenant_active ts tid then [x] else [])"
  using assms
proof (induction ts)
  case Nil
  then show ?case by (simp add: tenant_active_def)
next
  case (Cons t ts)
  show ?case
  proof (cases "t_ID t = tid")
    case True
    have u: "t_ID u \<noteq> tid" if "u \<in> set ts" for u
      using imageI[OF that, of t_ID] Cons.prems True by auto
    then have "filter (\<lambda>u. t_ID u = tid \<and> t_Status u = TenantStatusActive \<and> P) ts = []"
      unfolding filter_empty_conv by blast
    moreover have "\<not> tenant_active ts tid" using u by (auto simp: tenant_active_def list_ex_iff)
    ultimately show ?thesis using True by (cases P) (simp_all add: tenant_active_def)
  next
    case False
    with Cons show ?thesis by (simp add: tenant_active_def)
  qed
qed

lemma concat_map_if: "concat (map (\<lambda>x. if P x then [x] else []) xs) = filter P xs"
  by (induction xs) auto

lemma payloads_of_jobs: "map job_Payload (jobsFromNotifications rs) = map (\<lambda>n. PayloadNotification (Some n)) rs"
  by (simp add: jobsFromNotifications_def)

lemma PendingJobs_rows:
  assumes "find_law (env_notes E) rows" "pending_join_law E rows tens" "distinct (map t_ID (tens d))"
    and "PendingJobs E tenantRepo maxRetries now d = Inr jobs"
  obtains rs where "jobs = jobsFromNotifications rs" "mset rs = mset (filter (due tenantRepo (tens d) maxRetries now) (rows d))"
proof (cases tenantRepo)
  case True
  with assms(4) obtain rs where rs: "env_pendingJoin E (\<lambda>n t. activeTenantJoinClause n t \<and> t_Status t = TenantStatusActive
        \<and> pendingJobsFilter maxRetries now n) d = Inr rs" "jobs = jobsFromNotifications rs"
    by (auto simp: PendingJobs_def pendingJobsForActiveTenants_def split: sum.splits)
  have "mset rs = mset (concat (map (\<lambda>n. map (\<lambda>t. n) (filter (\<lambda>t. t_ID t = n_TenantID n \<and> t_Status t = TenantStatusActive
        \<and> pendingJobsFilter maxRetries now n) (tens d))) (rows d)))"
    using assms(2) rs(1) unfolding pending_join_law_def activeTenantJoinClause_def by blast
  then have "mset rs = mset (filter (due tenantRepo (tens d) maxRetries now) (rows d))"
    unfolding join_at_most_once[OF assms(3)] concat_map_if due_filter using True by simp
  with rs(2) that show thesis by blast
next
  case False
  with assms(4) obtain rs where rs: "g_Find (env_notes E) (pendingJobsFilter maxRetries now) any_order None d = Inr rs"
      "jobs = jobsFromNotifications rs"
    by (auto simp: PendingJobs_def pendingJobsAll_def split: sum.splits)
  from assms(1) rs(1) obtain ys where "mset ys = mset (filter (pendingJobsFilter maxRetries now) (rows d))" "rs = take_limit None ys"
    unfolding find_law_def using any_order_total by blast
  then have "mset rs = mset (filter (due tenantRepo (tens d) maxRetries now) (rows d))"
    using False by (simp add: take_limit_def due_filter[abs_def])
  with rs(2) that show thesis by blast
qed

lemma PendingJobs_subset:
  assumes "find_law (env_notes E) rows" "pending_join_law E rows tens" "PendingJobs E tenantRepo maxRetries now d = Inr jobs"
  shows "\<exists>rs. jobs = jobsFromNotifications rs \<and> set rs \<subseteq> set (rows d)"
proof (cases tenantRepo)
  case True
  with assms(3) obtain p rs where rs: "env_pendingJoin E p d = Inr rs" "jobs = jobsFromNotifications rs"
    by (auto simp: PendingJobs_def pendingJobsForActiveTenants_def split: sum.splits)
  with assms(2) have "mset rs = mset (concat (map (\<lambda>n. map (\<lambda>t. n) (filter (p n) (tens d))) (rows d)))"
    unfolding pending_join_law_def by blast
  then have "set rs = set (concat (map (\<lambda>n. map (\<lambda>t. n) (filter (p n) (tens d))) (rows d)))" by (metis set_mset_mset)
  with rs(2) show ?thesis by auto
next
  case False
  with assms(3) obtain rs where rs: "g_Find (env_notes E) (pendingJobsFilter maxRetries now) any_order None d = Inr rs"
      "jobs = jobsFromNotifications rs"
    by (auto simp: PendingJobs_def pendingJobsAll_def split: sum.splits)
  with find_set[OF assms(1) any_order_total rs(1)] show ?thesis by blast
qed

text \<open>C22. The retry worker is given exactly the notifications that are due, each once: queued or
  errored, below the retry limit, with no future schedule, and, when tenants are managed, of an
  active tenant.\<close>

theorem pending_jobs_exact:
  assumes "find_law (env_notes E) rows" "pending_join_law E rows tens" "distinct (map t_ID (tens d))"
    and "PendingJobs E tenantRepo maxRetries now d = Inr jobs"
  shows "mset (map job_Payload jobs) =
    mset (map (\<lambda>n. PayloadNotification (Some n)) (filter (due tenantRepo (tens d) maxRetries now) (rows d)))"
  by (rule PendingJobs_rows[OF assms]) (simp only: payloads_of_jobs mset_map)

subsection \<open>Executions\<close>

definition known_status :: "notification \<Rightarrow> bool" where
  "known_status n \<longleftrightarrow> CanonicalStatus (n_Status n) \<noteq> ''''"

lemma known_status_simps:
  "known_status n \<longleftrightarrow> n_Status n \<in> {StatusQueued, StatusSent, StatusErrored, StatusCancelled, StatusUnknown}"
  by (auto simp: known_status_def CanonicalStatus_def StatusQueued_def StatusSent_def StatusErrored_def
      StatusCancelled_def StatusUnknown_def)

text \<open>
  An execution interleaves requests of any tenant with calls of the scheduler. The scheduler may
  poll at any time, attempt any job it was given and report any result for it, late or repeatedly;
  reporting changes the job's notification through the pointer both share.
\<close>

definition reported :: "attempt_update \<Rightarrow> notification result \<Rightarrow> job \<Rightarrow> job" where
  "reported update r job =
     (case r of
        Inr n \<Rightarrow> job\<lparr>job_Payload := PayloadNotification (Some n)\<rparr>
      | Inl e \<Rightarrow> (case job_Payload job of
            PayloadNotification (Some n) \<Rightarrow> job\<lparr>job_Payload := PayloadNotification (Some (attempted update n))\<rparr>
          | _ \<Rightarrow> job))"

inductive service_step ::
  "('d, 'w) service_env \<Rightarrow> 'w notification_service \<Rightarrow> ('d, 'w) service_state \<times> job set \<Rightarrow> ('d, 'w) service_state \<times> job set \<Rightarrow> bool"
  for E :: "('d, 'w) service_env" and svc :: "'w notification_service" where
  send: "SendNotification E svc ctx req s = (r, s') \<Longrightarrow> service_step E svc (s, J) (s', J)"
| reschedule: "RescheduleNotification E ctx nid t s = (r, s') \<Longrightarrow> service_step E svc (s, J) (s', J)"
| cancel: "CancelNotification E ctx nid s = (r, s') \<Longrightarrow> service_step E svc (s, J) (s', J)"
| poll: "PendingJobs E (ns_tenantRepo svc) (ns_maxRetries svc) now (sst_db s) = Inr jobs \<Longrightarrow> service_step E svc (s, J) (s, J \<union> set jobs)"
| attempt: "job \<in> J \<Longrightarrow> Attempt E svc ctx job s = (r, s') \<Longrightarrow> service_step E svc (s, J) (s', J)"
| report: "job \<in> J \<Longrightarrow> ApplyAttemptResult E job update s = (r, s') \<Longrightarrow>
    service_step E svc (s, J) (s', insert (reported update r job) J)"

definition holds_row :: "notification list \<Rightarrow> notification \<Rightarrow> bool" where
  "holds_row rs n \<longleftrightarrow> list_ex (\<lambda>m. n_ID m = n_ID n \<and> content m = content n) rs"

definition jobs_match :: "notification list \<Rightarrow> job set \<Rightarrow> bool" where
  "jobs_match rs J \<longleftrightarrow> (\<forall>job \<in> J. \<forall>n. job_Payload job = PayloadNotification (Some n) \<longrightarrow> holds_row rs n)"

definition rows_kept :: "notification list \<Rightarrow> notification list \<Rightarrow> bool" where
  "rows_kept rs rs' \<longleftrightarrow> list_all (holds_row rs') rs"

lemma holds_row_refl: "n \<in> set rs \<Longrightarrow> holds_row rs n"
  by (auto simp: holds_row_def list_ex_iff)

lemma rows_kept_refl: "rows_kept rs rs"
  by (simp add: rows_kept_def list_all_iff holds_row_refl)

lemma rows_kept_holds: "rows_kept rs rs' \<Longrightarrow> holds_row rs n \<Longrightarrow> holds_row rs' n"
  unfolding rows_kept_def holds_row_def list_all_iff list_ex_iff by metis

lemma rows_kept_trans: "rows_kept a b \<Longrightarrow> rows_kept b c \<Longrightarrow> rows_kept a c"
  using rows_kept_holds[of b c] by (auto simp: rows_kept_def list_all_iff)

lemma rows_kept_append: "rows_kept rs (rs @ xs)"
  by (auto simp: rows_kept_def list_all_iff holds_row_def list_ex_iff)

lemma rows_kept_replace:
  assumes "keys_ok n_ID rs" "m \<in> set rs" "n_ID n' = n_ID m" "content n' = content m"
  shows "rows_kept rs (replace_row n' rs)"
  unfolding rows_kept_def list_all_iff holds_row_def list_ex_iff
proof
  fix x assume x: "x \<in> set rs"
  show "\<exists>y \<in> set (replace_row n' rs). n_ID y = n_ID x \<and> content y = content x"
  proof (cases "n_ID x = n_ID n'")
    case True
    then have "x = m" using keys_ok_unique[OF assms(1) x assms(2)] assms(3) by simp
    then show ?thesis using x assms(3,4) by (auto simp: replace_row_def)
  next
    case False
    then show ?thesis using x by (auto simp: replace_row_def)
  qed
qed

lemma replace_row_keys: "map n_ID (replace_row n' rs) = map n_ID rs"
  by (simp add: replace_row_def)

definition good_rows :: "notification list \<Rightarrow> bool" where
  "good_rows rs \<longleftrightarrow> keys_ok n_ID rs \<and> list_all known_status rs"

lemma keys_ok_map: "map n_ID rs' = map n_ID rs \<Longrightarrow> keys_ok n_ID rs \<Longrightarrow> keys_ok n_ID rs'"
  unfolding keys_ok_def by (metis (no_types, lifting) imageE image_eqI list.set_map)

lemma good_replace: "good_rows rs \<Longrightarrow> known_status n' \<Longrightarrow> good_rows (replace_row n' rs)"
  unfolding good_rows_def using keys_ok_map[OF replace_row_keys] by (auto simp: list_all_iff replace_row_def)

lemma send_appends:
  assumes "create_law (env_notes E) rows n_ID same_note" "SendNotification E svc (Some rc) req s = (Inr resp, s')"
  obtains n where "rows (sst_db s') = rows (sst_db s) @ [n]" "known_status n" "n_ID n \<noteq> 0" "n_ID n \<notin> n_ID ` set (rows (sst_db s))"
    "resp = NewNotificationResponse n" "n_Status n \<in> {StatusQueued, StatusSent, StatusErrored}" "stores_request req n"
    "n_TenantID n = t_ID (rc_Tenant rc)" "n_RetryCount n = 0"
proof -
  obtain now w where tr: "third_reading E (sst_world s) = (now, w)" by fastforce
  obtain t1 t2 where u: "SendNotification E svc (Some rc) req s =
      (let (now, w) = third_reading E (sst_world s);
           n = NewNotification t2 (''notif-'' @ Itoa t1) (t_ID (rc_Tenant rc)) req in
       io_bind (if scheduledLater req now then io_return n else dispatchNow E svc rc req now n)
         (\<lambda>n'. io_bind (with_db (CreateNotification (env_notes E) n')) (\<lambda>stored. io_return (NewNotificationResponse stored)))
         (s\<lparr>sst_world := w\<rparr>))"
    by (rule SendNotification_unfold)
  define n0 where "n0 = NewNotification t2 (''notif-'' @ Itoa t1) (t_ID (rc_Tenant rc)) req"
  note n0 = NewNotification_stores[where req = req and t = t2 and i = "''notif-'' @ Itoa t1" and tid = "t_ID (rc_Tenant rc)", folded n0_def]
  from assms(2) obtain n1 s1 n d where
      n1: "(if scheduledLater req now then io_return n0 else dispatchNow E svc rc req now n0) (s\<lparr>sst_world := w\<rparr>) = (Inr n1, s1)"
      and cr: "CreateNotification (env_notes E) n1 (sst_db s1) = (Inr n, d)" "s' = s1\<lparr>sst_db := d\<rparr>" "resp = NewNotificationResponse n"
    unfolding u tr Let_def prod.case n0_def[symmetric] by (auto simp: io_success)
  have "io_keeps sst_db (if scheduledLater req now then io_return n0 else dispatchNow E svc rc req now n0)"
    by (intro io_keeps_intros)
  from io_keepsD[OF this n1] have db: "sst_db s1 = sst_db s" by simp
  have n1': "n_Status n1 \<in> {StatusQueued, StatusSent, StatusErrored} \<and> stores_request req n1
      \<and> n_TenantID n1 = t_ID (rc_Tenant rc) \<and> n_RetryCount n1 = 0"
  proof (cases "scheduledLater req now")
    case True
    with n1 n0 show ?thesis by (simp add: io_return_def)
  next
    case False
    with n1 have "dispatchNow E svc rc req now n0 (s\<lparr>sst_world := w\<rparr>) = (Inr n1, s1)" by simp
    then show ?thesis by (rule dispatchNow_Inr[OF _ n0(4,6,5)]) (use n0 in \<open>auto simp: stores_request_def\<close>)
  qed
  note row = created_row[OF assms(1) cr(1)[unfolded db]]
  note same = same_note_fields[OF row(2)]
  have "n_ID n \<noteq> 0 \<and> n_ID n \<notin> n_ID ` set (rows (sst_db s))"
    using assms(1) cr(1) unfolding create_law_def CreateNotification_def db by blast
  moreover have "n_Status n \<in> {StatusQueued, StatusSent, StatusErrored}" using n1' same(2) by simp
  ultimately show thesis
    using row(1) cr(2,3) n1' same(2,3) stores_request_same[OF row(2)]
    by (intro that) (auto simp: known_status_simps)
qed

text \<open>What one step keeps: the rows stay well formed and keep their content, and every job the
  scheduler holds refers to a row.\<close>

definition exec_inv :: "('d \<Rightarrow> notification list) \<Rightarrow> ('d, 'w) service_state \<times> job set \<Rightarrow> bool" where
  "exec_inv rows c \<longleftrightarrow> good_rows (rows (sst_db (fst c))) \<and> jobs_match (rows (sst_db (fst c))) (snd c)"

lemma exec_invI:
  assumes "exec_inv rows (s, J)" "good_rows (rows (sst_db s'))" "rows_kept (rows (sst_db s)) (rows (sst_db s'))"
  shows "exec_inv rows (s', J) \<and> rows_kept (rows (sst_db s)) (rows (sst_db s'))"
  using assms rows_kept_holds[OF assms(3)] by (auto simp: exec_inv_def jobs_match_def)

lemma exec_inv_db:
  assumes "exec_inv rows (s, J)" "rows (sst_db s') = rows (sst_db s)"
  shows "exec_inv rows (s', J) \<and> rows_kept (rows (sst_db s)) (rows (sst_db s'))"
  using assms rows_kept_refl by (auto simp: exec_inv_def)

lemma no_tenant_no_change:
  "SendNotification E svc None req s = (Inl ErrMissingTenantContext, s)"
  "edit_queued E None nid f s = (Inl ErrMissingTenantContext, s)"
  by (simp_all add: SendNotification_def edit_queued_def requireTenant_def bind_lift)

lemma edit_step:
  assumes laws: "first_law (env_notes E) rows" "save_law (env_notes E) rows n_ID same_note"
    and f: "\<And>now n. n_ID (f now n) = n_ID n" "\<And>now n. content (f now n) = content n"
      "\<And>now n. n_Status n = StatusQueued \<Longrightarrow> known_status (f now n)"
    and inv: "exec_inv rows (s, J)" and run: "edit_queued E ctx nid f s = (r, s')"
  shows "exec_inv rows (s', J) \<and> rows_kept (rows (sst_db s)) (rows (sst_db s'))"
proof (cases ctx)
  case None
  with run no_tenant_no_change(2)[of E nid f s] inv show ?thesis by (intro exec_inv_db) simp_all
next
  case (Some rc)
  show ?thesis
  proof (rule edit_queued_row[OF laws f(1) run[unfolded Some]])
    assume "rows (sst_db s') = rows (sst_db s)"
    with inv show ?thesis by (rule exec_inv_db)
  next
    fix n n' now
    assume h: "n \<in> set (rows (sst_db s))" "n_Status n = StatusQueued" "same_note (f now n) n'" "n_ID n' = n_ID n"
      "rows (sst_db s') = replace_row n' (rows (sst_db s))"
    have g: "good_rows (rows (sst_db s))" using inv by (simp add: exec_inv_def)
    have "known_status n'" "content n' = content n"
      using f(2)[of now n] f(3)[OF h(2), of now] same_note_fields(1,2)[OF h(3)] by (simp_all add: known_status_def)
    with h g show ?thesis
      by (intro exec_invI[OF inv]) (simp_all add: good_replace rows_kept_replace good_rows_def[of "rows (sst_db s)"])
  qed
qed

lemma attempted_fields:
  "n_ID (attempted u n) = n_ID n" "content (attempted u n) = content n" "known_status (attempted u n)"
proof -
  have "CanonicalStatus StatusErrored \<noteq> ''''" "CanonicalStatus x \<noteq> '''' \<Longrightarrow> CanonicalStatus (CanonicalStatus x) \<noteq> ''''" for x
    by (auto simp: CanonicalStatus_def StatusErrored_def split: if_splits)
  then show "known_status (attempted u n)" by (simp add: attempted_def known_status_def Let_def)
qed (simp_all add: attempted_def content_def Let_def)

lemma report_step:
  assumes law: "save_law (env_notes E) rows n_ID same_note"
    and inv: "exec_inv rows (s, J)" and job: "job \<in> J" and run: "ApplyAttemptResult E job update s = (r, s')"
  shows "exec_inv rows (s', insert (reported update r job) J) \<and> rows_kept (rows (sst_db s)) (rows (sst_db s'))"
proof (cases "\<exists>n. job_Payload job = PayloadNotification (Some n)")
  case False
  with run obtain e where "r = Inl e" "s' = s"
    by (auto simp: ApplyAttemptResult_def notificationFromJob_def bind_lift io_fail_def split: job_payload.splits option.splits)
  moreover from this False have "reported update r job = job"
    by (auto simp: reported_def split: job_payload.splits option.splits)
  ultimately show ?thesis using inv job rows_kept_refl by (simp add: insert_absorb)
next
  case True
  then obtain n where n: "job_Payload job = PayloadNotification (Some n)" by blast
  have g: "good_rows (rows (sst_db s))" and jm: "jobs_match (rows (sst_db s)) J" using inv by (simp_all add: exec_inv_def)
  from jm job n have "holds_row (rows (sst_db s)) n" unfolding jobs_match_def by blast
  then obtain m where m: "m \<in> set (rows (sst_db s))" "n_ID m = n_ID n" "content m = content n"
    by (auto simp: holds_row_def list_ex_iff)
  obtain q d where q: "SaveNotification (env_notes E) (attempted update n) (sst_db s) = (q, d)" by fastforce
  have rs: "r = q" "s' = s\<lparr>sst_db := d\<rparr>"
    using run n q by (auto simp: ApplyAttemptResult_def notificationFromJob_def bind_lift with_db_def)
  show ?thesis
  proof (cases q)
    case (Inl e)
    with q law have "rows d = rows (sst_db s)" unfolding save_law_def SaveNotification_def by blast
    moreover have "holds_row (rows (sst_db s)) (attempted update n)"
      using m by (auto simp: holds_row_def list_ex_iff attempted_fields)
    ultimately show ?thesis using inv Inl rs n rows_kept_refl by (auto simp: exec_inv_def jobs_match_def reported_def)
  next
    case (Inr n')
    have "n_ID (attempted update n) \<in> n_ID ` set (rows (sst_db s))" using imageI[OF m(1), of n_ID] m(2) by (simp add: attempted_fields)
    note sr = saved_row[OF law q[unfolded Inr] this]
    have n': "n_ID n' = n_ID m" "content n' = content m" "known_status n'"
      using sr(3) m same_note_fields(1,2)[OF sr(2)] attempted_fields[of update n] by (simp_all add: known_status_def)
    have kept: "rows_kept (rows (sst_db s)) (rows (sst_db s'))"
      using rows_kept_replace[OF _ m(1) n'(1,2)] g sr(1) rs(2) by (simp add: good_rows_def)
    then have i: "exec_inv rows (s', J)"
      using exec_invI[OF inv _ kept] good_replace[OF g n'(3)] sr(1) rs(2) by simp
    moreover have "holds_row (rows (sst_db s')) n'"
      using m(1) n'(1) sr(1) rs(2) by (auto simp: holds_row_def list_ex_iff replace_row_def)
    ultimately show ?thesis
      using kept Inr rs(1) by (auto simp: exec_inv_def jobs_match_def reported_def)
  qed
qed

definition store_laws :: "('d, 'w) service_env \<Rightarrow> ('d \<Rightarrow> notification list) \<Rightarrow> ('d \<Rightarrow> tenant list) \<Rightarrow> bool" where
  "store_laws E rows tens \<longleftrightarrow>
     first_law (env_notes E) rows \<and> find_law (env_notes E) rows \<and> create_law (env_notes E) rows n_ID same_note
     \<and> save_law (env_notes E) rows n_ID same_note \<and> pending_join_law E rows tens"

lemma service_step_inv:
  assumes laws: "store_laws E rows tens"
    and step: "service_step E svc c c'" and inv: "exec_inv rows c"
  shows "exec_inv rows c' \<and> rows_kept (rows (sst_db (fst c))) (rows (sst_db (fst c')))"
  using step inv
proof (induction rule: service_step.induct)
  case (send ctx req s r s' J)
  have law: "create_law (env_notes E) rows n_ID same_note" using laws by (simp add: store_laws_def)
  show ?case
  proof (cases r)
    case (Inl e)
    with send law have "rows (sst_db s') = rows (sst_db s)"
      using send_rows_on_failure by blast
    with send show ?thesis by (simp add: exec_inv_db)
  next
    case (Inr resp)
    with send(1) obtain rc where "SendNotification E svc (Some rc) req s = (Inr resp, s')"
      by (cases ctx) (auto simp: no_tenant_no_change)
    then obtain n where n: "rows (sst_db s') = rows (sst_db s) @ [n]" "known_status n" "n_ID n \<noteq> 0" "n_ID n \<notin> n_ID ` set (rows (sst_db s))"
      by (rule send_appends[OF law])
    then have "good_rows (rows (sst_db s'))"
      using send(2) by (auto simp: exec_inv_def good_rows_def keys_ok_def)
    then show ?thesis unfolding fst_conv by (rule exec_invI[OF send(2)]) (simp add: n(1) rows_kept_append)
  qed
next
  case (reschedule ctx nid t s r s' J)
  show ?case
    using edit_step[OF _ _ _ _ _ reschedule(2) reschedule(1)[unfolded edits]] laws
    by (simp add: store_laws_def content_def known_status_simps)
next
  case (cancel ctx nid s r s' J)
  show ?case
    using edit_step[OF _ _ _ _ _ cancel(2) cancel(1)[unfolded edits]] laws
    by (simp add: store_laws_def content_def known_status_simps)
next
  case (poll now s jobs J)
  obtain rs where rs: "jobs = jobsFromNotifications rs" "set rs \<subseteq> set (rows (sst_db s))"
    using PendingJobs_subset[OF _ _ poll(1)] laws unfolding store_laws_def by metis
  have "jobs_match (rows (sst_db s)) (set jobs)"
    unfolding rs(1) using rs(2) by (auto simp: jobs_match_def jobsFromNotifications_def intro: holds_row_refl)
  with poll(2) show ?case using rows_kept_refl by (auto simp: exec_inv_def jobs_match_def)
next
  case (attempt job J ctx s r s')
  from io_keepsD[OF Attempt_keeps_db attempt(2)] attempt(3) show ?case by (simp add: exec_inv_db)
next
  case (report job J update s r s')
  with laws show ?case using report_step[OF _ report(3,1,2)] by (simp add: store_laws_def)
qed

lemma executions_inv:
  assumes "store_laws E rows tens" "(service_step E svc)\<^sup>*\<^sup>* c c'" "exec_inv rows c"
  shows "exec_inv rows c' \<and> rows_kept (rows (sst_db (fst c))) (rows (sst_db (fst c')))"
  using assms(2,3)
proof (induction rule: rtranclp_induct)
  case base
  then show ?case by (simp add: rows_kept_refl)
next
  case (step c1 c2)
  then have i: "exec_inv rows c1" "rows_kept (rows (sst_db (fst c))) (rows (sst_db (fst c1)))" by simp_all
  from service_step_inv[OF assms(1) step(2) i(1)] i(2) show ?case using rows_kept_trans by blast
qed

text \<open>C4. In every execution, whatever the scheduler does with the jobs it was given and however
  its reports interleave with requests, every stored notification has one of the five known
  statuses and an own key, and a notification once stored stays: its tenant, identifier, type,
  recipient, subject, message, creation time and attachments never change.\<close>

theorem executions_keep_notifications:
  assumes "store_laws E rows tens" "good_rows (rows (sst_db s0))"
    and "(service_step E svc)\<^sup>*\<^sup>* (s0, {}) (s1, J1)" "(service_step E svc)\<^sup>*\<^sup>* (s1, J1) (s2, J2)"
  shows "good_rows (rows (sst_db s2)) \<and> rows_kept (rows (sst_db s1)) (rows (sst_db s2))"
proof -
  have "exec_inv rows (s0, {})" using assms(2) by (simp add: exec_inv_def jobs_match_def)
  then have "exec_inv rows (s1, J1)" using executions_inv[OF assms(1,3)] by simp
  then show ?thesis using executions_inv[OF assms(1,4)] by (simp add: exec_inv_def)
qed

subsection \<open>Unsent notifications are retried\<close>


subsection \<open>Examples\<close>

lemma demo_store_laws: "store_laws demo_env fst (ts_tenants \<circ> snd)"
  unfolding store_laws_def
proof (intro conjI demo_laws)
  show "pending_join_law demo_env fst (ts_tenants \<circ> snd)" by (simp add: pending_join_law_def demo_env_def)
qed

theorem pending_jobs_exact_witness:
  "\<exists>jobs. PendingJobs demo_env True 3 9 (sst_db (demo_state [demo_note 1 ''t1'' 5, demo_note 2 ''t2'' 5])) = Inr jobs
     \<and> mset (map job_Payload jobs) = {#PayloadNotification (Some (demo_note 1 ''t1'' 5))#}"
proof -
  let ?d = "sst_db (demo_state [demo_note 1 ''t1'' 5, demo_note 2 ''t2'' 5])"
  obtain jobs where j: "PendingJobs demo_env True 3 9 ?d = Inr jobs"
    by (simp add: PendingJobs_def pendingJobsForActiveTenants_def demo_env_def)
  have f: "filter (due True ((ts_tenants \<circ> snd) ?d) 3 9) (fst ?d) = [demo_note 1 ''t1'' 5]"
    by code_simp
  have "distinct (map t_ID ((ts_tenants \<circ> snd) ?d))" by (simp add: demo_state_def)
  moreover have "pending_join_law demo_env fst (ts_tenants \<circ> snd)" using demo_store_laws by (simp add: store_laws_def)
  ultimately have "mset (map job_Payload jobs) = mset (map (\<lambda>n. PayloadNotification (Some n)) [demo_note 1 ''t1'' 5])"
    using pending_jobs_exact[of demo_env fst "ts_tenants \<circ> snd" ?d True 3 9 jobs] demo_laws(1) j unfolding f by blast
  with j show ?thesis by auto
qed

theorem executions_keep_notifications_witness:
  "rows_kept [demo_note 1 ''t1'' 5]
     (fst (sst_db (snd (CancelNotification demo_env (Some demo_runtime) ''n1'' (demo_state [demo_note 1 ''t1'' 5])))))"
proof -
  let ?s = "demo_state [demo_note 1 ''t1'' 5]"
  have "service_step demo_env demo_service (?s, {}) (snd (CancelNotification demo_env (Some demo_runtime) ''n1'' ?s), {})"
    by (rule service_step.cancel) (rule surjective_pairing)
  moreover have "good_rows (fst (sst_db ?s))" by code_simp
  ultimately show ?thesis
    using executions_keep_notifications[OF demo_store_laws, of ?s demo_service ?s "{}"] by (auto simp: demo_state_def)
qed


text \<open>
  A cancellation between a poll and the attempt of a polled job is lost: the attempt sends the
  notification and the report overwrites the cancelled row.
\<close>

lemma cancelled_notification_is_sent:
  "let s = demo_state [demo_note 1 ''t1'' 5] in
   case PendingJobs demo_env True 3 9 (sst_db s) of
     Inr [job] \<Rightarrow>
       (let (cancelled, s1) = CancelNotification demo_env (Some demo_runtime) ''n1'' s;
            (attempt, s2) = Attempt demo_env demo_service None job s1;
            (report, s3) = ApplyAttemptResult demo_env job
              \<lparr>au_Status = StatusSent, au_ProviderMessageID = '''', au_RetryCount = 1, au_LastAttemptedAt = 9\<rparr> s2 in
        is_ok cancelled \<and> map n_Status (fst (sst_db s1)) = [StatusCancelled]
        \<and> snd (sst_world s3) = [(''a@b.c'', ''m'')] \<and> map n_Status (fst (sst_db s3)) = [StatusSent])
   | _ \<Rightarrow> False"
  by code_simp

end
