(* ===== verification/Smtp_Address.thy ===== *)
theory Smtp_Address
  imports Go_Strings
begin

text \<open>
  Mailbox addresses (\<open>internal/smtpidentity/address.go\<close>) and the types the SMTP servers and the
  identity repository exchange. Go's RFC 5322 address parser (\<open>net/mail\<close>) is an argument of
  the model, a record of its entry points: \<open>mail_ParseAddress\<close> gives the display name and the
  address, \<open>mail_ParseAddressList\<close> a list of them, \<open>mail_HeaderFrom\<close> the value of the
  \<open>From\<close> header of a message, or nothing when the message cannot be read. What the program relies
  on is \<open>mail_addr_spec\<close>: an address the parser returns unchanged and without a display name is
  \<open>local@domain\<close>, neither part has white space around it, and changing the case of letters
  does not make it unacceptable.
\<close>

record mail_api =
  mail_ParseAddress :: "string \<Rightarrow> (string \<times> string) option"
  mail_ParseAddressList :: "string \<Rightarrow> (string \<times> string) list option"
  mail_HeaderFrom :: "bytes \<Rightarrow> string option"

definition mail_addr_spec :: "mail_api \<Rightarrow> bool" where
  "mail_addr_spec M \<longleftrightarrow>
     (\<forall>s. mail_ParseAddress M s = Some ('''', s) \<longrightarrow>
        (\<exists>l d. s = l @ CHR ''@'' # d \<and> CHR ''@'' \<notin> set l \<and> l \<noteq> [] \<and> d \<noteq> [] \<and> trimmed l \<and> trimmed d)
        \<and> mail_ParseAddress M (ToLower s) = Some ('''', ToLower s))"

record address =
  addr_value :: string
  addr_domain :: string

definition no_address :: address where
  "no_address = \<lparr>addr_value = '''', addr_domain = ''''\<rparr>"

definition ErrInvalidAddress :: go_error where
  "ErrInvalidAddress = ErrorsNew ''smtp_identity.address.invalid''"

definition NewAddress :: "mail_api \<Rightarrow> string \<Rightarrow> address result" where
  "NewAddress M rawAddress =
     (let trimmedAddress = TrimSpace rawAddress in
      if trimmedAddress = '''' \<or> ContainsAny trimmedAddress [CHR 0x0D, CHR 0x0A]
      then Inl ErrInvalidAddress
      else (case mail_ParseAddress M trimmedAddress of
          None \<Rightarrow> Inl (Errorf '''' ErrInvalidAddress ('': '' @ trimmedAddress))
        | Some (name, parsed) \<Rightarrow>
            if name \<noteq> '''' \<or> parsed \<noteq> trimmedAddress
            then Inl (Errorf '''' ErrInvalidAddress ('': '' @ trimmedAddress))
            else (let (localPart, domainPart, found) = Cut parsed (CHR ''@'');
                      normalizedDomain = ToLower (TrimSpace domainPart);
                      normalizedLocal = ToLower (TrimSpace localPart)
                  in Inr \<lparr>addr_value = normalizedLocal @ ''@'' @ normalizedDomain,
                          addr_domain = normalizedDomain\<rparr>)))"

definition ParseHeaderFromAddress :: "mail_api \<Rightarrow> string \<Rightarrow> address result" where
  "ParseHeaderFromAddress M fromHeader =
     (case mail_ParseAddressList M (TrimSpace fromHeader) of
        Some [(name, addr)] \<Rightarrow> NewAddress M addr
      | _ \<Rightarrow> Inl (Errorf '''' ErrInvalidAddress '': from header''))"

definition addr_Equals :: "address \<Rightarrow> address \<Rightarrow> bool" where
  "addr_Equals a b \<longleftrightarrow> addr_value a = addr_value b"

record authenticated_identity =
  ai_ID :: string
  ai_EmailAddress :: address
  ai_Username :: string

record raw_message =
  rm_IdentityID :: string
  rm_From :: address
  rm_Recipients :: "address list"
  rm_Data :: bytes

definition RecipientStrings :: "raw_message \<Rightarrow> string list" where
  "RecipientStrings m = map addr_value (rm_Recipients m)"

subsection \<open>What a normalised address is\<close>

lemma NewAddress_Inr:
  assumes "NewAddress M raw = Inr a"
  obtains l d b where "mail_ParseAddress M (TrimSpace raw) = Some ('''', TrimSpace raw)"
    and "TrimSpace raw \<noteq> ''''" and "CHR 0x0D \<notin> set (TrimSpace raw)" and "CHR 0x0A \<notin> set (TrimSpace raw)"
    and "Cut (TrimSpace raw) (CHR ''@'') = (l, d, b)"
    and "addr_value a = ToLower (TrimSpace l) @ ''@'' @ ToLower (TrimSpace d)"
    and "addr_domain a = ToLower (TrimSpace d)"
proof -
  obtain l d b where cut: "Cut (TrimSpace raw) (CHR ''@'') = (l, d, b)"
    by (cases "Cut (TrimSpace raw) (CHR ''@'')") auto
  from assms have ok: "TrimSpace raw \<noteq> ''''" "\<not> ContainsAny (TrimSpace raw) [CHR 0x0D, CHR 0x0A]"
    by (simp_all add: NewAddress_def Let_def split: if_splits)
  from assms ok obtain n x where p: "mail_ParseAddress M (TrimSpace raw) = Some (n, x)"
    by (cases "mail_ParseAddress M (TrimSpace raw)") (auto simp add: NewAddress_def)
  with assms ok have nx: "n = ''''" "x = TrimSpace raw"
    by (simp_all add: NewAddress_def Let_def split: if_splits)
  with assms ok p cut have "a = \<lparr>addr_value = ToLower (TrimSpace l) @ ''@'' @ ToLower (TrimSpace d),
      addr_domain = ToLower (TrimSpace d)\<rparr>"
    by (simp add: NewAddress_def Let_def)
  moreover from ok have "CHR 0x0D \<notin> set (TrimSpace raw)" "CHR 0x0A \<notin> set (TrimSpace raw)"
    by (auto simp: ContainsAny_def)
  ultimately show thesis using that[of l d b] p nx cut ok by simp
qed

lemma set_Cut:
  assumes cut: "Cut s c = (l, d, b)"
  shows "set l \<subseteq> set s \<and> set d \<subseteq> set s"
proof (cases b)
  case True
  with cut show ?thesis using Cut_found[of s c l d] by auto
next
  case False
  have "c \<notin> set s"
  proof
    assume "c \<in> set s"
    then obtain xs ys where "s = xs @ c # ys" "c \<notin> set xs" by (meson split_list_first)
    with Cut_found[of s c xs ys] cut False show False by simp
  qed
  with cut show ?thesis by (simp add: Cut_absent)
qed

lemma NewAddress_lower: "NewAddress M raw = Inr a \<Longrightarrow> ToLower (addr_value a) = addr_value a"
proof (erule NewAddress_Inr)
  fix l d :: string
  assume v: "addr_value a = ToLower (TrimSpace l) @ ''@'' @ ToLower (TrimSpace d)"
  have "lower_byte CHR ''@'' = CHR ''@''" by (simp add: lower_byte_def)
  then show ?thesis by (simp add: v) (simp add: ToLower_def)
qed

text \<open>A byte that is no letter occurs in a normalised address only if it is the separator or
  occurs in what was parsed.\<close>

lemma NewAddress_bytes:
  assumes "NewAddress M raw = Inr a" "caseless c" "c \<in> set (addr_value a)" "c \<noteq> CHR ''@''"
  shows "c \<in> set (TrimSpace raw)"
  using assms(1)
proof (rule NewAddress_Inr)
  fix l d :: string and b
  assume cut: "Cut (TrimSpace raw) (CHR ''@'') = (l, d, b)"
    and v: "addr_value a = ToLower (TrimSpace l) @ ''@'' @ ToLower (TrimSpace d)"
  from assms(3,4) v have "c \<in> set (ToLower (TrimSpace l)) \<or> c \<in> set (ToLower (TrimSpace d))"
    by simp
  then have "c \<in> set (TrimSpace l) \<or> c \<in> set (TrimSpace d)"
    by (simp add: caseless_in_ToLower[OF assms(2)])
  with set_TrimSpace set_Cut[OF cut] show ?thesis by blast
qed

lemma NewAddress_no_newline:
  assumes "NewAddress M raw = Inr a"
  shows "CHR 0x0D \<notin> set (addr_value a)" and "CHR 0x0A \<notin> set (addr_value a)"
proof -
  have "caseless CHR 0x0D" "caseless CHR 0x0A" by (simp_all add: caseless_def)
  moreover from assms have "CHR 0x0D \<notin> set (TrimSpace raw)" "CHR 0x0A \<notin> set (TrimSpace raw)"
    by (blast elim: NewAddress_Inr)+
  ultimately show "CHR 0x0D \<notin> set (addr_value a)" and "CHR 0x0A \<notin> set (addr_value a)"
    using NewAddress_bytes[OF assms] by fastforce+
qed

lemma NewAddress_spec:
  assumes M: "mail_addr_spec M" and a: "NewAddress M raw = Inr a"
  shows "addr_value a = ToLower (TrimSpace raw)"
    and "mail_ParseAddress M (addr_value a) = Some ('''', addr_value a)"
    and "\<exists>l. addr_value a = l @ CHR ''@'' # addr_domain a \<and> CHR ''@'' \<notin> set l"
proof -
  from a obtain l d b where p: "mail_ParseAddress M (TrimSpace raw) = Some ('''', TrimSpace raw)"
    and cut: "Cut (TrimSpace raw) (CHR ''@'') = (l, d, b)"
    and v: "addr_value a = ToLower (TrimSpace l) @ ''@'' @ ToLower (TrimSpace d)"
    and dm: "addr_domain a = ToLower (TrimSpace d)"
    by (rule NewAddress_Inr)
  from M p obtain l' d' where raw: "TrimSpace raw = l' @ CHR ''@'' # d'"
    and l': "CHR ''@'' \<notin> set l'" "trimmed l'" "trimmed d'"
    and low: "mail_ParseAddress M (ToLower (TrimSpace raw)) = Some ('''', ToLower (TrimSpace raw))"
    unfolding mail_addr_spec_def by blast
  have "Cut (TrimSpace raw) (CHR ''@'') = (l', d', True)"
    using raw l' by (simp add: Cut_found)
  with cut have [simp]: "l = l'" "d = d'" by auto
  have at: "lower_byte CHR ''@'' = CHR ''@''" "caseless CHR ''@''"
    by (simp_all add: lower_byte_def caseless_def)
  have split: "ToLower (TrimSpace raw) = ToLower l' @ CHR ''@'' # ToLower d'"
    unfolding raw by (simp add: ToLower_def at(1))
  have v': "addr_value a = ToLower l' @ CHR ''@'' # ToLower d'" and dm': "addr_domain a = ToLower d'"
    using v dm l'(2,3) by (simp_all add: TrimSpace_id)
  show val: "addr_value a = ToLower (TrimSpace raw)"
    unfolding split by (rule v')
  show "mail_ParseAddress M (addr_value a) = Some ('''', addr_value a)"
    using low val by simp
  have "CHR ''@'' \<notin> set (ToLower l')"
    using l'(1) by (simp add: caseless_in_ToLower[OF at(2)])
  then show "\<exists>l. addr_value a = l @ CHR ''@'' # addr_domain a \<and> CHR ''@'' \<notin> set l"
    unfolding v' dm' by blast
qed

end
