(* ===== verification/Sender_Domain.thy ===== *)
theory Sender_Domain
  imports Gorm Smtp_Address
begin

text \<open>
  Sender domains (\<open>internal/smtpidentity/sender_domain.go\<close> and \<open>dns_verification.go\<close>): the names a
  mailbox may be registered under, the DNS records an owner has to publish and the checks that
  decide whether a domain is verified. The resolver is an argument: \<open>LookupTXT\<close> gives the text records
  of a name, or nothing when the lookup fails.
\<close>

subsection \<open>Data\<close>

definition SenderDomainStatusPending :: string where "SenderDomainStatusPending = ''pending''"
definition SenderDomainStatusVerified :: string where "SenderDomainStatusVerified = ''verified''"

definition ErrInvalidSenderDomain :: go_error where
  "ErrInvalidSenderDomain = ErrorsNew ''smtp_identity.sender_domain.invalid''"
definition ErrSenderDomainExists :: go_error where
  "ErrSenderDomainExists = ErrorsNew ''smtp_identity.sender_domain.exists''"
definition ErrSenderDomainNotFound :: go_error where
  "ErrSenderDomainNotFound = ErrorsNew ''smtp_identity.sender_domain.not_found''"

record sender_domain =
  sd_ID :: nat
  sd_OwnerEmail :: string
  sd_Domain :: string
  sd_Status :: string
  sd_VerificationToken :: string
  sd_LastCheckedAt :: "time option"
  sd_CreatedAt :: time
  sd_UpdatedAt :: time

record dns_record =
  dr_Type :: string
  dr_Host :: string
  dr_Value :: string
  dr_Purpose :: string

record dns_check =
  dc_Type :: string
  dc_Host :: string
  dc_Expected :: string
  dc_Passed :: bool
  dc_Message :: string

record public_settings =
  pst_Host :: string
  pst_Port :: int
  pst_SecurityMode :: string

record public_sender_domain =
  psd_ID :: nat
  psd_Domain :: string
  psd_Status :: string
  psd_DNSRecords :: "dns_record list"
  psd_DNSChecks :: "dns_check list"
  psd_LastCheckedAt :: "time option"
  psd_CreatedAt :: time
  psd_UpdatedAt :: time

subsection \<open>Domain names\<close>

definition dns_label_byte :: "char \<Rightarrow> bool" where
  "dns_label_byte c \<longleftrightarrow>
     (let n = (of_char c :: nat) in (97 \<le> n \<and> n \<le> 122) \<or> (48 \<le> n \<and> n \<le> 57) \<or> c = CHR ''-'')"

definition validDNSLabel :: "string \<Rightarrow> bool" where
  "validDNSLabel label \<longleftrightarrow>
     \<not> (length label = 0 \<or> length label > 63 \<or> hd label = CHR ''-'' \<or> last label = CHR ''-'')
     \<and> list_all dns_label_byte label"

definition validDNSDomainName :: "string \<Rightarrow> bool" where
  "validDNSDomainName domain \<longleftrightarrow> \<not> length domain > 253 \<and> list_all validDNSLabel (Split domain (CHR ''.''))"

definition NormalizeSenderDomain :: "string \<Rightarrow> string result" where
  "NormalizeSenderDomain domain =
     (let normalizedDomain = TrimSuffix (ToLower (TrimSpace domain)) ''.'' in
      if normalizedDomain = '''' then Inr ''''
      else if ContainsAny normalizedDomain
          [CHR ''@'', CHR ''/'', CHR 0x5C, CHR '':'', CHR '' '', CHR 0x09, CHR 0x0D, CHR 0x0A]
        \<or> \<not> Contains normalizedDomain ''.'' \<or> \<not> validDNSDomainName normalizedDomain
      then Inl (Errorf '''' ErrInvalidSenderDomain ('': '' @ TrimSpace domain))
      else Inr normalizedDomain)"

subsection \<open>Records to publish\<close>

definition challengeHost :: "string \<Rightarrow> string" where
  "challengeHost domain = ''_pinguin-challenge.'' @ domain"

definition dmarcHost :: "string \<Rightarrow> string" where
  "dmarcHost domain = ''_dmarc.'' @ domain"

definition challengeValue :: "string \<Rightarrow> string" where
  "challengeValue token = ''pinguin-domain-verification='' @ TrimSpace token"

definition spfMechanism :: "public_settings \<Rightarrow> string" where
  "spfMechanism settings = ''a:'' @ TrimSpace (pst_Host settings)"

definition spfStarterValue :: "public_settings \<Rightarrow> string" where
  "spfStarterValue settings = ''v=spf1 '' @ spfMechanism settings @ '' ~all''"

definition senderDomainDNSRecords :: "public_settings \<Rightarrow> sender_domain \<Rightarrow> dns_record list" where
  "senderDomainDNSRecords settings domain =
     [\<lparr>dr_Type = ''TXT'', dr_Host = challengeHost (sd_Domain domain),
       dr_Value = challengeValue (sd_VerificationToken domain), dr_Purpose = ''Verify domain ownership''\<rparr>,
      \<lparr>dr_Type = ''TXT'', dr_Host = sd_Domain domain, dr_Value = spfStarterValue settings,
       dr_Purpose = ''Authorize Pinguin SMTP relay''\<rparr>,
      \<lparr>dr_Type = ''TXT'', dr_Host = dmarcHost (sd_Domain domain), dr_Value = ''v=DMARC1; p=none'',
       dr_Purpose = ''Publish a DMARC policy''\<rparr>]"

definition publicSenderDomain :: "public_settings \<Rightarrow> sender_domain \<Rightarrow> dns_check list \<Rightarrow> public_sender_domain" where
  "publicSenderDomain settings domain checks =
     \<lparr>psd_ID = sd_ID domain, psd_Domain = sd_Domain domain, psd_Status = sd_Status domain,
      psd_DNSRecords = senderDomainDNSRecords settings domain, psd_DNSChecks = checks,
      psd_LastCheckedAt = sd_LastCheckedAt domain, psd_CreatedAt = sd_CreatedAt domain,
      psd_UpdatedAt = sd_UpdatedAt domain\<rparr>"

subsection \<open>Checks\<close>

fun exactTXTMatch :: "string list \<Rightarrow> string \<Rightarrow> bool" where
  "exactTXTMatch [] expected = False"
| "exactTXTMatch (txt # rest) expected = (if TrimSpace txt = expected then True else exactTXTMatch rest expected)"

fun spfTXTMatch :: "string list \<Rightarrow> string \<Rightarrow> bool" where
  "spfTXTMatch [] expectedMechanism = False"
| "spfTXTMatch (txt # rest) expectedMechanism =
     (case Fields (ToLower (TrimSpace txt)) of
        [] \<Rightarrow> spfTXTMatch rest expectedMechanism
      | version # mechanisms \<Rightarrow>
          if version \<noteq> ''v=spf1'' then spfTXTMatch rest expectedMechanism
          else if list_ex (\<lambda>field. TrimSpace field = ToLower expectedMechanism) mechanisms then True
          else spfTXTMatch rest expectedMechanism)"

fun dmarcTXTMatch :: "string list \<Rightarrow> string \<Rightarrow> bool" where
  "dmarcTXTMatch [] ignored = False"
| "dmarcTXTMatch (txt # rest) ignored =
     (let normalizedValue = ToLower (TrimSpace txt) in
      if HasPrefix normalizedValue ''v=dmarc1'' \<and> Contains normalizedValue ''p='' then True
      else dmarcTXTMatch rest ignored)"

type_synonym 'w dns_resolver = "string \<Rightarrow> 'w \<Rightarrow> string list option \<times> 'w"

definition checkTXT ::
  "'w dns_resolver \<Rightarrow> string \<Rightarrow> string \<Rightarrow> (string list \<Rightarrow> string \<Rightarrow> bool) \<Rightarrow> string \<Rightarrow> string \<Rightarrow> 'w \<Rightarrow> dns_check \<times> 'w" where
  "checkTXT LookupTXT host expected matcher successMessage failureMessage w =
     (let failed = \<lparr>dc_Type = ''TXT'', dc_Host = host, dc_Expected = expected, dc_Passed = False, dc_Message = failureMessage\<rparr> in
      case LookupTXT host w of
        (None, w') \<Rightarrow> (failed, w')
      | (Some values, w') \<Rightarrow>
          if matcher values expected
          then (\<lparr>dc_Type = ''TXT'', dc_Host = host, dc_Expected = expected, dc_Passed = True, dc_Message = successMessage\<rparr>, w')
          else (failed, w'))"

definition checkSenderDomainDNS ::
  "'w dns_resolver \<Rightarrow> public_settings \<Rightarrow> sender_domain \<Rightarrow> 'w \<Rightarrow> dns_check list \<times> 'w" where
  "checkSenderDomainDNS LookupTXT settings domain w =
     (let (ownership, w1) = checkTXT LookupTXT (challengeHost (sd_Domain domain))
            (challengeValue (sd_VerificationToken domain)) exactTXTMatch ''ownership TXT matched'' ''ownership TXT is missing'' w;
          (spf, w2) = checkTXT LookupTXT (sd_Domain domain) (spfMechanism settings) spfTXTMatch
            ''SPF authorizes Pinguin relay'' ''SPF is missing the Pinguin relay mechanism'' w1;
          (dmarc, w3) = checkTXT LookupTXT (dmarcHost (sd_Domain domain)) ''v=DMARC1'' dmarcTXTMatch
            ''DMARC policy found'' ''DMARC policy is missing'' w2
      in ([ownership, spf, dmarc], w3))"

fun allDNSChecksPassed :: "dns_check list \<Rightarrow> bool" where
  "allDNSChecksPassed [] = True"
| "allDNSChecksPassed (check # checks) = (if \<not> dc_Passed check then False else allDNSChecksPassed checks)"

subsection \<open>Host names\<close>

definition host_name :: "string \<Rightarrow> bool" where
  "host_name d \<longleftrightarrow> length d \<le> 253 \<and> (\<exists>labels. 2 \<le> length labels \<and> list_all validDNSLabel labels \<and> d = Join labels ''.'')"

lemma dns_label_byte_facts:
  assumes "dns_label_byte c"
  shows "lower_byte c = c" "c \<noteq> CHR ''.''" "c \<notin> set space_bytes"
    "c \<notin> {CHR ''@'', CHR ''/'', CHR 0x5C, CHR '':'', CHR '' '', CHR 0x09, CHR 0x0D, CHR 0x0A}"
proof -
  have n: "((97 :: nat) \<le> of_char c \<and> of_char c \<le> (122 :: nat)) \<or> ((48 :: nat) \<le> of_char c \<and> of_char c \<le> (57 :: nat)) \<or> of_char c = (45 :: nat)"
    using assms by (auto simp: dns_label_byte_def Let_def)
  then show "lower_byte c = c" by (auto simp: lower_byte_def)
  show "c \<noteq> CHR ''.''" using n by auto
  show "c \<notin> {CHR ''@'', CHR ''/'', CHR 0x5C, CHR '':'', CHR '' '', CHR 0x09, CHR 0x0D, CHR 0x0A}" using n by auto
  have "list_all (\<lambda>x. \<not> (((97 :: nat) \<le> of_char x \<and> of_char x \<le> (122 :: nat)) \<or> ((48 :: nat) \<le> of_char x \<and> of_char x \<le> (57 :: nat)) \<or> of_char x = (45 :: nat))) space_bytes"
    by code_simp
  with n show "c \<notin> set space_bytes" by (auto simp: list_all_iff)
qed

lemma Split_prepend: "c \<notin> set p \<Longrightarrow> Split (p @ c # s) c = p # Split s c"
  by (induction p) auto

lemma Split_Join: "ls \<noteq> [] \<Longrightarrow> \<forall>p \<in> set ls. c \<notin> set p \<Longrightarrow> Split (Join ls [c]) c = ls"
  by (induction ls "[c]" rule: Join.induct) (auto simp: Split_absent Split_prepend)

lemma validDNSLabel_bytes: "validDNSLabel l \<Longrightarrow> x \<in> set l \<Longrightarrow> dns_label_byte x"
  by (auto simp: validDNSLabel_def list_all_iff)

lemma set_Join: "x \<in> set (Join ls sep) \<Longrightarrow> x \<in> set sep \<or> (\<exists>l \<in> set ls. x \<in> set l)"
  by (induction ls sep rule: Join.induct) auto

lemma Contains_single: "Contains s [c] \<longleftrightarrow> c \<in> set s"
  by (auto simp: Contains_def sublist_def in_set_conv_decomp)

lemma Split_single_iff: "length (Split s c) = 1 \<longleftrightarrow> c \<notin> set s"
  by (induction s) (auto split: list.splits)

lemma host_name_valid: "host_name d \<longleftrightarrow> validDNSDomainName d \<and> Contains d ''.''"
proof
  assume "host_name d"
  then obtain ls where ls: "length d \<le> 253" "2 \<le> length ls" "list_all validDNSLabel ls" "d = Join ls ''.''"
    unfolding host_name_def by blast
  have "\<forall>p \<in> set ls. CHR ''.'' \<notin> set p"
    using ls(3) validDNSLabel_bytes dns_label_byte_facts(2) by (fastforce simp: list_all_iff)
  then have s: "Split d (CHR ''.'') = ls" using ls(2,4) Split_Join[of ls "CHR ''.''"] by (cases ls) auto
  then show "validDNSDomainName d \<and> Contains d ''.''"
    using ls Split_single_iff[of d "CHR ''.''"] by (auto simp: validDNSDomainName_def Contains_single)
next
  assume v: "validDNSDomainName d \<and> Contains d ''.''"
  have "2 \<le> length (Split d (CHR ''.''))"
  proof -
    have "length (Split d (CHR ''.'')) \<noteq> 1" "length (Split d (CHR ''.'')) \<noteq> 0"
      using v Split_single_iff[of d "CHR ''.''"] by (simp_all add: Contains_single)
    then show ?thesis by linarith
  qed
  then show "host_name d"
    using v Join_Split[of d "CHR ''.''"] unfolding host_name_def validDNSDomainName_def by (metis not_less)
qed

lemma host_name_bytes:
  assumes "host_name d" "x \<in> set d"
  shows "dns_label_byte x \<or> x = CHR ''.''"
  using assms set_Join[of x _ "''.''"] validDNSLabel_bytes by (fastforce simp: host_name_def list_all_iff)

lemma host_name_last: "host_name d \<Longrightarrow> \<not> suffix ''.'' d"
proof
  assume h: "host_name d" and "suffix ''.'' d"
  then obtain e where e: "d = e @ ''.''" by (auto simp: suffix_def)
  have "Split (e @ ''.'') (CHR ''.'') = Split e (CHR ''.'') @ [[]]" by (induction e) (auto split: list.splits)
  then have "[] \<in> set (Split (e @ ''.'') (CHR ''.''))" by simp
  with h e show False
    unfolding host_name_valid validDNSDomainName_def by (auto simp: list_all_iff validDNSLabel_def)
qed

lemma host_name_normal:
  assumes "host_name d"
  shows "ToLower d = d" "TrimSpace d = d" "TrimSuffix d ''.'' = d"
    "\<not> ContainsAny d [CHR ''@'', CHR ''/'', CHR 0x5C, CHR '':'', CHR '' '', CHR 0x09, CHR 0x0D, CHR 0x0A]" "d \<noteq> ''''"
proof -
  have dot: "lower_byte CHR ''.'' = CHR ''.''" by code_simp
  show "ToLower d = d"
    unfolding ToLower_def using host_name_bytes[OF assms] dns_label_byte_facts(1) dot by (metis map_idI)
  have "list_all (\<lambda>x. x \<noteq> CHR ''.'') space_bytes" by code_simp
  then have "set d \<inter> set space_bytes = {}"
    using host_name_bytes[OF assms] dns_label_byte_facts(3) by (auto simp: list_all_iff)
  then show "TrimSpace d = d" using trimmed_no_space_bytes TrimSpace_id by blast
  show "TrimSuffix d ''.'' = d" using host_name_last[OF assms] by (simp add: TrimSuffix_def)
  show "\<not> ContainsAny d [CHR ''@'', CHR ''/'', CHR 0x5C, CHR '':'', CHR '' '', CHR 0x09, CHR 0x0D, CHR 0x0A]"
  proof
    assume "ContainsAny d [CHR ''@'', CHR ''/'', CHR 0x5C, CHR '':'', CHR '' '', CHR 0x09, CHR 0x0D, CHR 0x0A]"
    then obtain x where x: "x \<in> set d" "x \<in> {CHR ''@'', CHR ''/'', CHR 0x5C, CHR '':'', CHR '' '', CHR 0x09, CHR 0x0D, CHR 0x0A}"
      by (auto simp: ContainsAny_def)
    with host_name_bytes[OF assms x(1)] dns_label_byte_facts(4)[of x] show False by auto
  qed
  show "d \<noteq> ''''"
  proof
    assume "d = ''''"
    with assms show False unfolding host_name_valid by (simp add: Contains_single)
  qed
qed



end
