(* ===== verification/Smtp_Identity.thy ===== *)
theory Smtp_Identity
  imports Sender_Domain Go_Base64 Tenant
begin

text \<open>
  SMTP identities (\<open>internal/smtpidentity/repository.go\<close>, \<open>domain_repository.go\<close> and
  \<open>service.go\<close>): who may authenticate at the submission server, which mailboxes are forwarded where,
  and which sender domains an owner has registered. The three GORM tables are arguments, as are
  HMAC-SHA-256, AES-GCM (the record \<open>aead\<close>), the address parser, the clock and the UUID generator; the
  random source is a stream of bytes that reads take from. An identity row does not hold its
  forwarding recipients: \<open>Preload\<close> reads them from their own table.
\<close>

subsection \<open>Data\<close>

definition IdentityStatusActive :: string where "IdentityStatusActive = ''active''"
definition IdentityStatusDeleted :: string where "IdentityStatusDeleted = ''deleted''"

definition ErrAuthenticationFailed :: go_error where
  "ErrAuthenticationFailed = ErrorsNew ''smtp_identity.auth_failed''"
definition ErrSenderDomainNotAllowed :: go_error where
  "ErrSenderDomainNotAllowed = ErrorsNew ''smtp_identity.sender_domain_not_allowed''"
definition ErrIdentityExists :: go_error where
  "ErrIdentityExists = ErrorsNew ''smtp_identity.exists''"
definition ErrIdentityNotFound :: go_error where
  "ErrIdentityNotFound = ErrorsNew ''smtp_identity.not_found''"
definition ErrForwardRecipientsRequired :: go_error where
  "ErrForwardRecipientsRequired = ErrorsNew ''smtp_identity.forward_recipients_required''"
definition ErrForwardRecipientDuplicate :: go_error where
  "ErrForwardRecipientDuplicate = ErrorsNew ''smtp_identity.forward_recipient_duplicate''"
definition ErrForwardRecipientSelf :: go_error where
  "ErrForwardRecipientSelf = ErrorsNew ''smtp_identity.forward_recipient_self''"

record identity =
  id_ID :: string
  id_OwnerEmail :: string
  id_EmailAddress :: string
  id_Username :: string
  id_PasswordSalt :: bytes
  id_PasswordDigest :: bytes
  id_PasswordCipher :: bytes
  id_Status :: string
  id_LastUsedAt :: "time option"
  id_CreatedAt :: time
  id_UpdatedAt :: time

record forward_recipient =
  fr_ID :: string
  fr_IdentityID :: string
  fr_EmailAddress :: string
  fr_CreatedAt :: time
  fr_UpdatedAt :: time

record public_identity =
  pi_ID :: string
  pi_EmailAddress :: string
  pi_Username :: string
  pi_ForwardTo :: "string list"
  pi_Status :: string
  pi_LastUsedAt :: "time option"
  pi_CreatedAt :: time
  pi_UpdatedAt :: time

record access_scope =
  as_OwnerEmail :: string
  as_Admin :: bool

record credential =
  cr_username :: string
  cr_password :: string
  cr_salt :: bytes
  cr_digest :: bytes
  cr_cipher :: bytes

record 'd identity_db =
  ib_identities :: "('d, identity) gorm_table"
  ib_forwards :: "('d, forward_recipient) gorm_table"
  ib_domains :: "('d, sender_domain) gorm_table"
  ib_Commit :: "'d \<Rightarrow> unit result"

record ('d, 'w) identity_repo =
  rp_db :: "'d identity_db"
  rp_key :: bytes
  rp_hmac :: "bytes \<Rightarrow> bytes \<Rightarrow> bytes"
  rp_aead :: aead
  rp_mail :: mail_api
  rp_clock :: "'w \<Rightarrow> time \<times> 'w"
  rp_uuid :: "'w \<Rightarrow> string \<times> 'w"

record ('d, 'w) identity_state =
  is_db :: 'd
  is_random :: bytes
  is_world :: 'w

type_synonym ('d, 'w, 'a) identity_io = "(('d, 'w) identity_state, 'a) io"

definition read_idb :: "('d \<Rightarrow> 'a result) \<Rightarrow> ('d, 'w, 'a) identity_io" where
  "read_idb q s = (q (is_db s), s)"

definition write_idb :: "('d \<Rightarrow> 'a result \<times> 'd) \<Rightarrow> ('d, 'w, 'a) identity_io" where
  "write_idb m s = (case m (is_db s) of (r, d) \<Rightarrow> (r, s\<lparr>is_db := d\<rparr>))"

definition clockFunc :: "('d, 'w) identity_repo \<Rightarrow> ('d, 'w, time) identity_io" where
  "clockFunc R s = (case rp_clock R (is_world s) of (t, w) \<Rightarrow> (Inr t, s\<lparr>is_world := w\<rparr>))"

definition NewString :: "('d, 'w) identity_repo \<Rightarrow> ('d, 'w, string) identity_io" where
  "NewString R s = (case rp_uuid R (is_world s) of (u, w) \<Rightarrow> (Inr u, s\<lparr>is_world := w\<rparr>))"

definition identity_Transaction ::
  "('d, 'w) identity_repo \<Rightarrow> ('d, 'w, 'a) identity_io \<Rightarrow> ('d, 'w, 'a) identity_io" where
  "identity_Transaction R f s =
     (case f s of
        (Inl e, s') \<Rightarrow> (Inl e, s'\<lparr>is_db := is_db s\<rparr>)
      | (Inr x, s') \<Rightarrow>
          (case ib_Commit (rp_db R) (is_db s') of
             Inl e \<Rightarrow> (Inl e, s'\<lparr>is_db := is_db s\<rparr>)
           | Inr _ \<Rightarrow> (Inr x, s')))"

subsection \<open>Credentials\<close>

definition decodeMasterKey :: "string \<Rightarrow> bytes result" where
  "decodeMasterKey rawMasterKey =
     (case hex_DecodeString (TrimSpace rawMasterKey) of
        None \<Rightarrow> Inl (Errorf ''smtp identity: invalid master key: '' (External ''encoding/hex: invalid input'') '''')
      | Some key \<Rightarrow>
          if length key \<noteq> 32 then Inl (ErrorsNew ''smtp identity: master key must decode to 32 bytes'') else Inr key)"

text \<open>The primitives and the clock are those of the given repository; the argument \<open>db\<close> is \<open>None\<close> for the nil pointer.\<close>

definition NewIdentityRepository ::
  "('d, 'w) identity_repo \<Rightarrow> 'd identity_db option \<Rightarrow> string \<Rightarrow> ('d, 'w) identity_repo result" where
  "NewIdentityRepository environment db rawMasterKey =
     (case db of
        None \<Rightarrow> Inl (ErrorsNew ''smtp identity: database is required'')
      | Some tables \<Rightarrow>
          (case decodeMasterKey rawMasterKey of
             Inl e \<Rightarrow> Inl e
           | Inr key \<Rightarrow> Inr (environment\<lparr>rp_db := tables, rp_key := key\<rparr>)))"

definition ReadFull :: "nat \<Rightarrow> ('d, 'w, bytes) identity_io" where
  "ReadFull n s =
     (if length (is_random s) < n
      then (Inl (External (if is_random s = [] then ''EOF'' else ''unexpected EOF'')), s\<lparr>is_random := []\<rparr>)
      else (Inr (take n (is_random s)), s\<lparr>is_random := drop n (is_random s)\<rparr>))"

definition randomToken :: "nat \<Rightarrow> ('d, 'w, string) identity_io" where
  "randomToken byteCount =
     io_bind (io_wrap (\<lambda>e. Errorf ''smtp identity credential: random: '' e '''') (ReadFull byteCount)) (\<lambda>rawBytes.
     io_return (RawURLEncodeToString rawBytes))"

definition digest :: "('d, 'w) identity_repo \<Rightarrow> bytes \<Rightarrow> string \<Rightarrow> bytes" where
  "digest R salt password = rp_hmac R (rp_key R) (salt @ [CHR 0x00] @ password)"

definition encryptPassword :: "('d, 'w) identity_repo \<Rightarrow> string \<Rightarrow> ('d, 'w, bytes) identity_io" where
  "encryptPassword R password =
     (if \<not> aes_key_ok (rp_key R) then io_fail (External ''crypto/aes: invalid key size'')
      else io_bind (ReadFull gcm_nonce_size) (\<lambda>nonce.
           io_return (nonce @ aead_Seal (rp_aead R) (rp_key R) nonce password)))"

definition decryptPassword :: "('d, 'w) identity_repo \<Rightarrow> bytes \<Rightarrow> string result" where
  "decryptPassword R ciphertext =
     (if \<not> aes_key_ok (rp_key R) then Inl (External ''crypto/aes: invalid key size'')
      else if length ciphertext < gcm_nonce_size then Inl (ErrorsNew ''ciphertext too short'')
      else (case aead_Open (rp_aead R) (rp_key R) (take gcm_nonce_size ciphertext) (drop gcm_nonce_size ciphertext) of
          None \<Rightarrow> Inl (External ''cipher: message authentication failed'')
        | Some plaintext \<Rightarrow> Inr plaintext))"

definition newCredential :: "('d, 'w) identity_repo \<Rightarrow> ('d, 'w, credential) identity_io" where
  "newCredential R =
     io_bind (randomToken 12) (\<lambda>usernameToken.
     io_bind (randomToken 24) (\<lambda>passwordToken.
     io_bind (io_wrap (\<lambda>e. Errorf ''smtp identity credential: salt: '' e '''') (ReadFull 16)) (\<lambda>salt.
     let password = ''pgsmtp_'' @ passwordToken in
     io_bind (io_wrap (\<lambda>e. Errorf ''smtp identity credential: password cipher: '' e '''') (encryptPassword R password)) (\<lambda>passwordCipher.
     io_return \<lparr>cr_username = ''smtp_'' @ usernameToken, cr_password = password, cr_salt = salt,
       cr_digest = digest R salt password, cr_cipher = passwordCipher\<rparr>))))"

subsection \<open>Public shapes and validation\<close>

definition publicForwardRecipients :: "forward_recipient list \<Rightarrow> string list" where
  "publicForwardRecipients records = sort_by (\<le>) (map fr_EmailAddress records)"

definition publicIdentity :: "identity \<Rightarrow> forward_recipient list \<Rightarrow> public_identity" where
  "publicIdentity record forwardTo =
     \<lparr>pi_ID = id_ID record, pi_EmailAddress = id_EmailAddress record, pi_Username = id_Username record,
      pi_ForwardTo = publicForwardRecipients forwardTo, pi_Status = id_Status record,
      pi_LastUsedAt = id_LastUsedAt record, pi_CreatedAt = id_CreatedAt record, pi_UpdatedAt = id_UpdatedAt record\<rparr>"

fun validateForwardRecipientsLoop :: "string set \<Rightarrow> address list \<Rightarrow> unit result" where
  "validateForwardRecipientsLoop seenRecipients [] = Inr ()"
| "validateForwardRecipientsLoop seenRecipients (recipient # rest) =
     (let recipientKey = addr_value recipient in
      if recipientKey = '''' then Inl ErrForwardRecipientsRequired
      else if recipientKey \<in> seenRecipients then Inl (Errorf '''' ErrForwardRecipientDuplicate ('': '' @ recipientKey))
      else validateForwardRecipientsLoop (insert recipientKey seenRecipients) rest)"

definition validateForwardRecipients :: "address list \<Rightarrow> unit result" where
  "validateForwardRecipients forwardTo =
     (if length forwardTo = 0 then Inl ErrForwardRecipientsRequired else validateForwardRecipientsLoop {} forwardTo)"

fun validateForwardRecipientTarget :: "address \<Rightarrow> address list \<Rightarrow> unit result" where
  "validateForwardRecipientTarget address [] = Inr ()"
| "validateForwardRecipientTarget address (recipient # rest) =
     (if addr_Equals recipient address then Inl (Errorf '''' ErrForwardRecipientSelf ('': '' @ addr_value recipient))
      else validateForwardRecipientTarget address rest)"

definition normalizeOwnerEmail :: "('d, 'w) identity_repo \<Rightarrow> string \<Rightarrow> string" where
  "normalizeOwnerEmail R email =
     (case NewAddress (rp_mail R) email of Inl _ \<Rightarrow> ToLower (TrimSpace email) | Inr address \<Rightarrow> addr_value address)"

fun uuid_each :: "('d, 'w) identity_repo \<Rightarrow> (string \<Rightarrow> 'a \<Rightarrow> 'b) \<Rightarrow> 'a list \<Rightarrow> ('d, 'w, 'b list) identity_io" where
  "uuid_each R mk [] = io_return []"
| "uuid_each R mk (x # xs) =
     io_bind (NewString R) (\<lambda>u. io_bind (uuid_each R mk xs) (\<lambda>ys. io_return (mk u x # ys)))"

definition forwardRecipientRecords ::
  "('d, 'w) identity_repo \<Rightarrow> string \<Rightarrow> address list \<Rightarrow> time \<Rightarrow> ('d, 'w, forward_recipient list) identity_io" where
  "forwardRecipientRecords R identityID forwardTo now =
     io_bind (uuid_each R (\<lambda>u recipient. \<lparr>fr_ID = u, fr_IdentityID = identityID, fr_EmailAddress = addr_value recipient,
         fr_CreatedAt = now, fr_UpdatedAt = now\<rparr>) forwardTo) (\<lambda>records.
     io_return (sort_by (\<lambda>a b. fr_EmailAddress a \<le> fr_EmailAddress b) records))"

text \<open>A batch \<open>Create\<close> of a slice; GORM refuses an empty one.\<close>

definition createForwardRecipients ::
  "('d, 'w) identity_repo \<Rightarrow> string \<Rightarrow> address list \<Rightarrow> time \<Rightarrow> ('d, 'w, unit) identity_io" where
  "createForwardRecipients R identityID forwardTo now =
     io_bind (forwardRecipientRecords R identityID forwardTo now) (\<lambda>records.
     io_wrap (\<lambda>e. Errorf ''smtp identity forwarding recipients: '' e '''')
       (if records = [] then io_fail (External ''empty slice found'')
        else io_each (\<lambda>r. io_bind (write_idb (g_Create (ib_forwards (rp_db R)) r)) (\<lambda>_. io_return ())) records))"

subsection \<open>Lookups\<close>

text \<open>\<open>Preload("ForwardTo")\<close> reads the recipients of all records with one query; \<open>forwards_of\<close> are those of a record.\<close>

definition preloadForwardTo :: "('d, 'w) identity_repo \<Rightarrow> identity list \<Rightarrow> ('d, 'w, forward_recipient list) identity_io" where
  "preloadForwardTo R records =
     (if records = [] then io_return []
      else read_idb (g_Find (ib_forwards (rp_db R)) (\<lambda>f. fr_IdentityID f \<in> id_ID ` set records)
             (\<lambda>a b. fr_EmailAddress a \<le> fr_EmailAddress b) None))"

definition forwards_of :: "identity \<Rightarrow> forward_recipient list \<Rightarrow> forward_recipient list" where
  "forwards_of record fs = filter (\<lambda>f. fr_IdentityID f = id_ID record) fs"

definition in_scope :: "('d, 'w) identity_repo \<Rightarrow> access_scope \<Rightarrow> string \<Rightarrow> bool" where
  "in_scope R scope owner \<longleftrightarrow> as_Admin scope \<or> owner = normalizeOwnerEmail R (as_OwnerEmail scope)"

definition requireIdentityForScope ::
  "('d, 'w) identity_repo \<Rightarrow> access_scope \<Rightarrow> string \<Rightarrow> ('d, 'w, identity) identity_io" where
  "requireIdentityForScope R scope identityID s =
     (let normalizedIdentityID = TrimSpace identityID in
      case g_First (ib_identities (rp_db R))
          (\<lambda>r. where_field normalizedIdentityID (id_ID r) \<and> id_Status r = IdentityStatusActive
             \<and> in_scope R scope (id_OwnerEmail r)) (is_db s) of
        Inr record \<Rightarrow> (Inr record, s)
      | Inl e \<Rightarrow>
          (Inl (if errors_is e ErrRecordNotFound then ErrIdentityNotFound
                else Errorf (''smtp identity lookup: identity '' @ normalizedIdentityID @ '': '') e ''''), s))"

text \<open>The condition \<open>requireSenderDomainForScope\<close> builds for the sender domain row.\<close>

definition domain_allowed :: "('d, 'w) identity_repo \<Rightarrow> access_scope \<Rightarrow> string \<Rightarrow> sender_domain \<Rightarrow> bool" where
  "domain_allowed R scope normalizedDomain r \<longleftrightarrow>
     (let ownerEmail = normalizeOwnerEmail R (as_OwnerEmail scope) in
      sd_Domain r = normalizedDomain
      \<and> (if as_Admin scope
         then (sd_OwnerEmail r = ownerEmail \<and> sd_Status r = SenderDomainStatusVerified)
           \<or> (sd_OwnerEmail r = '''' \<and> (sd_Status r = SenderDomainStatusVerified \<or> sd_Status r = ''''))
         else sd_OwnerEmail r = ownerEmail \<and> sd_Status r = SenderDomainStatusVerified))"

definition requireSenderDomainForScope ::
  "('d, 'w) identity_repo \<Rightarrow> access_scope \<Rightarrow> string \<Rightarrow> ('d, 'w, unit) identity_io" where
  "requireSenderDomainForScope R scope domain s =
     (let normalizedDomain = ToLower (TrimSpace domain) in
      case g_First (ib_domains (rp_db R)) (domain_allowed R scope normalizedDomain) (is_db s) of
        Inr _ \<Rightarrow> (Inr (), s)
      | Inl e \<Rightarrow>
          (Inl (if errors_is e ErrRecordNotFound then Errorf '''' ErrSenderDomainNotAllowed ('': '' @ normalizedDomain)
                else Errorf (''smtp identity sender domain lookup: domain '' @ normalizedDomain @ '': '') e ''''), s))"

definition requireSenderDomainForIdentity ::
  "('d, 'w) identity_repo \<Rightarrow> string \<Rightarrow> string \<Rightarrow> ('d, 'w, unit) identity_io" where
  "requireSenderDomainForIdentity R ownerEmail domain =
     requireSenderDomainForScope R \<lparr>as_OwnerEmail = ownerEmail, as_Admin = True\<rparr> domain"

definition admin_scope :: access_scope where
  "admin_scope = \<lparr>as_OwnerEmail = '''', as_Admin = True\<rparr>"

subsection \<open>Operations on identities\<close>

definition ListForScope :: "('d, 'w) identity_repo \<Rightarrow> access_scope \<Rightarrow> ('d, 'w, public_identity list) identity_io" where
  "ListForScope R scope =
     io_wrap (\<lambda>e. Errorf ''smtp identity list: '' e '''')
       (io_bind (read_idb (g_Find (ib_identities (rp_db R))
          (\<lambda>r. id_Status r = IdentityStatusActive \<and> in_scope R scope (id_OwnerEmail r))
          (\<lambda>a b. id_EmailAddress a \<le> id_EmailAddress b) None)) (\<lambda>records.
        io_bind (preloadForwardTo R records) (\<lambda>fs.
        io_return (map (\<lambda>r. publicIdentity r (forwards_of r fs)) records))))"

definition identity_List :: "('d, 'w) identity_repo \<Rightarrow> ('d, 'w, public_identity list) identity_io" where
  "identity_List R = ListForScope R admin_scope"

text \<open>A \<open>Delete\<close> or \<open>Update\<close> whose only condition was left out is refused by GORM.\<close>

definition resetForwarding :: "('d, 'w) identity_repo \<Rightarrow> string \<Rightarrow> ('d, 'w, unit) identity_io" where
  "resetForwarding R identityID =
     (if identityID = '''' then io_fail (External ''WHERE conditions required'')
      else io_bind (write_idb (g_Delete (ib_forwards (rp_db R)) (\<lambda>f. where_field identityID (fr_IdentityID f)))) (\<lambda>_. io_return ()))"

definition reactivateIdentity ::
  "('d, 'w) identity_repo \<Rightarrow> identity \<Rightarrow> string \<Rightarrow> credential \<Rightarrow> address list \<Rightarrow> time \<Rightarrow> ('d, 'w, public_identity \<times> string) identity_io" where
  "reactivateIdentity R existing ownerEmail cred forwardTo now =
     (let record = existing\<lparr>id_OwnerEmail := ownerEmail, id_Username := cr_username cred, id_PasswordSalt := cr_salt cred,
            id_PasswordDigest := cr_digest cred, id_PasswordCipher := cr_cipher cred, id_Status := IdentityStatusActive,
            id_LastUsedAt := None, id_UpdatedAt := now\<rparr> in
      io_bind (identity_Transaction R
        (io_bind (io_wrap (\<lambda>e. Errorf ''smtp identity create: reset forwarding: '' e '''') (resetForwarding R (id_ID record))) (\<lambda>_.
         io_bind (io_wrap (\<lambda>e. Errorf ''smtp identity create: reactivate: '' e '''') (write_idb (g_Save (ib_identities (rp_db R)) record))) (\<lambda>saved.
         io_bind (createForwardRecipients R (id_ID saved) forwardTo now) (\<lambda>_. io_return saved))))) (\<lambda>saved.
      io_bind (forwardRecipientRecords R (id_ID saved) forwardTo now) (\<lambda>fs.
      io_return (publicIdentity saved fs, cr_password cred))))"

definition insertIdentity ::
  "('d, 'w) identity_repo \<Rightarrow> address \<Rightarrow> string \<Rightarrow> credential \<Rightarrow> address list \<Rightarrow> time \<Rightarrow> ('d, 'w, public_identity \<times> string) identity_io" where
  "insertIdentity R address ownerEmail cred forwardTo now =
     io_bind (NewString R) (\<lambda>uuid.
     let record = \<lparr>id_ID = uuid, id_OwnerEmail = ownerEmail, id_EmailAddress = addr_value address,
           id_Username = cr_username cred, id_PasswordSalt = cr_salt cred, id_PasswordDigest = cr_digest cred,
           id_PasswordCipher = cr_cipher cred, id_Status = IdentityStatusActive, id_LastUsedAt = None,
           id_CreatedAt = now, id_UpdatedAt = now\<rparr> in
     io_bind (identity_Transaction R
       (io_bind (io_wrap (\<lambda>e. Errorf ''smtp identity create: '' e '''') (write_idb (g_Create (ib_identities (rp_db R)) record))) (\<lambda>created.
        io_bind (createForwardRecipients R (id_ID created) forwardTo now) (\<lambda>_. io_return created)))) (\<lambda>created.
     io_bind (forwardRecipientRecords R (id_ID created) forwardTo now) (\<lambda>fs.
     io_return (publicIdentity created fs, cr_password cred))))"

definition CreateForScope ::
  "('d, 'w) identity_repo \<Rightarrow> access_scope \<Rightarrow> address \<Rightarrow> address list \<Rightarrow> ('d, 'w, public_identity \<times> string) identity_io" where
  "CreateForScope R scope address forwardTo =
     (let ownerEmail = normalizeOwnerEmail R (as_OwnerEmail scope) in
      io_bind (requireSenderDomainForScope R scope (addr_domain address)) (\<lambda>_.
      io_bind (io_lift (validateForwardRecipients forwardTo)) (\<lambda>_.
      io_bind (io_lift (validateForwardRecipientTarget address forwardTo)) (\<lambda>_.
      io_bind (io_try (read_idb (g_First (ib_identities (rp_db R)) (\<lambda>r. where_field (addr_value address) (id_EmailAddress r))))) (\<lambda>found.
      case found of
        Inr existing \<Rightarrow>
          if id_Status existing = IdentityStatusActive then io_fail ErrIdentityExists
          else io_bind (newCredential R) (\<lambda>cred.
               io_bind (clockFunc R) (\<lambda>now. reactivateIdentity R existing ownerEmail cred forwardTo now))
      | Inl findErr \<Rightarrow>
          if \<not> errors_is findErr ErrRecordNotFound then io_fail (Errorf ''smtp identity create: find existing: '' findErr '''')
          else io_bind (newCredential R) (\<lambda>cred.
               io_bind (clockFunc R) (\<lambda>now. insertIdentity R address ownerEmail cred forwardTo now)))))))"

definition identity_Create ::
  "('d, 'w) identity_repo \<Rightarrow> address \<Rightarrow> address list \<Rightarrow> ('d, 'w, public_identity \<times> string) identity_io" where
  "identity_Create R address forwardTo = CreateForScope R admin_scope address forwardTo"

text \<open>The identity is not preloaded here, so the public shape lists no recipients.\<close>

definition CredentialsForScope ::
  "('d, 'w) identity_repo \<Rightarrow> access_scope \<Rightarrow> string \<Rightarrow> ('d, 'w, public_identity \<times> string) identity_io" where
  "CredentialsForScope R scope identityID =
     io_bind (requireIdentityForScope R scope identityID) (\<lambda>record.
     io_bind (io_wrap (\<lambda>e. Errorf ''smtp identity credentials: decrypt password: '' e '''')
        (io_lift (decryptPassword R (id_PasswordCipher record)))) (\<lambda>password.
     io_return (publicIdentity record [], password)))"

definition UpdateForwardingForScope ::
  "('d, 'w) identity_repo \<Rightarrow> access_scope \<Rightarrow> string \<Rightarrow> address list \<Rightarrow> ('d, 'w, public_identity) identity_io" where
  "UpdateForwardingForScope R scope identityID forwardTo =
     io_bind (io_lift (validateForwardRecipients forwardTo)) (\<lambda>_.
     io_bind (requireIdentityForScope R scope identityID) (\<lambda>record.
     io_bind (io_wrap (\<lambda>e. Errorf ''smtp identity forwarding update: stored address: '' e '''')
        (io_lift (NewAddress (rp_mail R) (id_EmailAddress record)))) (\<lambda>recordAddress.
     io_bind (io_lift (validateForwardRecipientTarget recordAddress forwardTo)) (\<lambda>_.
     io_bind (clockFunc R) (\<lambda>now.
     io_bind (identity_Transaction R
       (io_bind (io_wrap (\<lambda>e. Errorf ''smtp identity forwarding update: reset: '' e '''') (resetForwarding R (id_ID record))) (\<lambda>_.
        io_bind (createForwardRecipients R (id_ID record) forwardTo now) (\<lambda>_.
        io_wrap (\<lambda>e. Errorf ''smtp identity forwarding update: timestamp: '' e '''')
          (if id_ID record = '''' then io_fail (External ''WHERE conditions required'')
           else io_bind (write_idb (g_Updates (ib_identities (rp_db R)) (\<lambda>r. where_field (id_ID record) (id_ID r))
                  (\<lambda>r. r\<lparr>id_UpdatedAt := now\<rparr>))) (\<lambda>_. io_return ())))))) (\<lambda>_.
     io_bind (forwardRecipientRecords R (id_ID record) forwardTo now) (\<lambda>fs.
     io_return (publicIdentity (record\<lparr>id_UpdatedAt := now\<rparr>) fs))))))))"

definition RotateForScope ::
  "('d, 'w) identity_repo \<Rightarrow> access_scope \<Rightarrow> string \<Rightarrow> ('d, 'w, public_identity \<times> string) identity_io" where
  "RotateForScope R scope identityID =
     io_bind (requireIdentityForScope R scope identityID) (\<lambda>record.
     io_bind (newCredential R) (\<lambda>cred.
     io_bind (clockFunc R) (\<lambda>now.
     io_bind (io_wrap (\<lambda>e. Errorf ''smtp identity rotate: '' e '''')
       (write_idb (g_Save (ib_identities (rp_db R))
         (record\<lparr>id_Username := cr_username cred, id_PasswordSalt := cr_salt cred, id_PasswordDigest := cr_digest cred,
            id_PasswordCipher := cr_cipher cred, id_UpdatedAt := now\<rparr>)))) (\<lambda>saved.
     io_return (publicIdentity saved [], cr_password cred)))))"

definition DeleteForScope :: "('d, 'w) identity_repo \<Rightarrow> access_scope \<Rightarrow> string \<Rightarrow> ('d, 'w, unit) identity_io" where
  "DeleteForScope R scope identityID =
     io_bind (requireIdentityForScope R scope identityID) (\<lambda>record.
     io_bind (clockFunc R) (\<lambda>now.
     io_bind (io_wrap (\<lambda>e. Errorf ''smtp identity delete: '' e '''')
       (write_idb (g_Save (ib_identities (rp_db R)) (record\<lparr>id_Status := IdentityStatusDeleted, id_UpdatedAt := now\<rparr>)))) (\<lambda>_.
     io_return ())))"

fun storedRecipients :: "('d, 'w) identity_repo \<Rightarrow> forward_recipient list \<Rightarrow> address list result" where
  "storedRecipients R [] = Inr []"
| "storedRecipients R (recipientRecord # rest) =
     (case NewAddress (rp_mail R) (fr_EmailAddress recipientRecord) of
        Inl e \<Rightarrow> Inl (Errorf ''smtp identity forwarding lookup: stored recipient: '' e '''')
      | Inr recipient \<Rightarrow>
          (case storedRecipients R rest of Inl e \<Rightarrow> Inl e | Inr recipients \<Rightarrow> Inr (recipient # recipients)))"

text \<open>The result \<open>None\<close> is the flag \<open>false\<close>: the address is not forwarded.\<close>

definition ResolveForwarding ::
  "('d, 'w) identity_repo \<Rightarrow> address \<Rightarrow> ('d, 'w, (address \<times> address list) option) identity_io" where
  "ResolveForwarding R address =
     io_bind (io_try
       (io_bind (read_idb (g_First (ib_identities (rp_db R))
          (\<lambda>r. where_field (addr_value address) (id_EmailAddress r) \<and> id_Status r = IdentityStatusActive))) (\<lambda>record.
        io_bind (preloadForwardTo R [record]) (\<lambda>fs. io_return (record, forwards_of record fs))))) (\<lambda>found.
     case found of
       Inl e \<Rightarrow>
         if errors_is e ErrRecordNotFound then io_return None
         else io_fail (Errorf ''smtp identity forwarding lookup: '' e '''')
     | Inr (record, forwardTo) \<Rightarrow>
         if length forwardTo = 0 then io_return None
         else io_bind (io_try (requireSenderDomainForIdentity R (id_OwnerEmail record) (addr_domain address))) (\<lambda>allowed.
           case allowed of
             Inl domainErr \<Rightarrow> if errors_is domainErr ErrSenderDomainNotAllowed then io_return None else io_fail domainErr
           | Inr _ \<Rightarrow>
               io_bind (io_lift (storedRecipients R forwardTo)) (\<lambda>recipients. io_return (Some (address, recipients)))))"

definition markAuthenticatedIdentityUsed ::
  "('d, 'w) identity_repo \<Rightarrow> identity \<Rightarrow> time \<Rightarrow> ('d, 'w, unit) identity_io" where
  "markAuthenticatedIdentityUsed R record now =
     io_bind (io_wrap (\<lambda>e. Errorf ''smtp identity auth: mark used: '' e '''')
       (write_idb (g_Updates (ib_identities (rp_db R))
         (\<lambda>r. id_ID r = id_ID record \<and> id_Status r = IdentityStatusActive \<and> id_Username r = id_Username record)
         (\<lambda>r. r\<lparr>id_LastUsedAt := Some now, id_UpdatedAt := now\<rparr>)))) (\<lambda>rowsAffected.
     if rowsAffected = 0 then io_fail ErrAuthenticationFailed else io_return ())"

definition Authenticate ::
  "('d, 'w) identity_repo \<Rightarrow> string \<Rightarrow> string \<Rightarrow> ('d, 'w, authenticated_identity) identity_io" where
  "Authenticate R username password =
     (let normalizedUsername = TrimSpace username in
      if normalizedUsername = '''' \<or> TrimSpace password = '''' then io_fail ErrAuthenticationFailed
      else io_bind (io_wrap (\<lambda>e. ErrAuthenticationFailed)
             (read_idb (g_First (ib_identities (rp_db R))
               (\<lambda>r. where_field normalizedUsername (id_Username r) \<and> id_Status r = IdentityStatusActive)))) (\<lambda>record.
      if digest R (id_PasswordSalt record) password \<noteq> id_PasswordDigest record then io_fail ErrAuthenticationFailed
      else io_bind (io_wrap (\<lambda>e. Errorf ''smtp identity auth: stored address: '' e '''')
             (io_lift (NewAddress (rp_mail R) (id_EmailAddress record)))) (\<lambda>address.
      io_bind (io_wrap (\<lambda>domainErr. if errors_is domainErr ErrSenderDomainNotAllowed then ErrAuthenticationFailed else domainErr)
             (requireSenderDomainForIdentity R (id_OwnerEmail record) (addr_domain address))) (\<lambda>_.
      io_bind (clockFunc R) (\<lambda>now.
      io_bind (markAuthenticatedIdentityUsed R record now) (\<lambda>_.
      io_return \<lparr>ai_ID = id_ID record, ai_EmailAddress = address, ai_Username = id_Username record\<rparr>))))))"

subsection \<open>Operations of an administrator\<close>

definition identity_Credentials :: "('d, 'w) identity_repo \<Rightarrow> string \<Rightarrow> ('d, 'w, public_identity \<times> string) identity_io" where
  "identity_Credentials R identityID = CredentialsForScope R admin_scope identityID"

definition identity_UpdateForwarding ::
  "('d, 'w) identity_repo \<Rightarrow> string \<Rightarrow> address list \<Rightarrow> ('d, 'w, public_identity) identity_io" where
  "identity_UpdateForwarding R identityID forwardTo = UpdateForwardingForScope R admin_scope identityID forwardTo"

definition identity_Rotate :: "('d, 'w) identity_repo \<Rightarrow> string \<Rightarrow> ('d, 'w, public_identity \<times> string) identity_io" where
  "identity_Rotate R identityID = RotateForScope R admin_scope identityID"

definition identity_Delete :: "('d, 'w) identity_repo \<Rightarrow> string \<Rightarrow> ('d, 'w, unit) identity_io" where
  "identity_Delete R identityID = DeleteForScope R admin_scope identityID"

subsection \<open>Operations on sender domains\<close>

definition ListSenderDomainsForScope ::
  "('d, 'w) identity_repo \<Rightarrow> access_scope \<Rightarrow> ('d, 'w, sender_domain list) identity_io" where
  "ListSenderDomainsForScope R scope =
     io_wrap (\<lambda>e. Errorf ''smtp identity sender domains list: '' e '''')
       (read_idb (g_Find (ib_domains (rp_db R)) (\<lambda>r. in_scope R scope (sd_OwnerEmail r))
          (\<lambda>a b. sd_Domain a \<le> sd_Domain b) None))"

definition ensureSenderDomainToken ::
  "('d, 'w) identity_repo \<Rightarrow> sender_domain \<Rightarrow> ('d, 'w, sender_domain) identity_io" where
  "ensureSenderDomainToken R record =
     (if TrimSpace (sd_VerificationToken record) \<noteq> '''' then io_return record
      else io_bind (randomToken 24) (\<lambda>token.
           io_bind (clockFunc R) (\<lambda>now.
           io_wrap (\<lambda>e. Errorf ''smtp identity sender domain token: '' e '''')
             (write_idb (g_Save (ib_domains (rp_db R)) (record\<lparr>sd_VerificationToken := token, sd_UpdatedAt := now\<rparr>))))))"

definition CreateSenderDomainForScope ::
  "('d, 'w) identity_repo \<Rightarrow> access_scope \<Rightarrow> string \<Rightarrow> ('d, 'w, sender_domain) identity_io" where
  "CreateSenderDomainForScope R scope domain =
     io_bind (io_lift (NormalizeSenderDomain domain)) (\<lambda>normalizedDomain.
     if normalizedDomain = '''' then io_fail ErrInvalidSenderDomain
     else let ownerEmail = normalizeOwnerEmail R (as_OwnerEmail scope) in
     io_bind (io_try (read_idb (g_First (ib_domains (rp_db R)) (\<lambda>r. sd_Domain r = normalizedDomain)))) (\<lambda>found.
     case found of
       Inr existing \<Rightarrow>
         if sd_OwnerEmail existing = ownerEmail \<or> as_Admin scope then ensureSenderDomainToken R existing
         else io_fail (Errorf '''' ErrSenderDomainExists ('': '' @ normalizedDomain))
     | Inl findErr \<Rightarrow>
         if \<not> errors_is findErr ErrRecordNotFound then io_fail (Errorf ''smtp identity sender domain lookup: '' findErr '''')
         else io_bind (randomToken 24) (\<lambda>token.
              io_bind (clockFunc R) (\<lambda>now.
              io_wrap (\<lambda>e. Errorf ''smtp identity sender domain create: '' e '''')
                (write_idb (g_Create (ib_domains (rp_db R))
                  \<lparr>sd_ID = 0, sd_OwnerEmail = ownerEmail, sd_Domain = normalizedDomain, sd_Status = SenderDomainStatusPending,
                   sd_VerificationToken = token, sd_LastCheckedAt = None, sd_CreatedAt = now, sd_UpdatedAt = now\<rparr>))))))"

definition RequireSenderDomainForScope ::
  "('d, 'w) identity_repo \<Rightarrow> access_scope \<Rightarrow> nat \<Rightarrow> ('d, 'w, sender_domain) identity_io" where
  "RequireSenderDomainForScope R scope domainID =
     io_bind (io_try (read_idb (g_First (ib_domains (rp_db R)) (\<lambda>r. sd_ID r = domainID \<and> in_scope R scope (sd_OwnerEmail r))))) (\<lambda>found.
     case found of
       Inl e \<Rightarrow>
         io_fail (if errors_is e ErrRecordNotFound then ErrSenderDomainNotFound
                  else Errorf ''smtp identity sender domain lookup: '' e '''')
     | Inr record \<Rightarrow> ensureSenderDomainToken R record)"

definition UpdateSenderDomainStatusForScope ::
  "('d, 'w) identity_repo \<Rightarrow> access_scope \<Rightarrow> nat \<Rightarrow> string \<Rightarrow> time \<Rightarrow> ('d, 'w, sender_domain) identity_io" where
  "UpdateSenderDomainStatusForScope R scope domainID status checkedAt =
     io_bind (RequireSenderDomainForScope R scope domainID) (\<lambda>record.
     io_wrap (\<lambda>e. Errorf ''smtp identity sender domain status: '' e '''')
       (write_idb (g_Save (ib_domains (rp_db R))
         (record\<lparr>sd_Status := status, sd_LastCheckedAt := Some checkedAt, sd_UpdatedAt := checkedAt\<rparr>))))"

subsection \<open>The service\<close>

record credentials =
  cs_Identity :: public_identity
  cs_SMTPSettings :: public_settings
  cs_Username :: string
  cs_Password :: string

record ('d, 'w) identity_service =
  sv_repository :: "('d, 'w) identity_repo"
  sv_settings :: public_settings
  sv_resolver :: "'w dns_resolver"

definition service_credentials :: "('d, 'w) identity_service \<Rightarrow> public_identity \<times> string \<Rightarrow> credentials" where
  "service_credentials S result =
     (let (identity, password) = result in
      \<lparr>cs_Identity = identity, cs_SMTPSettings = sv_settings S, cs_Username = pi_Username identity, cs_Password = password\<rparr>)"

definition with_credentials ::
  "('d, 'w) identity_service \<Rightarrow> ('d, 'w, public_identity \<times> string) identity_io \<Rightarrow> ('d, 'w, credentials) identity_io" where
  "with_credentials S m = io_bind m (\<lambda>r. io_return (service_credentials S r))"

definition service_ListForScope ::
  "('d, 'w) identity_service \<Rightarrow> access_scope \<Rightarrow> ('d, 'w, public_identity list) identity_io" where
  "service_ListForScope S scope = ListForScope (sv_repository S) scope"

definition service_CredentialsForScope ::
  "('d, 'w) identity_service \<Rightarrow> access_scope \<Rightarrow> string \<Rightarrow> ('d, 'w, credentials) identity_io" where
  "service_CredentialsForScope S scope identityID =
     with_credentials S (CredentialsForScope (sv_repository S) scope (TrimSpace identityID))"

definition service_CreateForScope ::
  "('d, 'w) identity_service \<Rightarrow> access_scope \<Rightarrow> address \<Rightarrow> address list \<Rightarrow> ('d, 'w, credentials) identity_io" where
  "service_CreateForScope S scope address forwardTo =
     with_credentials S (CreateForScope (sv_repository S) scope address forwardTo)"

definition service_UpdateForwardingForScope ::
  "('d, 'w) identity_service \<Rightarrow> access_scope \<Rightarrow> string \<Rightarrow> address list \<Rightarrow> ('d, 'w, public_identity) identity_io" where
  "service_UpdateForwardingForScope S scope identityID forwardTo =
     UpdateForwardingForScope (sv_repository S) scope (TrimSpace identityID) forwardTo"

definition service_RotateForScope ::
  "('d, 'w) identity_service \<Rightarrow> access_scope \<Rightarrow> string \<Rightarrow> ('d, 'w, credentials) identity_io" where
  "service_RotateForScope S scope identityID =
     with_credentials S (RotateForScope (sv_repository S) scope (TrimSpace identityID))"

definition service_DeleteForScope ::
  "('d, 'w) identity_service \<Rightarrow> access_scope \<Rightarrow> string \<Rightarrow> ('d, 'w, unit) identity_io" where
  "service_DeleteForScope S scope identityID = DeleteForScope (sv_repository S) scope (TrimSpace identityID)"

definition service_List :: "('d, 'w) identity_service \<Rightarrow> ('d, 'w, public_identity list) identity_io" where
  "service_List S = identity_List (sv_repository S)"

definition service_Credentials :: "('d, 'w) identity_service \<Rightarrow> string \<Rightarrow> ('d, 'w, credentials) identity_io" where
  "service_Credentials S identityID = with_credentials S (identity_Credentials (sv_repository S) (TrimSpace identityID))"

definition service_Create ::
  "('d, 'w) identity_service \<Rightarrow> address \<Rightarrow> address list \<Rightarrow> ('d, 'w, credentials) identity_io" where
  "service_Create S address forwardTo = with_credentials S (identity_Create (sv_repository S) address forwardTo)"

definition service_UpdateForwarding ::
  "('d, 'w) identity_service \<Rightarrow> string \<Rightarrow> address list \<Rightarrow> ('d, 'w, public_identity) identity_io" where
  "service_UpdateForwarding S identityID forwardTo =
     identity_UpdateForwarding (sv_repository S) (TrimSpace identityID) forwardTo"

definition service_Rotate :: "('d, 'w) identity_service \<Rightarrow> string \<Rightarrow> ('d, 'w, credentials) identity_io" where
  "service_Rotate S identityID = with_credentials S (identity_Rotate (sv_repository S) (TrimSpace identityID))"

definition service_Delete :: "('d, 'w) identity_service \<Rightarrow> string \<Rightarrow> ('d, 'w, unit) identity_io" where
  "service_Delete S identityID = identity_Delete (sv_repository S) (TrimSpace identityID)"

definition service_ListSenderDomains ::
  "('d, 'w) identity_service \<Rightarrow> access_scope \<Rightarrow> ('d, 'w, public_sender_domain list) identity_io" where
  "service_ListSenderDomains S scope =
     io_bind (ListSenderDomainsForScope (sv_repository S) scope) (\<lambda>domains.
     io_return (map (\<lambda>d. publicSenderDomain (sv_settings S) d []) domains))"

definition service_CreateSenderDomain ::
  "('d, 'w) identity_service \<Rightarrow> access_scope \<Rightarrow> string \<Rightarrow> ('d, 'w, public_sender_domain) identity_io" where
  "service_CreateSenderDomain S scope domain =
     io_bind (CreateSenderDomainForScope (sv_repository S) scope domain) (\<lambda>record.
     io_return (publicSenderDomain (sv_settings S) record []))"

definition service_checkDNS ::
  "('d, 'w) identity_service \<Rightarrow> sender_domain \<Rightarrow> ('d, 'w, dns_check list) identity_io" where
  "service_checkDNS S record s =
     (case checkSenderDomainDNS (sv_resolver S) (sv_settings S) record (is_world s) of (checks, w) \<Rightarrow> (Inr checks, s\<lparr>is_world := w\<rparr>))"

definition CheckSenderDomainDNS ::
  "('d, 'w) identity_service \<Rightarrow> access_scope \<Rightarrow> nat \<Rightarrow> ('d, 'w, public_sender_domain) identity_io" where
  "CheckSenderDomainDNS S scope domainID =
     io_bind (RequireSenderDomainForScope (sv_repository S) scope domainID) (\<lambda>record.
     io_bind (service_checkDNS S record) (\<lambda>checks.
     let nextStatus = (if allDNSChecksPassed checks then SenderDomainStatusVerified else SenderDomainStatusPending) in
     io_bind (clockFunc (sv_repository S)) (\<lambda>now.
     io_bind (UpdateSenderDomainStatusForScope (sv_repository S) scope domainID nextStatus now) (\<lambda>updated.
     io_return (publicSenderDomain (sv_settings S) updated checks)))))"

end
