(* ===== verification/Identity_Access.thy ===== *)
theory Identity_Access
  imports Smtp_Identity
begin

text \<open>
  What the SMTP identity store guarantees, over the documented behaviour of its three tables
  (\<open>identity_db_law\<close>): who authenticates, that new credentials work and revoked ones do not, that the
  operations of one owner leave the identities of the others alone, and that forwarding routes are
  those last configured.
\<close>

subsection \<open>The tables\<close>

record identity_store =
  st_identities :: "identity list"
  st_forwards :: "forward_recipient list"
  st_domains :: "sender_domain list"

definition same_identity :: "identity \<Rightarrow> identity \<Rightarrow> bool" where
  "same_identity r r' \<longleftrightarrow> r'\<lparr>id_CreatedAt := 0, id_UpdatedAt := 0\<rparr> = r\<lparr>id_CreatedAt := 0, id_UpdatedAt := 0\<rparr>"

definition same_forward :: "forward_recipient \<Rightarrow> forward_recipient \<Rightarrow> bool" where
  "same_forward f f' \<longleftrightarrow> f'\<lparr>fr_CreatedAt := 0, fr_UpdatedAt := 0\<rparr> = f\<lparr>fr_CreatedAt := 0, fr_UpdatedAt := 0\<rparr>"

definition same_sender_domain :: "sender_domain \<Rightarrow> sender_domain \<Rightarrow> bool" where
  "same_sender_domain r r' \<longleftrightarrow>
     r'\<lparr>sd_ID := 0, sd_CreatedAt := 0, sd_UpdatedAt := 0\<rparr> = r\<lparr>sd_ID := 0, sd_CreatedAt := 0, sd_UpdatedAt := 0\<rparr>"

text \<open>The primary keys and unique indexes the models declare.\<close>

definition unique_ok :: "identity_store \<Rightarrow> bool" where
  "unique_ok st \<longleftrightarrow>
     distinct (map id_ID (st_identities st)) \<and> distinct (map id_EmailAddress (st_identities st))
     \<and> distinct (map id_Username (st_identities st))
     \<and> distinct (map sd_ID (st_domains st)) \<and> distinct (map sd_Domain (st_domains st))"

definition identity_reads_law :: "'d identity_db \<Rightarrow> ('d \<Rightarrow> identity_store) \<Rightarrow> bool" where
  "identity_reads_law DB sto \<longleftrightarrow>
     first_law (ib_identities DB) (st_identities \<circ> sto) \<and> find_law (ib_identities DB) (st_identities \<circ> sto)
     \<and> find_law (ib_forwards DB) (st_forwards \<circ> sto)
     \<and> first_law (ib_domains DB) (st_domains \<circ> sto) \<and> find_law (ib_domains DB) (st_domains \<circ> sto)"

text \<open>Writes that succeed: an insert appends its row, \<open>Save\<close> replaces the row of the same key, \<open>Updates\<close> changes and
  \<open>Delete\<close> removes the selected rows; an insert or a save that would break a unique index fails.\<close>

definition identity_writes_law :: "'d identity_db \<Rightarrow> ('d \<Rightarrow> identity_store) \<Rightarrow> bool" where
  "identity_writes_law DB sto \<longleftrightarrow>
     (\<forall>r d r' d'. g_Create (ib_identities DB) r d = (Inr r', d') \<longrightarrow>
        same_identity r r' \<and> sto d' = (sto d)\<lparr>st_identities := st_identities (sto d) @ [r']\<rparr> \<and> unique_ok (sto d'))
     \<and> (\<forall>r d r' d'. g_Save (ib_identities DB) r d = (Inr r', d') \<longrightarrow> id_ID r \<in> id_ID ` set (st_identities (sto d)) \<longrightarrow>
        same_identity r r'
        \<and> sto d' = (sto d)\<lparr>st_identities := map (\<lambda>x. if id_ID x = id_ID r then r' else x) (st_identities (sto d))\<rparr> \<and> unique_ok (sto d'))
     \<and> (\<forall>p f d n d'. g_Updates (ib_identities DB) p f d = (Inr n, d') \<longrightarrow>
        n = length (filter p (st_identities (sto d)))
        \<and> sto d' = (sto d)\<lparr>st_identities := map (\<lambda>x. if p x then f x else x) (st_identities (sto d))\<rparr>)
     \<and> (\<forall>f d f' d'. g_Create (ib_forwards DB) f d = (Inr f', d') \<longrightarrow>
        same_forward f f' \<and> sto d' = (sto d)\<lparr>st_forwards := st_forwards (sto d) @ [f']\<rparr>)
     \<and> (\<forall>p d n d'. g_Delete (ib_forwards DB) p d = (Inr n, d') \<longrightarrow>
        sto d' = (sto d)\<lparr>st_forwards := filter (\<lambda>f. \<not> p f) (st_forwards (sto d))\<rparr>)
     \<and> (\<forall>r d r' d'. g_Create (ib_domains DB) r d = (Inr r', d') \<longrightarrow>
        same_sender_domain r r' \<and> sto d' = (sto d)\<lparr>st_domains := st_domains (sto d) @ [r']\<rparr> \<and> unique_ok (sto d'))
     \<and> (\<forall>r d r' d'. g_Save (ib_domains DB) r d = (Inr r', d') \<longrightarrow> sd_ID r \<in> sd_ID ` set (st_domains (sto d)) \<longrightarrow>
        same_sender_domain r r' \<and> sd_ID r' = sd_ID r
        \<and> sto d' = (sto d)\<lparr>st_domains := map (\<lambda>x. if sd_ID x = sd_ID r then r' else x) (st_domains (sto d))\<rparr> \<and> unique_ok (sto d'))"

text \<open>A call that fails changes nothing.\<close>

definition identity_errors_law :: "'d identity_db \<Rightarrow> ('d \<Rightarrow> identity_store) \<Rightarrow> bool" where
  "identity_errors_law DB sto \<longleftrightarrow>
     (\<forall>r d e d'. g_Create (ib_identities DB) r d = (Inl e, d') \<or> g_Save (ib_identities DB) r d = (Inl e, d') \<longrightarrow> sto d' = sto d)
     \<and> (\<forall>p f d e d'. g_Updates (ib_identities DB) p f d = (Inl e, d') \<longrightarrow> sto d' = sto d)"

definition identity_db_law :: "'d identity_db \<Rightarrow> ('d \<Rightarrow> identity_store) \<Rightarrow> bool" where
  "identity_db_law DB sto \<longleftrightarrow> identity_reads_law DB sto \<and> identity_writes_law DB sto \<and> identity_errors_law DB sto"

lemma same_identity_fields:
  assumes "same_identity r r'"
  shows "id_ID r' = id_ID r" "id_OwnerEmail r' = id_OwnerEmail r" "id_EmailAddress r' = id_EmailAddress r"
    "id_Username r' = id_Username r" "id_PasswordSalt r' = id_PasswordSalt r" "id_PasswordDigest r' = id_PasswordDigest r"
    "id_PasswordCipher r' = id_PasswordCipher r" "id_Status r' = id_Status r"
  using assms by (cases r; cases r'; simp add: same_identity_def)+

lemma same_forward_fields:
  assumes "same_forward f f'"
  shows "fr_IdentityID f' = fr_IdentityID f" "fr_EmailAddress f' = fr_EmailAddress f"
  using assms by (cases f; cases f'; simp add: same_forward_def)+

lemma identity_reads:
  assumes "identity_db_law DB sto"
  shows "g_First (ib_identities DB) p d = Inr r \<Longrightarrow> r \<in> set (st_identities (sto d)) \<and> p r"
    and "g_First (ib_domains DB) q d = Inr x \<Longrightarrow> x \<in> set (st_domains (sto d)) \<and> q x"
proof -
  have f: "first_law (ib_identities DB) (st_identities \<circ> sto)" "first_law (ib_domains DB) (st_domains \<circ> sto)"
    using assms by (simp_all add: identity_db_law_def identity_reads_law_def)
  show "g_First (ib_identities DB) p d = Inr r \<Longrightarrow> r \<in> set (st_identities (sto d)) \<and> p r"
    using f(1) unfolding first_law_def by (metis comp_apply)
  show "g_First (ib_domains DB) q d = Inr x \<Longrightarrow> x \<in> set (st_domains (sto d)) \<and> q x"
    using f(2) unfolding first_law_def by (metis comp_apply)
qed

lemma identity_writes:
  assumes "identity_db_law DB sto"
  shows "g_Create (ib_identities DB) r d = (Inr r', d') \<Longrightarrow>
      same_identity r r' \<and> sto d' = (sto d)\<lparr>st_identities := st_identities (sto d) @ [r']\<rparr> \<and> unique_ok (sto d')"
    and "g_Save (ib_identities DB) r d = (Inr r', d') \<Longrightarrow> id_ID r \<in> id_ID ` set (st_identities (sto d)) \<Longrightarrow>
      same_identity r r'
      \<and> sto d' = (sto d)\<lparr>st_identities := map (\<lambda>x. if id_ID x = id_ID r then r' else x) (st_identities (sto d))\<rparr> \<and> unique_ok (sto d')"
    and "g_Updates (ib_identities DB) p g d = (Inr n, d') \<Longrightarrow>
      n = length (filter p (st_identities (sto d)))
      \<and> sto d' = (sto d)\<lparr>st_identities := map (\<lambda>x. if p x then g x else x) (st_identities (sto d))\<rparr>"
    and "g_Create (ib_forwards DB) f d = (Inr f', d') \<Longrightarrow>
      same_forward f f' \<and> sto d' = (sto d)\<lparr>st_forwards := st_forwards (sto d) @ [f']\<rparr>"
    and "g_Delete (ib_forwards DB) q d = (Inr n, d') \<Longrightarrow>
      sto d' = (sto d)\<lparr>st_forwards := filter (\<lambda>f. \<not> q f) (st_forwards (sto d))\<rparr>"
proof -
  have L: "identity_writes_law DB sto" using assms by (simp add: identity_db_law_def)
  note W = L[unfolded identity_writes_law_def]
  show "g_Create (ib_identities DB) r d = (Inr r', d') \<Longrightarrow>
      same_identity r r' \<and> sto d' = (sto d)\<lparr>st_identities := st_identities (sto d) @ [r']\<rparr> \<and> unique_ok (sto d')"
    by (rule W[THEN conjunct1, rule_format])
  note W = W[THEN conjunct2]
  show "g_Save (ib_identities DB) r d = (Inr r', d') \<Longrightarrow> id_ID r \<in> id_ID ` set (st_identities (sto d)) \<Longrightarrow>
      same_identity r r'
      \<and> sto d' = (sto d)\<lparr>st_identities := map (\<lambda>x. if id_ID x = id_ID r then r' else x) (st_identities (sto d))\<rparr> \<and> unique_ok (sto d')"
    by (rule W[THEN conjunct1, rule_format])
  note W = W[THEN conjunct2]
  show "g_Updates (ib_identities DB) p g d = (Inr n, d') \<Longrightarrow>
      n = length (filter p (st_identities (sto d)))
      \<and> sto d' = (sto d)\<lparr>st_identities := map (\<lambda>x. if p x then g x else x) (st_identities (sto d))\<rparr>"
    by (rule W[THEN conjunct1, rule_format])
  note W = W[THEN conjunct2]
  show "g_Create (ib_forwards DB) f d = (Inr f', d') \<Longrightarrow>
      same_forward f f' \<and> sto d' = (sto d)\<lparr>st_forwards := st_forwards (sto d) @ [f']\<rparr>"
    by (rule W[THEN conjunct1, rule_format])
  note W = W[THEN conjunct2]
  show "g_Delete (ib_forwards DB) q d = (Inr n, d') \<Longrightarrow>
      sto d' = (sto d)\<lparr>st_forwards := filter (\<lambda>f. \<not> q f) (st_forwards (sto d))\<rparr>"
    by (rule W[THEN conjunct1, rule_format])
qed

lemma identity_errors:
  assumes "identity_db_law DB sto"
  shows "g_Save (ib_identities DB) r d = (Inl e, d') \<Longrightarrow> sto d' = sto d"
    and "g_Updates (ib_identities DB) p g d = (Inl e, d') \<Longrightarrow> sto d' = sto d"
proof -
  have L: "identity_errors_law DB sto" using assms by (simp add: identity_db_law_def)
  note E = L[unfolded identity_errors_law_def]
  show "g_Save (ib_identities DB) r d = (Inl e, d') \<Longrightarrow> sto d' = sto d" by (rule E[THEN conjunct1, rule_format]) (rule disjI2)
  show "g_Updates (ib_identities DB) p g d = (Inl e, d') \<Longrightarrow> sto d' = sto d" by (rule E[THEN conjunct2, rule_format])
qed

subsection \<open>Addresses\<close>

lemma NewAddress_again:
  assumes M: "mail_addr_spec M" and a: "NewAddress M raw = Inr a"
  shows "NewAddress M (addr_value a) = Inr a"
proof -
  note s = NewAddress_spec[OF M a]
  have t: "TrimSpace (addr_value a) = addr_value a" unfolding s(1) by simp
  obtain l where l: "addr_value a = l @ CHR ''@'' # addr_domain a" "CHR ''@'' \<notin> set l" using s(3) by blast
  have nc: "\<not> ContainsAny (addr_value a) [CHR 0x0D, CHR 0x0A]"
    using NewAddress_no_newline[OF a] by (auto simp: ContainsAny_def)
  have ne: "addr_value a \<noteq> ''''" using l(1) by auto
  obtain b where b: "NewAddress M (addr_value a) = Inr b"
    by (cases "Cut (addr_value a) (CHR ''@'')") (simp add: NewAddress_def Let_def t s(2) nc ne)
  note sb = NewAddress_spec[OF M b]
  have v: "addr_value b = addr_value a" unfolding sb(1) t using s(1) by (simp add: norm_simps)
  obtain l' where l': "addr_value b = l' @ CHR ''@'' # addr_domain b" "CHR ''@'' \<notin> set l'" using sb(3) by blast
  have "Cut (addr_value a) (CHR ''@'') = (l, addr_domain a, True)" "Cut (addr_value a) (CHR ''@'') = (l', addr_domain b, True)"
    using l l' v by (simp_all add: Cut_found)
  then have "addr_domain b = addr_domain a" by simp
  with v b show ?thesis by simp
qed

subsection \<open>What the steps of an operation do\<close>

lemma read_idb_run [io_success]: "read_idb q s = (r, s') \<longleftrightarrow> r = q (is_db s) \<and> s' = s"
  by (auto simp: read_idb_def)

lemma write_idb_run [io_success]: "write_idb m s = (r, s') \<longleftrightarrow> (\<exists>d. m (is_db s) = (r, d) \<and> s' = s\<lparr>is_db := d\<rparr>)"
  by (auto simp: write_idb_def split: prod.splits)

lemma keeps_clock [io_keeps_intros]: "io_keeps is_db (clockFunc R)"
  by (simp add: io_keeps_def clockFunc_def split: prod.splits)

lemma keeps_uuid [io_keeps_intros]: "io_keeps is_db (NewString R)"
  by (simp add: io_keeps_def NewString_def split: prod.splits)

lemma keeps_ReadFull [io_keeps_intros]: "io_keeps is_db (ReadFull n)"
  by (simp add: io_keeps_def ReadFull_def)

lemma keeps_read_idb [io_keeps_intros]: "io_keeps is_db (read_idb q)"
  by (simp add: io_keeps_def read_idb_def)

lemma keeps_randomToken [io_keeps_intros]: "io_keeps is_db (randomToken n)"
  unfolding randomToken_def by (intro io_keeps_intros)

lemma keeps_encrypt [io_keeps_intros]: "io_keeps is_db (encryptPassword R pw)"
  unfolding encryptPassword_def by (auto intro!: io_keeps_intros)

lemma keeps_newCredential [io_keeps_intros]: "io_keeps is_db (newCredential R)"
  unfolding newCredential_def Let_def by (intro io_keeps_intros)

lemma keeps_uuid_each: "io_keeps is_db (uuid_each R mk xs)"
  by (induction xs) (auto intro!: io_keeps_intros)

lemma keeps_forwardRecipientRecords [io_keeps_intros]: "io_keeps is_db (forwardRecipientRecords R i fw now)"
  unfolding forwardRecipientRecords_def by (intro io_keeps_intros keeps_uuid_each)

lemma keeps_requireSenderDomain [io_keeps_intros]: "io_keeps is_db (requireSenderDomainForScope R scope domain)"
  by (simp add: io_keeps_def requireSenderDomainForScope_def Let_def split: sum.splits)

lemma requireIdentity_success:
  assumes "identity_db_law (rp_db R) sto" "requireIdentityForScope R scope i s = (Inr r, s')"
  shows "s' = s" "r \<in> set (st_identities (sto (is_db s)))" "id_Status r = IdentityStatusActive"
    "in_scope R scope (id_OwnerEmail r)" "where_field (TrimSpace i) (id_ID r)"
  using assms(2) identity_reads(1)[OF assms(1), of _ "is_db s" r]
  by (auto simp: requireIdentityForScope_def Let_def split: sum.splits)

lemma requireIdentity_state: "snd (requireIdentityForScope R scope i s) = s"
  by (simp add: requireIdentityForScope_def Let_def split: sum.splits)

lemma keeps_requireIdentity [io_keeps_intros]: "io_keeps is_db (requireIdentityForScope R scope i)"
  by (simp add: io_keeps_def requireIdentity_state)

lemma identity_Transaction_Inr [io_success]:
  "identity_Transaction R f s = (Inr x, s') \<longleftrightarrow> f s = (Inr x, s') \<and> is_ok (ib_Commit (rp_db R) (is_db s'))"
  by (auto simp: identity_Transaction_def is_ok_def split: prod.splits sum.splits)

lemma identity_Transaction_Inl: "identity_Transaction R f s = (Inl e, s') \<Longrightarrow> is_db s' = is_db s"
  by (auto simp: identity_Transaction_def split: prod.splits sum.splits)

lemma map_sort_by: "map f (sort_by (\<lambda>a b. le (f a) (f b)) xs) = sort_by le (map f xs)"
proof -
  have "map f (insort_by (\<lambda>a b. le (f a) (f b)) x ys) = insort_by le (f x) (map f ys)" for x ys
    by (induction ys) auto
  then show ?thesis by (induction xs) (simp_all add: sort_by_def)
qed

lemma uuid_each_fields:
  assumes "\<And>u x. g (mk u x) = h x"
  shows "uuid_each R mk xs s = (Inr ys, s') \<Longrightarrow> map g ys = map h xs"
  by (induction xs arbitrary: s ys) (auto simp: io_success assms)

lemma forwardRecipientRecords_success:
  assumes "forwardRecipientRecords R i fw now s = (Inr fs, s')"
  shows "map fr_EmailAddress fs = sort_by (\<le>) (map addr_value fw)" "\<forall>f \<in> set fs. fr_IdentityID f = i"
proof -
  let ?mk = "\<lambda>u recipient. \<lparr>fr_ID = u, fr_IdentityID = i, fr_EmailAddress = addr_value recipient, fr_CreatedAt = now, fr_UpdatedAt = now\<rparr>"
  from assms obtain rs where rs: "uuid_each R ?mk fw s = (Inr rs, s')" "fs = sort_by (\<lambda>a b. fr_EmailAddress a \<le> fr_EmailAddress b) rs"
    by (auto simp: forwardRecipientRecords_def io_success)
  have "map fr_EmailAddress rs = map addr_value fw" by (rule uuid_each_fields[OF _ rs(1)]) simp
  then show "map fr_EmailAddress fs = sort_by (\<le>) (map addr_value fw)" by (simp add: rs(2) map_sort_by)
  have "map fr_IdentityID rs = map (\<lambda>_. i) fw" by (rule uuid_each_fields[OF _ rs(1)]) simp
  then have "\<forall>f \<in> set rs. fr_IdentityID f = i" by (metis (no_types, lifting) imageE image_eqI list.set_map)
  then show "\<forall>f \<in> set fs. fr_IdentityID f = i" by (simp add: rs(2))
qed

lemma create_forwards_each:
  assumes L: "identity_db_law (rp_db R) sto"
  shows "io_each (\<lambda>r. io_bind (write_idb (g_Create (ib_forwards (rp_db R)) r)) (\<lambda>_. io_return ())) fs s = (Inr (), s') \<Longrightarrow>
    \<exists>gs. sto (is_db s') = (sto (is_db s))\<lparr>st_forwards := st_forwards (sto (is_db s)) @ gs\<rparr>
      \<and> map fr_EmailAddress gs = map fr_EmailAddress fs \<and> map fr_IdentityID gs = map fr_IdentityID fs"
proof (induction fs arbitrary: s)
  case Nil
  then show ?case by (intro exI[of _ "[]"]) simp
next
  case (Cons f fs)
  from Cons.prems obtain f' d where f: "g_Create (ib_forwards (rp_db R)) f (is_db s) = (Inr f', d)"
    and e: "io_each (\<lambda>r. io_bind (write_idb (g_Create (ib_forwards (rp_db R)) r)) (\<lambda>_. io_return ())) fs (s\<lparr>is_db := d\<rparr>) = (Inr (), s')"
    by (auto simp: io_success)
  note w = identity_writes(4)[OF L f]
  from Cons.IH[OF e] obtain gs where gs: "sto (is_db s') = (sto d)\<lparr>st_forwards := st_forwards (sto d) @ gs\<rparr>"
    "map fr_EmailAddress gs = map fr_EmailAddress fs" "map fr_IdentityID gs = map fr_IdentityID fs" by auto
  then show ?case using w by (intro exI[of _ "f' # gs"]) (simp add: same_forward_fields)
qed

lemma createForwardRecipients_success:
  assumes L: "identity_db_law (rp_db R) sto" and c: "createForwardRecipients R i fw now s = (Inr (), s')"
  obtains gs where "sto (is_db s') = (sto (is_db s))\<lparr>st_forwards := st_forwards (sto (is_db s)) @ gs\<rparr>"
    "map fr_EmailAddress gs = sort_by (\<le>) (map addr_value fw)" "\<forall>f \<in> set gs. fr_IdentityID f = i"
proof -
  from c obtain rs s1 where r: "forwardRecipientRecords R i fw now s = (Inr rs, s1)"
    and e: "io_each (\<lambda>r. io_bind (write_idb (g_Create (ib_forwards (rp_db R)) r)) (\<lambda>_. io_return ())) rs s1 = (Inr (), s')"
    by (auto simp: createForwardRecipients_def io_success split: if_splits)
  note f = forwardRecipientRecords_success[OF r]
  have db: "is_db s1 = is_db s" by (rule io_keepsD[OF keeps_forwardRecipientRecords r])
  from create_forwards_each[OF L e] obtain gs where gs: "sto (is_db s') = (sto (is_db s))\<lparr>st_forwards := st_forwards (sto (is_db s)) @ gs\<rparr>"
    "map fr_EmailAddress gs = map fr_EmailAddress rs" "map fr_IdentityID gs = map fr_IdentityID rs" unfolding db by auto
  have "\<forall>x \<in> set (map fr_IdentityID gs). x = i" unfolding gs(3) using f(2) by simp
  then have "\<forall>f \<in> set gs. fr_IdentityID f = i" by simp
  with gs(1) gs(2)[unfolded f(1)] show thesis by (rule that)
qed

lemma resetForwarding_success:
  assumes "identity_db_law (rp_db R) sto" "resetForwarding R i s = (Inr (), s')"
  shows "i \<noteq> ''''" "sto (is_db s') = (sto (is_db s))\<lparr>st_forwards := filter (\<lambda>f. fr_IdentityID f \<noteq> i) (st_forwards (sto (is_db s)))\<rparr>"
proof -
  from assms(2) obtain n d where d: "i \<noteq> ''''" "s' = s\<lparr>is_db := d\<rparr>"
    "g_Delete (ib_forwards (rp_db R)) (\<lambda>f. where_field i (fr_IdentityID f)) (is_db s) = (Inr n, d)"
    by (auto simp: resetForwarding_def io_success split: if_splits)
  from identity_writes(5)[OF assms(1) d(3)] d(1,2)
  show "i \<noteq> ''''" "sto (is_db s') = (sto (is_db s))\<lparr>st_forwards := filter (\<lambda>f. fr_IdentityID f \<noteq> i) (st_forwards (sto (is_db s)))\<rparr>"
    by (simp_all add: where_field_def)
qed

subsection \<open>Authentication\<close>

lemma Authenticate_Inr:
  assumes "Authenticate R username password s = (Inr i, s')"
  obtains r t w n d where "TrimSpace username \<noteq> ''''"
    "g_First (ib_identities (rp_db R)) (\<lambda>r. where_field (TrimSpace username) (id_Username r) \<and> id_Status r = IdentityStatusActive) (is_db s) = Inr r"
    "digest R (id_PasswordSalt r) password = id_PasswordDigest r"
    "NewAddress (rp_mail R) (id_EmailAddress r) = Inr (ai_EmailAddress i)"
    "requireSenderDomainForIdentity R (id_OwnerEmail r) (addr_domain (ai_EmailAddress i)) s = (Inr (), s)"
    "g_Updates (ib_identities (rp_db R))
       (\<lambda>x. id_ID x = id_ID r \<and> id_Status x = IdentityStatusActive \<and> id_Username x = id_Username r)
       (\<lambda>x. x\<lparr>id_LastUsedAt := Some t, id_UpdatedAt := t\<rparr>) (is_db s) = (Inr n, d)"
    "n \<noteq> 0" "s' = s\<lparr>is_world := w, is_db := d\<rparr>" "ai_ID i = id_ID r" "ai_Username i = id_Username r"
proof -
  have "snd (requireSenderDomainForIdentity R o' dm s) = s" for o' dm
    by (simp add: requireSenderDomainForIdentity_def requireSenderDomainForScope_def Let_def split: sum.splits)
  then have dm: "requireSenderDomainForIdentity R o' dm s = (x, s1) \<Longrightarrow> s1 = s" for o' dm x s1 by (metis snd_conv)
  from assms show thesis
    by (auto simp: Authenticate_def Let_def io_success clockFunc_def markAuthenticatedIdentityUsed_def split: if_splits prod.splits
        dest: dm intro!: that)
qed

lemma requireSenderDomain_success:
  assumes L: "identity_db_law (rp_db R) sto" and "requireSenderDomainForScope R scope domain s = (Inr (), s')"
  shows "\<exists>x \<in> set (st_domains (sto (is_db s))). domain_allowed R scope (ToLower (TrimSpace domain)) x"
  using assms(2) identity_reads(2)[OF L, of "domain_allowed R scope (ToLower (TrimSpace domain))" "is_db s"]
  by (auto simp: requireSenderDomainForScope_def Let_def split: sum.splits)


subsection \<open>New credentials\<close>

lemma token_trimmed:
  assumes "set prefix' \<subseteq> set url_alphabet"
  shows "TrimSpace (prefix' @ RawURLEncodeToString b) = prefix' @ RawURLEncodeToString b"
proof -
  have "set url_alphabet \<inter> set space_bytes = {}" by code_simp
  moreover have "set (RawURLEncodeToString b) \<subseteq> set url_alphabet"
    using set_groups_alphabet[OF alphabets(4), of b] by (simp add: RawURLEncodeToString_def)
  ultimately have "set (prefix' @ RawURLEncodeToString b) \<inter> set space_bytes = {}" using assms by auto
  then show ?thesis by (intro TrimSpace_id trimmed_no_space_bytes)
qed

definition credential_ok :: "('d, 'w) identity_repo \<Rightarrow> credential \<Rightarrow> bool" where
  "credential_ok R c \<longleftrightarrow>
     TrimSpace (cr_username c) = cr_username c \<and> cr_username c \<noteq> '''' \<and> TrimSpace (cr_password c) \<noteq> ''''
     \<and> cr_digest c = digest R (cr_salt c) (cr_password c) \<and> decryptPassword R (cr_cipher c) = Inr (cr_password c)"

lemma encryptPassword_decrypt:
  assumes "aead_law (rp_aead R)" "encryptPassword R pw s = (Inr c, s')"
  shows "decryptPassword R c = Inr pw"
  using assms
  by (auto simp: encryptPassword_def decryptPassword_def aead_law_def io_success ReadFull_def gcm_nonce_size_def split: if_splits)

lemma newCredential_ok:
  assumes A: "aead_law (rp_aead R)" and c: "newCredential R s = (Inr c, s')"
  shows "credential_ok R c"
proof -
  from c obtain ub pb salt ci s1 s2 where e: "encryptPassword R (''pgsmtp_'' @ RawURLEncodeToString pb) s1 = (Inr ci, s2)"
    and f: "c = \<lparr>cr_username = ''smtp_'' @ RawURLEncodeToString ub, cr_password = ''pgsmtp_'' @ RawURLEncodeToString pb,
      cr_salt = salt, cr_digest = digest R salt (''pgsmtp_'' @ RawURLEncodeToString pb), cr_cipher = ci\<rparr>"
    by (auto simp: newCredential_def randomToken_def Let_def io_success simp del: append.simps)
  have "set ''smtp_'' \<subseteq> set url_alphabet" "set ''pgsmtp_'' \<subseteq> set url_alphabet" by code_simp+
  note t = token_trimmed[OF this(1), of ub] token_trimmed[OF this(2), of pb]
  show ?thesis
    unfolding credential_ok_def f credential.simps t using encryptPassword_decrypt[OF A e] by simp
qed

lemma unique_ok_forwards [simp]: "unique_ok (st\<lparr>st_forwards := x\<rparr>) = unique_ok st"
  by (simp add: unique_ok_def)

text \<open>The row a successful \<open>CreateForScope\<close> leaves for its address.\<close>

definition created_row :: "('d, 'w) identity_repo \<Rightarrow> string \<Rightarrow> address \<Rightarrow> public_identity \<Rightarrow> string \<Rightarrow> identity \<Rightarrow> bool" where
  "created_row R owner address pub pw r \<longleftrightarrow>
     id_EmailAddress r = addr_value address \<and> id_OwnerEmail r = owner \<and> id_Status r = IdentityStatusActive
     \<and> id_ID r = pi_ID pub \<and> id_Username r = pi_Username pub
     \<and> (\<exists>c. credential_ok R c \<and> cr_username c = id_Username r \<and> cr_password c = pw
          \<and> id_PasswordSalt r = cr_salt c \<and> id_PasswordDigest r = cr_digest c \<and> id_PasswordCipher r = cr_cipher c)"

lemma insertIdentity_success:
  assumes L: "identity_db_law (rp_db R) sto" and c: "credential_ok R cred"
    and i: "insertIdentity R address owner cred fw now s = (Inr (pub, pw), s')"
  obtains r gs where "created_row R owner address pub pw r" "unique_ok (sto (is_db s'))"
    "sto (is_db s') = (sto (is_db s))\<lparr>st_identities := st_identities (sto (is_db s)) @ [r], st_forwards := st_forwards (sto (is_db s)) @ gs\<rparr>"
    "map fr_EmailAddress gs = sort_by (\<le>) (map addr_value fw)" "\<forall>f \<in> set gs. fr_IdentityID f = id_ID r"
proof -
  define mk where "mk u = \<lparr>id_ID = u, id_OwnerEmail = owner, id_EmailAddress = addr_value address,
           id_Username = cr_username cred, id_PasswordSalt = cr_salt cred, id_PasswordDigest = cr_digest cred,
           id_PasswordCipher = cr_cipher cred, id_Status = IdentityStatusActive, id_LastUsedAt = None,
           id_CreatedAt = now, id_UpdatedAt = now\<rparr>" for u
  from i obtain u s1 r d s3 s4 fs where u: "NewString R s = (Inr u, s1)"
    and cr: "g_Create (ib_identities (rp_db R)) (mk u) (is_db s1) = (Inr r, d)"
    and cf: "createForwardRecipients R (id_ID r) fw now (s1\<lparr>is_db := d\<rparr>) = (Inr (), s3)"
    and fr: "forwardRecipientRecords R (id_ID r) fw now s3 = (Inr fs, s4)"
    and e: "pub = publicIdentity r fs" "pw = cr_password cred" "s' = s4"
    by (auto simp: insertIdentity_def io_success Let_def mk_def[symmetric])
  have db: "is_db s1 = is_db s" by (rule io_keepsD[OF keeps_uuid u])
  have db': "is_db s' = is_db s3" unfolding e(3) by (rule io_keepsD[OF keeps_forwardRecipientRecords fr])
  note w = identity_writes(1)[OF L cr, unfolded db]
  note sf = same_identity_fields[OF conjunct1[OF w]]
  from createForwardRecipients_success[OF L cf] obtain gs where gs:
    "sto (is_db s3) = (sto d)\<lparr>st_forwards := st_forwards (sto d) @ gs\<rparr>"
    "map fr_EmailAddress gs = sort_by (\<le>) (map addr_value fw)" "\<forall>f \<in> set gs. fr_IdentityID f = id_ID r" by auto
  show thesis
  proof (rule that[of r gs])
    show "created_row R owner address pub pw r"
      using sf c e unfolding created_row_def by (auto simp: mk_def publicIdentity_def intro!: exI[of _ cred])
    show "unique_ok (sto (is_db s'))" unfolding db' gs(1) unique_ok_forwards using w by blast
    show "sto (is_db s') = (sto (is_db s))\<lparr>st_identities := st_identities (sto (is_db s)) @ [r], st_forwards := st_forwards (sto (is_db s)) @ gs\<rparr>"
      using w unfolding db' gs(1) by simp
  qed (use gs in simp_all)
qed

lemma reactivateIdentity_success:
  assumes L: "identity_db_law (rp_db R) sto" and c: "credential_ok R cred"
    and ex: "existing \<in> set (st_identities (sto (is_db s)))" "id_EmailAddress existing = addr_value address"
    and i: "reactivateIdentity R existing owner cred fw now s = (Inr (pub, pw), s')"
  obtains r gs where "created_row R owner address pub pw r" "unique_ok (sto (is_db s'))" "id_ID r = id_ID existing"
    "sto (is_db s') = (sto (is_db s))\<lparr>
       st_identities := map (\<lambda>x. if id_ID x = id_ID existing then r else x) (st_identities (sto (is_db s))),
       st_forwards := filter (\<lambda>f. fr_IdentityID f \<noteq> id_ID existing) (st_forwards (sto (is_db s))) @ gs\<rparr>"
    "map fr_EmailAddress gs = sort_by (\<le>) (map addr_value fw)" "\<forall>f \<in> set gs. fr_IdentityID f = id_ID r"
proof -
  define rec where "rec = existing\<lparr>id_OwnerEmail := owner, id_Username := cr_username cred, id_PasswordSalt := cr_salt cred,
            id_PasswordDigest := cr_digest cred, id_PasswordCipher := cr_cipher cred, id_Status := IdentityStatusActive,
            id_LastUsedAt := None, id_UpdatedAt := now\<rparr>"
  from i obtain s1 r d s3 s4 fs where rs: "resetForwarding R (id_ID rec) s = (Inr (), s1)"
    and sv: "g_Save (ib_identities (rp_db R)) rec (is_db s1) = (Inr r, d)"
    and cf: "createForwardRecipients R (id_ID r) fw now (s1\<lparr>is_db := d\<rparr>) = (Inr (), s3)"
    and fr: "forwardRecipientRecords R (id_ID r) fw now s3 = (Inr fs, s4)"
    and e: "pub = publicIdentity r fs" "pw = cr_password cred" "s' = s4"
    by (auto simp: reactivateIdentity_def io_success Let_def rec_def[symmetric])
  have db': "is_db s' = is_db s3" unfolding e(3) by (rule io_keepsD[OF keeps_forwardRecipientRecords fr])
  note r1 = resetForwarding_success[OF L rs]
  have id: "id_ID rec = id_ID existing" by (simp add: rec_def)
  have "id_ID rec \<in> id_ID ` set (st_identities (sto (is_db s1)))" using ex(1) r1(2) id by simp
  note w = identity_writes(2)[OF L sv this]
  note sf = same_identity_fields[OF conjunct1[OF w]]
  from createForwardRecipients_success[OF L cf] obtain gs where gs:
    "sto (is_db s3) = (sto d)\<lparr>st_forwards := st_forwards (sto d) @ gs\<rparr>"
    "map fr_EmailAddress gs = sort_by (\<le>) (map addr_value fw)" "\<forall>f \<in> set gs. fr_IdentityID f = id_ID r" by auto
  show thesis
  proof (rule that[of r gs])
    show "created_row R owner address pub pw r"
      using sf c e ex(2) unfolding created_row_def by (auto simp: rec_def publicIdentity_def intro!: exI[of _ cred])
    show "unique_ok (sto (is_db s'))" unfolding db' gs(1) unique_ok_forwards using w by blast
    show "id_ID r = id_ID existing" using sf(1) id by simp
    show "sto (is_db s') = (sto (is_db s))\<lparr>
       st_identities := map (\<lambda>x. if id_ID x = id_ID existing then r else x) (st_identities (sto (is_db s))),
       st_forwards := filter (\<lambda>f. fr_IdentityID f \<noteq> id_ID existing) (st_forwards (sto (is_db s))) @ gs\<rparr>"
      using w r1(2) unfolding db' gs(1) id by simp
  qed (use gs in simp_all)
qed

lemma requireSenderDomain_state: "requireSenderDomainForScope R scope domain s = (x, s') \<Longrightarrow> s' = s"
  by (auto simp: requireSenderDomainForScope_def Let_def split: sum.splits)

lemma CreateForScope_cases:
  assumes L: "identity_db_law (rp_db R) sto" and A: "aead_law (rp_aead R)" and ne: "addr_value address \<noteq> ''''"
    and c: "CreateForScope R scope address fw s = (Inr (pub, pw), s')"
  obtains (inserted) cred now s2 where "credential_ok R cred" "is_db s2 = is_db s"
      "insertIdentity R address (normalizeOwnerEmail R (as_OwnerEmail scope)) cred fw now s2 = (Inr (pub, pw), s')"
  | (reactivated) existing cred now s2 where "credential_ok R cred" "is_db s2 = is_db s"
      "existing \<in> set (st_identities (sto (is_db s)))" "id_EmailAddress existing = addr_value address"
      "id_Status existing \<noteq> IdentityStatusActive"
      "reactivateIdentity R existing (normalizeOwnerEmail R (as_OwnerEmail scope)) cred fw now s2 = (Inr (pub, pw), s')"
proof -
  let ?q = "g_First (ib_identities (rp_db R)) (\<lambda>r. where_field (addr_value address) (id_EmailAddress r)) (is_db s)"
  let ?o = "normalizeOwnerEmail R (as_OwnerEmail scope)"
  let ?k = "\<lambda>found. case found of
        Inr existing \<Rightarrow>
          if id_Status existing = IdentityStatusActive then io_fail ErrIdentityExists
          else io_bind (newCredential R) (\<lambda>cred. io_bind (clockFunc R) (\<lambda>now. reactivateIdentity R existing ?o cred fw now))
      | Inl findErr \<Rightarrow>
          if \<not> errors_is findErr ErrRecordNotFound then io_fail (Errorf ''smtp identity create: find existing: '' findErr '''')
          else io_bind (newCredential R) (\<lambda>cred. io_bind (clockFunc R) (\<lambda>now. insertIdentity R address ?o cred fw now))"
  have k: "?k ?q s = (Inr (pub, pw), s')"
    using c unfolding CreateForScope_def Let_def
    by (elim io_bind_InrE) (auto simp: io_lift_Inr io_try_Inr read_idb_run dest!: requireSenderDomain_state)
  show thesis
  proof (cases ?q)
    case (Inr existing)
    from k Inr obtain cred s1 now s2 where a: "id_Status existing \<noteq> IdentityStatusActive" "newCredential R s = (Inr cred, s1)"
      "clockFunc R s1 = (Inr now, s2)" "reactivateIdentity R existing ?o cred fw now s2 = (Inr (pub, pw), s')"
      by (auto simp: io_bind_Inr split: if_splits)
    have db: "is_db s2 = is_db s"
      using io_keepsD[OF keeps_clock a(3)] io_keepsD[OF keeps_newCredential a(2)] by simp
    note r = identity_reads(1)[OF L Inr]
    from reactivated[OF newCredential_ok[OF A a(2)] db _ _ a(1,4)] r ne show thesis by (simp add: where_field_def)
  next
    case (Inl e)
    from k Inl obtain cred s1 now s2 where a: "newCredential R s = (Inr cred, s1)"
      "clockFunc R s1 = (Inr now, s2)" "insertIdentity R address ?o cred fw now s2 = (Inr (pub, pw), s')"
      by (auto simp: io_bind_Inr split: if_splits)
    have db: "is_db s2 = is_db s"
      using io_keepsD[OF keeps_clock a(2)] io_keepsD[OF keeps_newCredential a(1)] by simp
    from inserted[OF newCredential_ok[OF A a(1)] db a(3)] show thesis .
  qed
qed

lemma CreateForScope_domain:
  assumes L: "identity_db_law (rp_db R) sto" and c: "CreateForScope R scope address fw s = (Inr (pub, pw), s')"
  shows "\<exists>x \<in> set (st_domains (sto (is_db s))). domain_allowed R scope (ToLower (TrimSpace (addr_domain address))) x"
proof -
  from c obtain s1 where "requireSenderDomainForScope R scope (addr_domain address) s = (Inr (), s1)"
    unfolding CreateForScope_def Let_def by (elim io_bind_InrE) simp
  from requireSenderDomain_success[OF L this] show ?thesis .
qed

lemma CreateForScope_row:
  assumes L: "identity_db_law (rp_db R) sto" and A: "aead_law (rp_aead R)" and ne: "addr_value address \<noteq> ''''"
    and c: "CreateForScope R scope address fw s = (Inr (pub, pw), s')"
  obtains r where "created_row R (normalizeOwnerEmail R (as_OwnerEmail scope)) address pub pw r"
    "r \<in> set (st_identities (sto (is_db s')))" "unique_ok (sto (is_db s'))" "st_domains (sto (is_db s')) = st_domains (sto (is_db s))"
  using L A ne c
proof (cases rule: CreateForScope_cases)
  case (inserted cred now s2)
  from insertIdentity_success[OF L inserted(1,3)] obtain r gs where
    r: "created_row R (normalizeOwnerEmail R (as_OwnerEmail scope)) address pub pw r" "unique_ok (sto (is_db s'))"
    "sto (is_db s') = (sto (is_db s2))\<lparr>st_identities := st_identities (sto (is_db s2)) @ [r], st_forwards := st_forwards (sto (is_db s2)) @ gs\<rparr>" .
  show thesis by (rule that[OF r(1) _ r(2)]) (simp_all add: r(3) inserted(2))
next
  case (reactivated existing cred now s2)
  have ex: "existing \<in> set (st_identities (sto (is_db s2)))" using reactivated(3) by (simp add: reactivated(2))
  from reactivateIdentity_success[OF L reactivated(1) ex reactivated(4,6)] obtain r gs where
    r: "created_row R (normalizeOwnerEmail R (as_OwnerEmail scope)) address pub pw r" "unique_ok (sto (is_db s'))"
    "sto (is_db s') = (sto (is_db s2))\<lparr>
       st_identities := map (\<lambda>x. if id_ID x = id_ID existing then r else x) (st_identities (sto (is_db s2))),
       st_forwards := filter (\<lambda>f. fr_IdentityID f \<noteq> id_ID existing) (st_forwards (sto (is_db s2))) @ gs\<rparr>"
    .
  show thesis
  proof (rule that[OF r(1) _ r(2)])
    show "r \<in> set (st_identities (sto (is_db s')))" using ex by (simp add: r(3) image_iff) blast
  qed (simp add: r(3) reactivated(2))
qed

text \<open>A database that answers: a read finds a row or reports that there is none, and an update succeeds.\<close>

definition db_available :: "'d identity_db \<Rightarrow> 'd \<Rightarrow> bool" where
  "db_available DB d \<longleftrightarrow>
     first_total (ib_identities DB) d \<and> first_total (ib_domains DB) d
     \<and> (\<forall>p f. is_ok (fst (g_Updates (ib_identities DB) p f d)))"

lemma normalizeOwnerEmail_idem:
  assumes "mail_addr_spec (rp_mail R)"
  shows "normalizeOwnerEmail R (normalizeOwnerEmail R e) = normalizeOwnerEmail R e"
proof (cases "NewAddress (rp_mail R) e")
  case (Inr a)
  then show ?thesis using NewAddress_again[OF assms Inr] by (simp add: normalizeOwnerEmail_def)
next
  case (Inl x)
  then have e: "normalizeOwnerEmail R e = ToLower (TrimSpace e)" by (simp add: normalizeOwnerEmail_def)
  show ?thesis
  proof (cases "NewAddress (rp_mail R) (ToLower (TrimSpace e))")
    case (Inr b)
    then show ?thesis unfolding e using NewAddress_spec(1)[OF assms Inr] by (simp add: normalizeOwnerEmail_def norm_simps)
  qed (simp add: Inl normalizeOwnerEmail_def norm_simps)
qed

lemma Authenticate_run:
  assumes "TrimSpace username \<noteq> ''''" "TrimSpace password \<noteq> ''''"
    and "g_First (ib_identities (rp_db R)) (\<lambda>r. where_field (TrimSpace username) (id_Username r) \<and> id_Status r = IdentityStatusActive) (is_db s) = Inr r"
    and "digest R (id_PasswordSalt r) password = id_PasswordDigest r"
    and "NewAddress (rp_mail R) (id_EmailAddress r) = Inr address"
    and "g_First (ib_domains (rp_db R)) (domain_allowed R \<lparr>as_OwnerEmail = id_OwnerEmail r, as_Admin = True\<rparr> (ToLower (TrimSpace (addr_domain address)))) (is_db s) = Inr x"
    and up: "\<And>p f. is_ok (fst (g_Updates (ib_identities (rp_db R)) p f (is_db s)))"
    and n: "\<And>p f n d. g_Updates (ib_identities (rp_db R)) p f (is_db s) = (Inr n, d) \<Longrightarrow> p r \<Longrightarrow> n \<noteq> 0"
    and act: "id_Status r = IdentityStatusActive"
  shows "\<exists>s'. Authenticate R username password s = (Inr \<lparr>ai_ID = id_ID r, ai_EmailAddress = address, ai_Username = id_Username r\<rparr>, s')"
proof -
  obtain t w where t: "rp_clock R (is_world s) = (t, w)" by (cases "rp_clock R (is_world s)")
  let ?p = "\<lambda>x. id_ID x = id_ID r \<and> id_Status x = IdentityStatusActive \<and> id_Username x = id_Username r"
  let ?f = "\<lambda>x. x\<lparr>id_LastUsedAt := Some t, id_UpdatedAt := t\<rparr>"
  obtain k d where k: "g_Updates (ib_identities (rp_db R)) ?p ?f (is_db s) = (Inr k, d)"
    using up[of ?p ?f] by (cases "g_Updates (ib_identities (rp_db R)) ?p ?f (is_db s)") (auto simp: is_ok_iff)
  with n[OF k] act have "k \<noteq> 0" by simp
  then show ?thesis
    using assms(1-6) t k
    by (simp add: Authenticate_def Let_def io_bind_def io_wrap_def io_lift_def io_return_def read_idb_def write_idb_def clockFunc_def
        requireSenderDomainForIdentity_def requireSenderDomainForScope_def markAuthenticatedIdentityUsed_def)
qed

lemma domain_allowed_owner:
  assumes "mail_addr_spec (rp_mail R)" "domain_allowed R scope dmn x"
  shows "domain_allowed R \<lparr>as_OwnerEmail = normalizeOwnerEmail R (as_OwnerEmail scope), as_Admin = True\<rparr> dmn x"
  using assms(2) normalizeOwnerEmail_idem[OF assms(1)] by (auto simp: domain_allowed_def Let_def split: if_splits)


subsection \<open>Revoked credentials\<close>

lemma authenticated_row:
  assumes L: "identity_db_law (rp_db R) sto" and a: "Authenticate R username password s = (Inr i, s')"
  obtains r where "r \<in> set (st_identities (sto (is_db s)))" "id_Username r = TrimSpace username" "id_Status r = IdentityStatusActive"
    "digest R (id_PasswordSalt r) password = id_PasswordDigest r" "ai_ID i = id_ID r"
  using a
proof (rule Authenticate_Inr)
  fix r
  assume u: "TrimSpace username \<noteq> ''''"
    and f: "g_First (ib_identities (rp_db R)) (\<lambda>r. where_field (TrimSpace username) (id_Username r) \<and> id_Status r = IdentityStatusActive) (is_db s) = Inr r"
    and dg: "digest R (id_PasswordSalt r) password = id_PasswordDigest r" and i: "ai_ID i = id_ID r"
  note identity_reads(1)[OF L f]
  with u dg i that[of r] show thesis by (simp add: where_field_def)
qed

lemma save_key_rows:
  assumes "x \<in> set (map (\<lambda>x. if id_ID x = id_ID rec then r' else x) rows)" "same_identity rec r'" "id_ID x = id_ID rec"
  shows "x = r'"
  using assms same_identity_fields(1) by (auto split: if_splits)

lemma DeleteForScope_success:
  assumes L: "identity_db_law (rp_db R) sto" and c: "DeleteForScope R scope i s = (Inr (), s')"
  obtains r r' where "r \<in> set (st_identities (sto (is_db s)))" "in_scope R scope (id_OwnerEmail r)" "where_field (TrimSpace i) (id_ID r)"
    "id_ID r' = id_ID r" "id_OwnerEmail r' = id_OwnerEmail r" "id_Status r' = IdentityStatusDeleted"
    "sto (is_db s') = (sto (is_db s))\<lparr>st_identities := map (\<lambda>x. if id_ID x = id_ID r then r' else x) (st_identities (sto (is_db s)))\<rparr>"
    "unique_ok (sto (is_db s'))"
proof -
  from c obtain r s1 now s2 r' d where q: "requireIdentityForScope R scope i s = (Inr r, s1)" "clockFunc R s1 = (Inr now, s2)"
    and sv: "g_Save (ib_identities (rp_db R)) (r\<lparr>id_Status := IdentityStatusDeleted, id_UpdatedAt := now\<rparr>) (is_db s2) = (Inr r', d)" "s' = s2\<lparr>is_db := d\<rparr>"
    by (auto simp: DeleteForScope_def io_success)
  note r = requireIdentity_success[OF L q(1)]
  have db: "is_db s2 = is_db s" using io_keepsD[OF keeps_clock q(2)] r(1) by simp
  have "id_ID (r\<lparr>id_Status := IdentityStatusDeleted, id_UpdatedAt := now\<rparr>) \<in> id_ID ` set (st_identities (sto (is_db s2)))"
    using r(2) db by simp
  note w = identity_writes(2)[OF L sv(1) this]
  note sf = same_identity_fields[OF conjunct1[OF w], simplified]
  have id: "id_ID (r\<lparr>id_Status := IdentityStatusDeleted, id_UpdatedAt := now\<rparr>) = id_ID r" by simp
  have ds: "is_db s' = d" using sv(2) by simp
  show thesis
  proof (rule that[OF r(2,4,5) sf(1,2,8)])
    show "sto (is_db s') = (sto (is_db s))\<lparr>st_identities := map (\<lambda>x. if id_ID x = id_ID r then r' else x) (st_identities (sto (is_db s)))\<rparr>"
      "unique_ok (sto (is_db s'))"
      using w[unfolded db id] unfolding ds by blast+
  qed
qed

lemma RotateForScope_success:
  assumes L: "identity_db_law (rp_db R) sto" and A: "aead_law (rp_aead R)" and c: "RotateForScope R scope i s = (Inr (pub, pw), s')"
  obtains r r' where "r \<in> set (st_identities (sto (is_db s)))" "in_scope R scope (id_OwnerEmail r)" "where_field (TrimSpace i) (id_ID r)"
    "id_ID r' = id_ID r" "id_OwnerEmail r' = id_OwnerEmail r" "id_Username r' = pi_Username pub"
    "id_PasswordDigest r' = digest R (id_PasswordSalt r') pw"
    "sto (is_db s') = (sto (is_db s))\<lparr>st_identities := map (\<lambda>x. if id_ID x = id_ID r then r' else x) (st_identities (sto (is_db s)))\<rparr>"
    "unique_ok (sto (is_db s'))"
proof -
  define upd where "upd r cred now = r\<lparr>id_Username := cr_username cred, id_PasswordSalt := cr_salt cred, id_PasswordDigest := cr_digest cred,
            id_PasswordCipher := cr_cipher cred, id_UpdatedAt := now\<rparr>" for r :: identity and cred :: credential and now
  from c obtain r s1 cred s2 now s3 r' d where q: "requireIdentityForScope R scope i s = (Inr r, s1)" "newCredential R s1 = (Inr cred, s2)"
      "clockFunc R s2 = (Inr now, s3)"
    and sv: "g_Save (ib_identities (rp_db R)) (upd r cred now) (is_db s3) = (Inr r', d)" "s' = s3\<lparr>is_db := d\<rparr>"
    and p: "pub = publicIdentity r' []" "pw = cr_password cred"
    by (auto simp: RotateForScope_def io_success upd_def[symmetric])
  note r = requireIdentity_success[OF L q(1)]
  have db: "is_db s3 = is_db s"
    using io_keepsD[OF keeps_clock q(3)] io_keepsD[OF keeps_newCredential q(2)] r(1) by simp
  have "id_ID (upd r cred now) \<in> id_ID ` set (st_identities (sto (is_db s3)))" using r(2) db by (simp add: upd_def)
  note w = identity_writes(2)[OF L sv(1) this]
  note sf = same_identity_fields[OF conjunct1[OF w]]
  have cr: "cr_digest cred = digest R (cr_salt cred) (cr_password cred)" using newCredential_ok[OF A q(2)] by (simp add: credential_ok_def)
  have id: "id_ID (upd r cred now) = id_ID r" by (simp add: upd_def)
  have ds: "is_db s' = d" using sv(2) by simp
  show thesis
  proof (rule that[OF r(2,4,5)])
    show "id_ID r' = id_ID r" "id_OwnerEmail r' = id_OwnerEmail r" "id_Username r' = pi_Username pub"
      "id_PasswordDigest r' = digest R (id_PasswordSalt r') pw"
      using sf cr p by (simp_all add: upd_def publicIdentity_def)
    show "sto (is_db s') = (sto (is_db s))\<lparr>st_identities := map (\<lambda>x. if id_ID x = id_ID r then r' else x) (st_identities (sto (is_db s)))\<rparr>"
      "unique_ok (sto (is_db s'))"
      using w[unfolded id db] unfolding ds by blast+
  qed
qed

text \<open>C5. Revoked credentials stop working at once: after \<open>DeleteForScope\<close> the identity does not authenticate
  under any credentials, and after \<open>RotateForScope\<close> only under the new user name and with a password
  that has, under the new salt, the digest of the new one.\<close>

theorem revoked_credentials_fail:
  assumes "identity_db_law (rp_db R) sto" "aead_law (rp_aead R)" "TrimSpace i \<noteq> ''''"
  shows "(DeleteForScope R scope i s = (Inr (), s') \<longrightarrow>
       \<not> (\<exists>u p ai s''. Authenticate R u p s' = (Inr ai, s'') \<and> ai_ID ai = TrimSpace i))
    \<and> (RotateForScope R scope i s = (Inr (pub, pw), s') \<longrightarrow> Authenticate R u p s' = (Inr ai, s'') \<longrightarrow> ai_ID ai = TrimSpace i \<longrightarrow>
         TrimSpace u = pi_Username pub
         \<and> (\<exists>x \<in> set (st_identities (sto (is_db s'))). id_ID x = TrimSpace i \<and> digest R (id_PasswordSalt x) p = digest R (id_PasswordSalt x) pw))"
proof (intro conjI impI notI)
  assume t: "DeleteForScope R scope i s = (Inr (), s')"
    and "\<exists>u p ai s''. Authenticate R u p s' = (Inr ai, s'') \<and> ai_ID ai = TrimSpace i"
  then obtain u p ai s'' where a: "Authenticate R u p s' = (Inr ai, s'')" and i: "ai_ID ai = TrimSpace i" by blast
  obtain x where x: "x \<in> set (st_identities (sto (is_db s')))" "id_Username x = TrimSpace u" "id_Status x = IdentityStatusActive"
    "digest R (id_PasswordSalt x) p = id_PasswordDigest x" "ai_ID ai = id_ID x"
    by (rule authenticated_row[OF assms(1) a])
  obtain r r' where "r \<in> set (st_identities (sto (is_db s)))" "in_scope R scope (id_OwnerEmail r)"
    and r: "where_field (TrimSpace i) (id_ID r)" "id_ID r' = id_ID r" "id_OwnerEmail r' = id_OwnerEmail r" "id_Status r' = IdentityStatusDeleted"
    "sto (is_db s') = (sto (is_db s))\<lparr>st_identities := map (\<lambda>x. if id_ID x = id_ID r then r' else x) (st_identities (sto (is_db s)))\<rparr>"
    "unique_ok (sto (is_db s'))"
    by (rule DeleteForScope_success[OF assms(1) t])
  from r(1) i x(5) assms(3) have "id_ID x = id_ID r" by (simp add: where_field_def)
  with x(1) r(2,5) have "x = r'" by auto
  with x(3) r(4) show False by (simp add: IdentityStatusActive_def IdentityStatusDeleted_def)
next
  assume t: "RotateForScope R scope i s = (Inr (pub, pw), s')" "Authenticate R u p s' = (Inr ai, s'')" "ai_ID ai = TrimSpace i"
  obtain x where x: "x \<in> set (st_identities (sto (is_db s')))" "id_Username x = TrimSpace u" "id_Status x = IdentityStatusActive"
    "digest R (id_PasswordSalt x) p = id_PasswordDigest x" "ai_ID ai = id_ID x"
    by (rule authenticated_row[OF assms(1) t(2)])
  obtain r r' where "r \<in> set (st_identities (sto (is_db s)))" "in_scope R scope (id_OwnerEmail r)"
    and r: "where_field (TrimSpace i) (id_ID r)" "id_ID r' = id_ID r" "id_OwnerEmail r' = id_OwnerEmail r"
    "id_Username r' = pi_Username pub" "id_PasswordDigest r' = digest R (id_PasswordSalt r') pw"
    "sto (is_db s') = (sto (is_db s))\<lparr>st_identities := map (\<lambda>x. if id_ID x = id_ID r then r' else x) (st_identities (sto (is_db s)))\<rparr>"
    "unique_ok (sto (is_db s'))"
    by (rule RotateForScope_success[OF assms(1,2) t(1)])
  from r(1) x(5) t(3) assms(3) have "id_ID x = id_ID r" by (simp add: where_field_def)
  with x(1) r(2,6) have xr: "x = r'" by auto
  from xr x(2) r(4) show "TrimSpace u = pi_Username pub" by simp
  from xr x(1,4,5) r(5) t(3)
  show "\<exists>x \<in> set (st_identities (sto (is_db s'))). id_ID x = TrimSpace i \<and> digest R (id_PasswordSalt x) p = digest R (id_PasswordSalt x) pw"
    by (intro bexI[of _ x]) simp_all
qed

subsection \<open>Owners\<close>

text \<open>What the other owners have: their active identities and the recipients of these.\<close>

definition foreign :: "string \<Rightarrow> identity_store \<Rightarrow> identity list" where
  "foreign owner st = filter (\<lambda>r. id_OwnerEmail r \<noteq> owner \<and> id_Status r = IdentityStatusActive) (st_identities st)"

definition of_others :: "string \<Rightarrow> identity_store \<Rightarrow> identity list \<times> forward_recipient list" where
  "of_others owner st = (foreign owner st, filter (\<lambda>f. fr_IdentityID f \<in> id_ID ` set (foreign owner st)) (st_forwards st))"

datatype identity_op =
    OpCreate address "address list"
  | OpForward string "address list"
  | OpRotate string
  | OpDelete string

definition identity_step ::
  "('d, 'w) identity_repo \<Rightarrow> access_scope \<Rightarrow> identity_op \<Rightarrow> ('d, 'w) identity_state \<Rightarrow> ('d, 'w) identity_state" where
  "identity_step R scope op s =
     (case op of
        OpCreate address forwardTo \<Rightarrow> snd (CreateForScope R scope address forwardTo s)
      | OpForward i forwardTo \<Rightarrow> snd (UpdateForwardingForScope R scope i forwardTo s)
      | OpRotate i \<Rightarrow> snd (RotateForScope R scope i s)
      | OpDelete i \<Rightarrow> snd (DeleteForScope R scope i s))"

lemma foreign_replace:
  assumes "\<And>x. x \<in> set rows \<Longrightarrow> id_ID x = k \<Longrightarrow> \<not> P x" "\<not> P r'"
  shows "filter P (map (\<lambda>x. if id_ID x = k then r' else x) rows) = filter P rows"
  using assms by (induction rows) auto

lemma of_others_frame:
  assumes "foreign owner st' = foreign owner st" "k \<notin> id_ID ` set (foreign owner st)" "\<forall>f \<in> set gs. fr_IdentityID f = k"
    and "st_forwards st' = filter (\<lambda>f. fr_IdentityID f \<noteq> k) (st_forwards st) @ gs \<or> st_forwards st' = st_forwards st @ gs"
  shows "of_others owner st' = of_others owner st"
proof -
  have "filter (\<lambda>f. fr_IdentityID f \<in> id_ID ` set (foreign owner st)) gs = []"
    using assms(2,3) by (auto simp: filter_empty_conv)
  moreover have "filter (\<lambda>f. fr_IdentityID f \<in> id_ID ` set (foreign owner st)) (filter (\<lambda>f. fr_IdentityID f \<noteq> k) fs)
      = filter (\<lambda>f. fr_IdentityID f \<in> id_ID ` set (foreign owner st)) fs" for fs
    unfolding filter_filter using assms(2) by (intro filter_cong) auto
  ultimately show ?thesis
    unfolding of_others_def assms(1) using assms(4) by (elim disjE) simp_all
qed

lemma own_row_not_foreign:
  assumes "unique_ok st" "r \<in> set (st_identities st)" "id_OwnerEmail r = owner \<or> id_Status r \<noteq> IdentityStatusActive"
  shows "id_ID r \<notin> id_ID ` set (foreign owner st)"
    and "\<And>x. x \<in> set (st_identities st) \<Longrightarrow> id_ID x = id_ID r \<Longrightarrow> \<not> (id_OwnerEmail x \<noteq> owner \<and> id_Status x = IdentityStatusActive)"
proof -
  have u: "x = r" if "x \<in> set (st_identities st)" "id_ID x = id_ID r" for x
    using assms(1,2) that by (auto simp: unique_ok_def distinct_map dest: inj_onD)
  show "\<And>x. x \<in> set (st_identities st) \<Longrightarrow> id_ID x = id_ID r \<Longrightarrow> \<not> (id_OwnerEmail x \<noteq> owner \<and> id_Status x = IdentityStatusActive)"
    using u assms(3) by blast
  show "id_ID r \<notin> id_ID ` set (foreign owner st)"
    using u assms(3) by (auto simp: foreign_def dest: u[OF _ sym])
qed

lemma replace_own_row:
  assumes "unique_ok st" "r \<in> set (st_identities st)" "id_OwnerEmail r = owner \<or> id_Status r \<noteq> IdentityStatusActive"
    and "id_OwnerEmail r' = owner" "\<forall>f \<in> set gs. fr_IdentityID f = id_ID r"
    and "st_identities st' = map (\<lambda>x. if id_ID x = id_ID r then r' else x) (st_identities st)"
    and "st_forwards st' = filter (\<lambda>f. fr_IdentityID f \<noteq> id_ID r) (st_forwards st) @ gs \<or> st_forwards st' = st_forwards st @ gs"
  shows "of_others owner st' = of_others owner st"
proof (rule of_others_frame[OF _ own_row_not_foreign(1)[OF assms(1-3)] assms(5) assms(7)])
  show "foreign owner st' = foreign owner st"
    unfolding foreign_def assms(6)
    by (rule foreign_replace) (use own_row_not_foreign(2)[OF assms(1-3)] assms(4) in auto)
qed

lemma append_own_row:
  assumes "unique_ok st'" "id_OwnerEmail r = owner" "\<forall>f \<in> set gs. fr_IdentityID f = id_ID r"
    and "st_identities st' = st_identities st @ [r]" "st_forwards st' = st_forwards st @ gs"
  shows "of_others owner st' = of_others owner st"
proof (rule of_others_frame[OF _ _ assms(3) disjI2[OF assms(5)]])
  show "foreign owner st' = foreign owner st" using assms(2,4) by (simp add: foreign_def)
  show "id_ID r \<notin> id_ID ` set (foreign owner st)"
    using assms(1,4) by (auto simp: unique_ok_def foreign_def)
qed

text \<open>Failures change nothing.\<close>

lemma forwardRecipientRecords_total: "forwardRecipientRecords R i fw now s \<noteq> (Inl e, s')"
proof -
  have "uuid_each R mk fw s \<noteq> (Inl e, s')" for mk :: "string \<Rightarrow> address \<Rightarrow> forward_recipient" and s e s'
    by (induction fw arbitrary: s) (auto simp: io_bind_Inl NewString_def split: prod.splits)
  then show ?thesis by (auto simp: forwardRecipientRecords_def io_bind_Inl)
qed

definition io_atomic :: "('w \<Rightarrow> 'b) \<Rightarrow> ('w, 'a) io \<Rightarrow> bool" where
  "io_atomic f m \<longleftrightarrow> (\<forall>w e w'. m w = (Inl e, w') \<longrightarrow> f w' = f w)"

lemma atomic_fail: "io_atomic f (io_fail e)"
  by (simp add: io_atomic_def io_fail_def)

lemma atomic_bind: "io_keeps f m \<Longrightarrow> (\<And>x. io_atomic f (g x)) \<Longrightarrow> io_atomic f (io_bind m g)"
  unfolding io_atomic_def io_bind_Inl by (metis io_keepsD)

lemma atomic_last: "io_atomic f m \<Longrightarrow> (\<And>x w e w'. g x w \<noteq> (Inl e, w')) \<Longrightarrow> io_atomic f (io_bind m g)"
  unfolding io_atomic_def io_bind_Inl by blast

lemma atomic_wrap: "io_atomic f m \<Longrightarrow> io_atomic f (io_wrap g m)"
  by (auto simp: io_atomic_def io_wrap_def split: prod.splits sum.splits)

lemma atomic_Transaction: "io_atomic is_db (identity_Transaction R m)"
  by (auto simp: io_atomic_def dest: identity_Transaction_Inl)

lemma atomic_store: "io_atomic is_db m \<Longrightarrow> io_atomic (\<lambda>s. sto (is_db s)) m"
  unfolding io_atomic_def by metis

lemma keeps_store: "io_keeps is_db m \<Longrightarrow> io_keeps (\<lambda>s. sto (is_db s)) m"
  by (simp add: io_keeps_def)

lemma atomic_save:
  assumes "identity_db_law (rp_db R) sto"
  shows "io_atomic (\<lambda>s. sto (is_db s)) (write_idb (g_Save (ib_identities (rp_db R)) r))"
  by (auto simp: io_atomic_def write_idb_run dest: identity_errors(1)[OF assms])

lemma records_never_fail: "io_bind (forwardRecipientRecords R i fw now) (\<lambda>fs. io_return (h fs)) s \<noteq> (Inl e, s')"
  by (auto simp: io_bind_Inl forwardRecipientRecords_total)

lemma atomic_insertIdentity: "io_atomic is_db (insertIdentity R address owner cred fw now)"
  unfolding insertIdentity_def Let_def
  by (intro atomic_bind keeps_uuid atomic_last[OF atomic_Transaction]) (rule records_never_fail)

lemma atomic_reactivateIdentity: "io_atomic is_db (reactivateIdentity R existing owner cred fw now)"
  unfolding reactivateIdentity_def Let_def
  by (intro atomic_last[OF atomic_Transaction]) (rule records_never_fail)

lemma atomic_create: "io_atomic is_db (CreateForScope R scope address fw)"
  unfolding CreateForScope_def Let_def
  by (intro atomic_bind io_keeps_intros)
    (auto split: sum.split intro!: atomic_bind io_keeps_intros atomic_insertIdentity atomic_reactivateIdentity atomic_fail)

lemma atomic_forward: "io_atomic is_db (UpdateForwardingForScope R scope i fw)"
  unfolding UpdateForwardingForScope_def
  by (rule atomic_bind[OF io_keeps_lift], rule atomic_bind[OF keeps_requireIdentity], rule atomic_bind[OF io_keeps_wrap[OF io_keeps_lift]],
      rule atomic_bind[OF io_keeps_lift], rule atomic_bind[OF keeps_clock], rule atomic_last[OF atomic_Transaction], rule records_never_fail)

lemma atomic_rotate:
  assumes "identity_db_law (rp_db R) sto"
  shows "io_atomic (\<lambda>s. sto (is_db s)) (RotateForScope R scope i)"
  unfolding RotateForScope_def
  by (rule atomic_bind[OF keeps_store[OF keeps_requireIdentity]], rule atomic_bind[OF keeps_store[OF keeps_newCredential]],
      rule atomic_bind[OF keeps_store[OF keeps_clock]], rule atomic_last[OF atomic_wrap[OF atomic_save[OF assms]]]) simp

lemma atomic_delete:
  assumes "identity_db_law (rp_db R) sto"
  shows "io_atomic (\<lambda>s. sto (is_db s)) (DeleteForScope R scope i)"
  unfolding DeleteForScope_def
  by (rule atomic_bind[OF keeps_store[OF keeps_requireIdentity]], rule atomic_bind[OF keeps_store[OF keeps_clock]],
      rule atomic_last[OF atomic_wrap[OF atomic_save[OF assms]]]) simp

lemma UpdateForwarding_success:
  assumes L: "identity_db_law (rp_db R) sto" and c: "UpdateForwardingForScope R scope i fw s = (Inr pub, s')"
  obtains r gs now where "r \<in> set (st_identities (sto (is_db s)))" "id_Status r = IdentityStatusActive"
    "in_scope R scope (id_OwnerEmail r)" "where_field (TrimSpace i) (id_ID r)" "id_ID r = pi_ID pub" "id_EmailAddress r = pi_EmailAddress pub" "fw \<noteq> []"
    "sto (is_db s') = (sto (is_db s))\<lparr>
       st_identities := map (\<lambda>x. if id_ID x = id_ID r then x\<lparr>id_UpdatedAt := now\<rparr> else x) (st_identities (sto (is_db s))),
       st_forwards := filter (\<lambda>f. fr_IdentityID f \<noteq> id_ID r) (st_forwards (sto (is_db s))) @ gs\<rparr>"
    "map fr_EmailAddress gs = sort_by (\<le>) (map addr_value fw)" "\<forall>f \<in> set gs. fr_IdentityID f = id_ID r"
proof -
  from c obtain r s1 now s2 s3 s4 n d fs where q: "requireIdentityForScope R scope i s = (Inr r, s1)" "clockFunc R s1 = (Inr now, s2)"
    and rs: "resetForwarding R (id_ID r) s2 = (Inr (), s3)"
    and cf: "createForwardRecipients R (id_ID r) fw now s3 = (Inr (), s4)"
    and up: "g_Updates (ib_identities (rp_db R)) (\<lambda>x. where_field (id_ID r) (id_ID x)) (\<lambda>x. x\<lparr>id_UpdatedAt := now\<rparr>) (is_db s4) = (Inr n, d)"
    and fr: "forwardRecipientRecords R (id_ID r) fw now (s4\<lparr>is_db := d\<rparr>) = (Inr fs, s')"
    and p: "pub = publicIdentity (r\<lparr>id_UpdatedAt := now\<rparr>) fs"
    by (auto simp: UpdateForwardingForScope_def io_success split: if_splits)
  have "validateForwardRecipients fw = Inr ()" using c by (auto simp: UpdateForwardingForScope_def io_success)
  then have ne: "fw \<noteq> []" by (auto simp: validateForwardRecipients_def)
  note r = requireIdentity_success[OF L q(1)]
  have db: "is_db s2 = is_db s" using io_keepsD[OF keeps_clock q(2)] r(1) by simp
  have db': "is_db s' = d" using io_keepsD[OF keeps_forwardRecipientRecords fr] by simp
  note rs' = resetForwarding_success[OF L rs, unfolded db]
  note up' = identity_writes(3)[OF L up]
  obtain gs where gs: "sto (is_db s4) = (sto (is_db s3))\<lparr>st_forwards := st_forwards (sto (is_db s3)) @ gs\<rparr>"
    "map fr_EmailAddress gs = sort_by (\<le>) (map addr_value fw)" "\<forall>f \<in> set gs. fr_IdentityID f = id_ID r"
    by (rule createForwardRecipients_success[OF L cf])
  show thesis
  proof (rule that[OF r(2-5)])
    show "id_ID r = pi_ID pub" "id_EmailAddress r = pi_EmailAddress pub" by (simp_all add: p publicIdentity_def)
    show "fw \<noteq> []" by (fact ne)
    show "sto (is_db s') = (sto (is_db s))\<lparr>
       st_identities := map (\<lambda>x. if id_ID x = id_ID r then x\<lparr>id_UpdatedAt := now\<rparr> else x) (st_identities (sto (is_db s))),
       st_forwards := filter (\<lambda>f. fr_IdentityID f \<noteq> id_ID r) (st_forwards (sto (is_db s))) @ gs\<rparr>"
      using up' rs' unfolding db' gs(1) by (simp add: where_field_def)
  qed (use gs in simp_all)
qed

lemma touched_rows:
  assumes "\<And>x. id_ID (g x) = id_ID x" "\<And>x. id_OwnerEmail (g x) = id_OwnerEmail x" "\<And>x. id_Status (g x) = id_Status x"
    and "\<And>x. x \<in> set rows \<Longrightarrow> id_ID x = k \<Longrightarrow> \<not> (id_OwnerEmail x \<noteq> owner \<and> id_Status x = IdentityStatusActive)"
  shows "filter (\<lambda>r. id_OwnerEmail r \<noteq> owner \<and> id_Status r = IdentityStatusActive) (map (\<lambda>x. if id_ID x = k then g x else x) rows)
    = filter (\<lambda>r. id_OwnerEmail r \<noteq> owner \<and> id_Status r = IdentityStatusActive) rows"
  using assms by (induction rows) auto

lemma unique_ok_touch:
  assumes "unique_ok st" "\<And>x. id_ID (g x) = id_ID x \<and> id_EmailAddress (g x) = id_EmailAddress x \<and> id_Username (g x) = id_Username x"
  shows "unique_ok (st\<lparr>st_identities := map g (st_identities st)\<rparr>)"
  using assms by (simp add: unique_ok_def comp_def)

definition isolated_step :: "('d \<Rightarrow> identity_store) \<Rightarrow> string \<Rightarrow> ('d, 'w) identity_state \<Rightarrow> ('d, 'w) identity_state \<Rightarrow> bool" where
  "isolated_step sto owner s s' \<longleftrightarrow>
     of_others owner (sto (is_db s')) = of_others owner (sto (is_db s)) \<and> unique_ok (sto (is_db s'))"

lemma create_isolated:
  assumes L: "identity_db_law (rp_db R) sto" and A: "aead_law (rp_aead R)" and u: "unique_ok (sto (is_db s))" and ne: "addr_value address \<noteq> ''''"
    and owner_def: "owner = normalizeOwnerEmail R (as_OwnerEmail scope)"
  shows "isolated_step sto owner s (snd (CreateForScope R scope address fw s))"
proof -
  obtain res s' where c: "CreateForScope R scope address fw s = (res, s')" by fastforce
  show ?thesis
  proof (cases res)
    case (Inl e)
    with c atomic_create have "is_db s' = is_db s" unfolding io_atomic_def by blast
    with c u show ?thesis by (simp add: isolated_step_def)
  next
    case (Inr p)
    obtain pub pw where p: "p = (pub, pw)" by fastforce
    have c': "CreateForScope R scope address fw s = (Inr (pub, pw), s')" using c Inr p by simp
    have "of_others owner (sto (is_db s')) = of_others owner (sto (is_db s)) \<and> unique_ok (sto (is_db s'))"
      using L A ne c'
    proof (cases rule: CreateForScope_cases)
      case (inserted cred now s2)
      obtain r gs where r: "created_row R owner address pub pw r" "unique_ok (sto (is_db s'))"
        "sto (is_db s') = (sto (is_db s2))\<lparr>st_identities := st_identities (sto (is_db s2)) @ [r], st_forwards := st_forwards (sto (is_db s2)) @ gs\<rparr>"
        "map fr_EmailAddress gs = sort_by (\<le>) (map addr_value fw)" "\<forall>f \<in> set gs. fr_IdentityID f = id_ID r"
        by (rule insertIdentity_success[OF L inserted(1,3)[folded owner_def]])
      have o: "id_OwnerEmail r = owner" using r(1) by (simp add: created_row_def)
      have "of_others owner (sto (is_db s')) = of_others owner (sto (is_db s))"
        by (rule append_own_row[OF r(2) o r(5)]) (simp_all add: r(3) inserted(2))
      with r(2) show ?thesis by blast
    next
      case (reactivated existing cred now s2)
      have ex: "existing \<in> set (st_identities (sto (is_db s2)))" using reactivated(3) by (simp add: reactivated(2))
      obtain r gs where r: "created_row R owner address pub pw r" "unique_ok (sto (is_db s'))" "id_ID r = id_ID existing"
        "sto (is_db s') = (sto (is_db s2))\<lparr>
           st_identities := map (\<lambda>x. if id_ID x = id_ID existing then r else x) (st_identities (sto (is_db s2))),
           st_forwards := filter (\<lambda>f. fr_IdentityID f \<noteq> id_ID existing) (st_forwards (sto (is_db s2))) @ gs\<rparr>"
        "map fr_EmailAddress gs = sort_by (\<le>) (map addr_value fw)" "\<forall>f \<in> set gs. fr_IdentityID f = id_ID r"
        by (rule reactivateIdentity_success[OF L reactivated(1) ex reactivated(4,6)[folded owner_def]])
      have o: "id_OwnerEmail r = owner" using r(1) by (simp add: created_row_def)
      have "of_others owner (sto (is_db s')) = of_others owner (sto (is_db s))"
        by (rule replace_own_row[OF u reactivated(3) _ o, of gs]) (use r reactivated in simp_all)
      with r(2) show ?thesis by blast
    qed
    with c show ?thesis by (simp add: isolated_step_def)
  qed
qed

lemma forward_isolated:
  assumes L: "identity_db_law (rp_db R) sto" and A: "aead_law (rp_aead R)" and u: "unique_ok (sto (is_db s))" and a: "\<not> as_Admin scope"
    and owner_def: "owner = normalizeOwnerEmail R (as_OwnerEmail scope)"
  shows "isolated_step sto owner s (snd (UpdateForwardingForScope R scope i fw s))"
proof -
  obtain res s' where c: "UpdateForwardingForScope R scope i fw s = (res, s')" by fastforce
  show ?thesis
  proof (cases res)
    case (Inl e)
    with c atomic_forward have "is_db s' = is_db s" unfolding io_atomic_def by blast
    with c u show ?thesis by (simp add: isolated_step_def)
  next
    case (Inr pub)
    obtain r gs now where r: "r \<in> set (st_identities (sto (is_db s)))" "id_Status r = IdentityStatusActive"
      "in_scope R scope (id_OwnerEmail r)" "where_field (TrimSpace i) (id_ID r)" "id_ID r = pi_ID pub" "id_EmailAddress r = pi_EmailAddress pub" "fw \<noteq> []"
      "sto (is_db s') = (sto (is_db s))\<lparr>
         st_identities := map (\<lambda>x. if id_ID x = id_ID r then x\<lparr>id_UpdatedAt := now\<rparr> else x) (st_identities (sto (is_db s))),
         st_forwards := filter (\<lambda>f. fr_IdentityID f \<noteq> id_ID r) (st_forwards (sto (is_db s))) @ gs\<rparr>"
      "map fr_EmailAddress gs = sort_by (\<le>) (map addr_value fw)" "\<forall>f \<in> set gs. fr_IdentityID f = id_ID r"
      by (rule UpdateForwarding_success[OF L c[unfolded Inr]])
    have o: "id_OwnerEmail r = owner" using r(3) a by (simp add: in_scope_def owner_def)
    note own = own_row_not_foreign[OF u r(1) disjI1[OF o]]
    have "of_others owner (sto (is_db s')) = of_others owner (sto (is_db s))"
    proof (rule of_others_frame[OF _ own(1) r(10)])
      have "filter (\<lambda>r. id_OwnerEmail r \<noteq> owner \<and> id_Status r = IdentityStatusActive)
          (map (\<lambda>x. if id_ID x = id_ID r then x\<lparr>id_UpdatedAt := now\<rparr> else x) (st_identities (sto (is_db s))))
          = filter (\<lambda>r. id_OwnerEmail r \<noteq> owner \<and> id_Status r = IdentityStatusActive) (st_identities (sto (is_db s)))"
        by (rule touched_rows, simp, simp, simp, rule own(2))
      moreover have "st_identities (sto (is_db s')) = map (\<lambda>x. if id_ID x = id_ID r then x\<lparr>id_UpdatedAt := now\<rparr> else x) (st_identities (sto (is_db s)))"
        by (simp add: r(8))
      ultimately show "foreign owner (sto (is_db s')) = foreign owner (sto (is_db s))" by (simp only: foreign_def)
    qed (simp add: r(8))
    moreover have "unique_ok (sto (is_db s'))"
      unfolding r(8) using unique_ok_touch[OF u, of "\<lambda>x. if id_ID x = id_ID r then x\<lparr>id_UpdatedAt := now\<rparr> else x"] by simp
    ultimately show ?thesis using c by (simp add: isolated_step_def)
  qed
qed

lemma rotate_isolated:
  assumes L: "identity_db_law (rp_db R) sto" and A: "aead_law (rp_aead R)" and u: "unique_ok (sto (is_db s))" and a: "\<not> as_Admin scope"
    and owner_def: "owner = normalizeOwnerEmail R (as_OwnerEmail scope)"
  shows "isolated_step sto owner s (snd (RotateForScope R scope i s))"
proof -
  obtain res s' where c: "RotateForScope R scope i s = (res, s')" by fastforce
  show ?thesis
  proof (cases res)
    case (Inl e)
    with c atomic_rotate[OF L] have "sto (is_db s') = sto (is_db s)" unfolding io_atomic_def by blast
    with c u show ?thesis by (simp add: isolated_step_def)
  next
    case (Inr p)
    obtain pub pw where p: "p = (pub, pw)" by fastforce
    have c': "RotateForScope R scope i s = (Inr (pub, pw), s')" using c Inr p by simp
    obtain r r' where r: "r \<in> set (st_identities (sto (is_db s)))" "in_scope R scope (id_OwnerEmail r)" "where_field (TrimSpace i) (id_ID r)"
      "id_ID r' = id_ID r" "id_OwnerEmail r' = id_OwnerEmail r" "id_Username r' = pi_Username pub"
      "id_PasswordDigest r' = digest R (id_PasswordSalt r') pw"
      "sto (is_db s') = (sto (is_db s))\<lparr>st_identities := map (\<lambda>x. if id_ID x = id_ID r then r' else x) (st_identities (sto (is_db s)))\<rparr>"
      "unique_ok (sto (is_db s'))"
      by (rule RotateForScope_success[OF L A c'])
    have o: "id_OwnerEmail r = owner" using r(2) a by (simp add: in_scope_def owner_def)
    have "of_others owner (sto (is_db s')) = of_others owner (sto (is_db s))"
      by (rule replace_own_row[OF u r(1), of owner r' "[]"]) (use o r in simp_all)
    with r(9) c show ?thesis by (simp add: isolated_step_def)
  qed
qed

lemma delete_isolated:
  assumes L: "identity_db_law (rp_db R) sto" and A: "aead_law (rp_aead R)" and u: "unique_ok (sto (is_db s))" and a: "\<not> as_Admin scope"
    and owner_def: "owner = normalizeOwnerEmail R (as_OwnerEmail scope)"
  shows "isolated_step sto owner s (snd (DeleteForScope R scope i s))"
proof -
  obtain res s' where c: "DeleteForScope R scope i s = (res, s')" by fastforce
  show ?thesis
  proof (cases res)
    case (Inl e)
    with c atomic_delete[OF L] have "sto (is_db s') = sto (is_db s)" unfolding io_atomic_def by blast
    with c u show ?thesis by (simp add: isolated_step_def)
  next
    case (Inr p)
    have c': "DeleteForScope R scope i s = (Inr (), s')" using c Inr by simp
    obtain r r' where r: "r \<in> set (st_identities (sto (is_db s)))" "in_scope R scope (id_OwnerEmail r)" "where_field (TrimSpace i) (id_ID r)"
      "id_ID r' = id_ID r" "id_OwnerEmail r' = id_OwnerEmail r" "id_Status r' = IdentityStatusDeleted"
      "sto (is_db s') = (sto (is_db s))\<lparr>st_identities := map (\<lambda>x. if id_ID x = id_ID r then r' else x) (st_identities (sto (is_db s)))\<rparr>"
      "unique_ok (sto (is_db s'))"
      by (rule DeleteForScope_success[OF L c'])
    have o: "id_OwnerEmail r = owner" using r(2) a by (simp add: in_scope_def owner_def)
    have "of_others owner (sto (is_db s')) = of_others owner (sto (is_db s))"
      by (rule replace_own_row[OF u r(1), of owner r' "[]"]) (use o r in simp_all)
    with r(8) c show ?thesis by (simp add: isolated_step_def)
  qed
qed

lemma identity_step_isolated:
  assumes "identity_db_law (rp_db R) sto" "aead_law (rp_aead R)" "unique_ok (sto (is_db s))" "\<not> as_Admin scope"
    and "\<And>address fw. op = OpCreate address fw \<Longrightarrow> addr_value address \<noteq> ''''"
  shows "isolated_step sto (normalizeOwnerEmail R (as_OwnerEmail scope)) s (identity_step R scope op s)"
  using assms create_isolated[OF assms(1-3) _ refl] forward_isolated[OF assms(1-4) refl] rotate_isolated[OF assms(1-4) refl]
    delete_isolated[OF assms(1-4) refl]
  by (cases op) (simp_all add: identity_step_def)

text \<open>C3. Owners are isolated: no sequence of creations, forwarding updates, rotations and deletions by a
  scope without administrator rights, successful or not, changes an active identity of another
  owner or the recipients it forwards to.\<close>

theorem scoped_operations_isolated:
  assumes "identity_db_law (rp_db R) sto" "aead_law (rp_aead R)" "unique_ok (sto (is_db s))" "\<not> as_Admin scope"
    and "\<forall>address fw. OpCreate address fw \<in> set ops \<longrightarrow> addr_value address \<noteq> ''''"
  shows "of_others (normalizeOwnerEmail R (as_OwnerEmail scope)) (sto (is_db (fold (identity_step R scope) ops s)))
    = of_others (normalizeOwnerEmail R (as_OwnerEmail scope)) (sto (is_db s))"
  using assms(3,5)
proof (induction ops arbitrary: s)
  case (Cons op ops)
  have "isolated_step sto (normalizeOwnerEmail R (as_OwnerEmail scope)) s (identity_step R scope op s)"
    by (rule identity_step_isolated[OF assms(1,2) Cons.prems(1) assms(4)]) (use Cons.prems(2) in auto)
  note step = this[unfolded isolated_step_def]
  have "\<forall>address fw. OpCreate address fw \<in> set ops \<longrightarrow> addr_value address \<noteq> ''''" using Cons.prems(2) by auto
  from Cons.IH[OF conjunct2[OF step] this] conjunct1[OF step] show ?case by simp
qed simp

subsection \<open>Forwarding routes\<close>

lemma storedRecipients_values:
  assumes "\<forall>f \<in> set fs. \<exists>a \<in> A. fr_EmailAddress f = addr_value a \<and> NewAddress (rp_mail R) (addr_value a) = Inr a"
  shows "\<exists>as. storedRecipients R fs = Inr as \<and> map addr_value as = map fr_EmailAddress fs \<and> set as \<subseteq> A"
  using assms
proof (induction fs)
  case (Cons f fs)
  then obtain a as where "a \<in> A" "fr_EmailAddress f = addr_value a" "NewAddress (rp_mail R) (addr_value a) = Inr a"
    "storedRecipients R fs = Inr as" "map addr_value as = map fr_EmailAddress fs" "set as \<subseteq> A" by fastforce
  then show ?case by (intro exI[of _ "a # as"]) simp
qed simp

lemma preload_one:
  assumes "identity_db_law (rp_db R) sto" "find_succeeds (ib_forwards (rp_db R)) (is_db s)"
  obtains fs where "preloadForwardTo R [r] s = (Inr fs, s)" "mset fs = mset (filter (\<lambda>f. fr_IdentityID f = id_ID r) (st_forwards (sto (is_db s))))"
    "sorted (map fr_EmailAddress fs)" "forwards_of r fs = fs"
proof -
  let ?le = "\<lambda>a b. fr_EmailAddress a \<le> fr_EmailAddress b"
  let ?p = "\<lambda>f. fr_IdentityID f \<in> id_ID ` set [r]"
  have law: "find_law (ib_forwards (rp_db R)) (st_forwards \<circ> sto)" using assms(1) by (simp add: identity_db_law_def identity_reads_law_def)
  have tp: "total_preorder ?le" by (auto simp: total_preorder_def)
  obtain fs where fs: "g_Find (ib_forwards (rp_db R)) ?p ?le None (is_db s) = Inr fs"
    using assms(2) unfolding find_succeeds_def is_ok_iff by blast
  obtain ys where ys: "mset ys = mset (filter ?p (st_forwards (sto (is_db s))))" "sorted_wrt ?le ys" "fs = ys"
    using law tp fs unfolding find_law_def take_limit_def by (metis comp_apply option.case(1))
  have "set ys = set (filter ?p (st_forwards (sto (is_db s))))" using ys(1) by (metis set_mset_mset)
  then have "\<forall>f \<in> set fs. fr_IdentityID f = id_ID r" using ys(3) by auto
  then have "forwards_of r fs = fs" by (simp add: forwards_of_def filter_id_conv)
  moreover have "sorted (map fr_EmailAddress fs)" using ys(2,3) by (simp add: sorted_map)
  moreover have "preloadForwardTo R [r] s = (Inr fs, s)" using fs by (simp add: preloadForwardTo_def read_idb_def)
  ultimately show thesis using that ys(1,3) by simp
qed


subsection \<open>A store\<close>

definition checked :: "identity_store \<Rightarrow> identity_store \<Rightarrow> 'r \<Rightarrow> 'r result \<times> identity_store" where
  "checked d d' r = (if unique_ok d' then (Inr r, d') else (Inl (External ''UNIQUE constraint failed''), d))"

definition store_db :: "identity_store identity_db" where
  "store_db =
     \<lparr>ib_identities = (list_table st_identities (\<lambda>rs d. d\<lparr>st_identities := rs\<rparr>) (\<lambda>_. 0) (\<lambda>_ r. r))
        \<lparr>g_Create := (\<lambda>r d. checked d (d\<lparr>st_identities := st_identities d @ [r]\<rparr>) r),
         g_Save := (\<lambda>r d. checked d (d\<lparr>st_identities := map (\<lambda>x. if id_ID x = id_ID r then r else x) (st_identities d)\<rparr>) r)\<rparr>,
      ib_forwards = list_table st_forwards (\<lambda>rs d. d\<lparr>st_forwards := rs\<rparr>) (\<lambda>_. 0) (\<lambda>_ r. r),
      ib_domains = (list_table st_domains (\<lambda>rs d. d\<lparr>st_domains := rs\<rparr>) sd_ID (\<lambda>n r. r\<lparr>sd_ID := n\<rparr>))
        \<lparr>g_Create := (\<lambda>r d. let r' = r\<lparr>sd_ID := next_key sd_ID (st_domains d)\<rparr> in checked d (d\<lparr>st_domains := st_domains d @ [r']\<rparr>) r'),
         g_Save := (\<lambda>r d. checked d (d\<lparr>st_domains := map (\<lambda>x. if sd_ID x = sd_ID r then r else x) (st_domains d)\<rparr>) r)\<rparr>,
      ib_Commit = (\<lambda>d. Inr ())\<rparr>"

lemma reads_law_cong:
  "g_First T' = g_First T \<Longrightarrow> first_law T rows \<Longrightarrow> first_law T' rows"
  "g_Find T' = g_Find T \<Longrightarrow> find_law T rows \<Longrightarrow> find_law T' rows"
  by (simp_all only: first_law_def find_law_def)

lemma store_db_reads: "identity_reads_law store_db (\<lambda>d. d)"
proof -
  have i: "first_law (ib_identities store_db) st_identities" "find_law (ib_identities store_db) st_identities"
    using list_table_reads[of st_identities "\<lambda>rs d. d\<lparr>st_identities := rs\<rparr>" "\<lambda>_. 0" "\<lambda>_ r. r"]
    by (auto simp: store_db_def elim!: reads_law_cong[rotated])
  have f: "find_law (ib_forwards store_db) st_forwards"
    using list_table_reads[of st_forwards "\<lambda>rs d. d\<lparr>st_forwards := rs\<rparr>" "\<lambda>_. 0" "\<lambda>_ r. r"]
    by (simp add: store_db_def)
  have d: "first_law (ib_domains store_db) st_domains" "find_law (ib_domains store_db) st_domains"
    using list_table_reads[of st_domains "\<lambda>rs d. d\<lparr>st_domains := rs\<rparr>" sd_ID "\<lambda>n r. r\<lparr>sd_ID := n\<rparr>"]
    by (auto simp: store_db_def elim!: reads_law_cong[rotated])
  show ?thesis using i f d by (simp add: identity_reads_law_def comp_def)
qed

lemma store_db_law: "identity_db_law store_db (\<lambda>d. d)"
proof -
  have "identity_reads_law store_db (\<lambda>d. d)" by (rule store_db_reads)
  moreover have "identity_writes_law store_db (\<lambda>d. d)"
    unfolding identity_writes_law_def store_db_def list_table_def checked_def Let_def
    by (simp add: same_identity_def same_forward_def same_sender_domain_def)
  moreover have "identity_errors_law store_db (\<lambda>d. d)"
    by (auto simp: identity_errors_law_def store_db_def list_table_def checked_def split: if_splits)
  ultimately show ?thesis by (simp add: identity_db_law_def)
qed

lemma store_db_available: "db_available store_db d" "first_total (ib_identities store_db) d" "find_succeeds (ib_forwards store_db) d"
  by (auto simp: db_available_def store_db_def list_table_def first_total_def find_succeeds_def split: list.split)

definition plain_mail :: mail_api where
  "plain_mail =
     \<lparr>mail_ParseAddress = (\<lambda>s. if s = ''a@b.co'' \<or> s = ''c@d.co'' then Some ('''', s) else None),
      mail_ParseAddressList = (\<lambda>s. Some [('''', s)]), mail_HeaderFrom = (\<lambda>data. Some ''a@b.co'')\<rparr>"

definition plain_aead :: aead where
  "plain_aead = \<lparr>aead_Seal = (\<lambda>key nonce plain. plain), aead_Open = (\<lambda>key nonce c. Some c)\<rparr>"

definition store_repo :: "(identity_store, nat) identity_repo" where
  "store_repo =
     \<lparr>rp_db = store_db, rp_key = replicate 32 (CHR 0x00), rp_hmac = (\<lambda>key message. message), rp_aead = plain_aead, rp_mail = plain_mail,
      rp_clock = (\<lambda>w. (int w, w)), rp_uuid = (\<lambda>w. (replicate (Suc w) (CHR ''u''), Suc w))\<rparr>"

lemma store_repo_laws [simp]:
  "rp_db store_repo = store_db" "aead_law (rp_aead store_repo)" "mail_addr_spec (rp_mail store_repo)"
proof -
  show "rp_db store_repo = store_db" "aead_law (rp_aead store_repo)"
    by (simp_all add: store_repo_def plain_aead_def aead_law_def)
  have ex: "\<exists>l d. s = l @ CHR ''@'' # d \<and> CHR ''@'' \<notin> set l \<and> l \<noteq> [] \<and> d \<noteq> [] \<and> trimmed l \<and> trimmed d"
    if "Cut s (CHR ''@'') = (l, d, True)" "l \<noteq> []" "d \<noteq> []" "TrimSpace l = l" "TrimSpace d = d" for s l d
    using that by (auto simp: Cut_found trimmed_iff)
  have c: "Cut ''a@b.co'' (CHR ''@'') = (''a'', ''b.co'', True)" "Cut ''c@d.co'' (CHR ''@'') = (''c'', ''d.co'', True)"
    "TrimSpace ''a'' = ''a''" "TrimSpace ''b.co'' = ''b.co''" "TrimSpace ''c'' = ''c''" "TrimSpace ''d.co'' = ''d.co''"
    "ToLower ''a@b.co'' = ''a@b.co''" "ToLower ''c@d.co'' = ''c@d.co''"
    by code_simp+
  show "mail_addr_spec (rp_mail store_repo)"
    using ex[OF c(1)] ex[OF c(2)] c(3-8) by (auto simp: mail_addr_spec_def store_repo_def plain_mail_def)
qed

definition store_address :: address where "store_address = \<lparr>addr_value = ''a@b.co'', addr_domain = ''b.co''\<rparr>"
definition store_target :: address where "store_target = \<lparr>addr_value = ''c@d.co'', addr_domain = ''d.co''\<rparr>"
definition store_scope :: access_scope where "store_scope = \<lparr>as_OwnerEmail = ''Owner'', as_Admin = False\<rparr>"

definition store_state :: "(identity_store, nat) identity_state" where
  "store_state =
     \<lparr>is_db = \<lparr>st_identities = [], st_forwards = [],
        st_domains = [\<lparr>sd_ID = 1, sd_OwnerEmail = ''owner'', sd_Domain = ''b.co'', sd_Status = SenderDomainStatusVerified,
          sd_VerificationToken = ''t'', sd_LastCheckedAt = None, sd_CreatedAt = 0, sd_UpdatedAt = 0\<rparr>]\<rparr>,
      is_random = replicate 100 (CHR ''r'') @ replicate 100 (CHR ''s''), is_world = 0\<rparr>"

definition store_created :: "(public_identity \<times> string) result \<times> (identity_store, nat) identity_state" where
  "store_created = CreateForScope store_repo store_scope store_address [store_target] store_state"

lemma store_created_ok: "is_ok (fst store_created)"
  by code_simp

text \<open>The store and the store of a second run: the state after the creation, after a rotation and after a deletion.\<close>

definition store_rotated :: "(public_identity \<times> string) result \<times> (identity_store, nat) identity_state" where
  "store_rotated = RotateForScope store_repo store_scope ''u'' (snd store_created)"

definition store_deleted :: "unit result \<times> (identity_store, nat) identity_state" where
  "store_deleted = DeleteForScope store_repo store_scope ''u'' (snd store_created)"

definition store_forwarded :: "public_identity result \<times> (identity_store, nat) identity_state" where
  "store_forwarded = UpdateForwardingForScope store_repo store_scope ''u'' [store_target] (snd store_created)"

lemma store_rotated_ok:
  "case store_rotated of (Inl e, s') \<Rightarrow> False
   | (Inr (pub, pw), s') \<Rightarrow> (case fst (Authenticate store_repo (pi_Username pub) pw s') of Inl e \<Rightarrow> False | Inr ai \<Rightarrow> ai_ID ai = ''u'')"
  by code_simp

lemma store_deleted_ok: "is_ok (fst store_deleted)"
  by code_simp

lemma store_forwarded_ok:
  "case store_forwarded of (Inl e, s') \<Rightarrow> False
   | (Inr pub, s') \<Rightarrow> pi_EmailAddress pub = ''a@b.co''
       \<and> list_all (\<lambda>r. is_ok (fst (requireSenderDomainForIdentity store_repo (id_OwnerEmail r) ''b.co'' s'))) (st_identities (is_db s'))"
  by code_simp

lemma store_addresses: "NewAddress plain_mail ''a@b.co'' = Inr store_address" "NewAddress plain_mail ''c@d.co'' = Inr store_target"
  by code_simp+

lemma store_unique: "unique_ok (is_db store_state)" "unique_ok (is_db (snd store_created))"
  by code_simp+

lemma result_run: "is_ok (fst m) \<Longrightarrow> \<exists>x. m = (Inr x, snd m)"
  by (cases m) (auto simp: is_ok_iff)

lemma store_rotated_run:
  obtains pub pw s' ai s'' where "RotateForScope store_repo store_scope ''u'' (snd store_created) = (Inr (pub, pw), s')"
    "Authenticate store_repo (pi_Username pub) pw s' = (Inr ai, s'')" "ai_ID ai = ''u''"
proof -
  obtain x s' where r: "store_rotated = (x, s')" by (rule prod.exhaust)
  from store_rotated_ok obtain pub pw where x: "x = Inr (pub, pw)" unfolding r by (cases x) auto
  obtain y s'' where a: "Authenticate store_repo (pi_Username pub) pw s' = (y, s'')" by (rule prod.exhaust)
  from store_rotated_ok obtain ai where "y = Inr ai" "ai_ID ai = ''u''" unfolding r x by (cases y) (simp_all add: a)
  with that r x a show thesis by (simp add: store_rotated_def)
qed



theorem revoked_credentials_fail_witness:
  "(\<exists>s'. DeleteForScope store_repo store_scope ''u'' (snd store_created) = (Inr (), s')
      \<and> \<not> (\<exists>ai s''. Authenticate store_repo ''u'' ''p'' s' = (Inr ai, s'') \<and> ai_ID ai = ''u''))
   \<and> (\<exists>pub pw s'. RotateForScope store_repo store_scope ''u'' (snd store_created) = (Inr (pub, pw), s')
      \<and> (\<exists>x \<in> set (st_identities (is_db s')). id_ID x = ''u'' \<and> TrimSpace (pi_Username pub) = pi_Username pub))"
proof -
  have l: "identity_db_law (rp_db store_repo) (\<lambda>d. d)" by (simp add: store_db_law)
  have t: "TrimSpace ''u'' \<noteq> ''''" "TrimSpace ''u'' = ''u''" by code_simp+
  obtain s' where d: "DeleteForScope store_repo store_scope ''u'' (snd store_created) = (Inr (), s')"
    using result_run[OF store_deleted_ok] unfolding store_deleted_def by auto
  obtain pub pw s1 i s2 where r: "RotateForScope store_repo store_scope ''u'' (snd store_created) = (Inr (pub, pw), s1)"
    and a: "Authenticate store_repo (pi_Username pub) pw s1 = (Inr i, s2)" "ai_ID i = ''u''" by (rule store_rotated_run)
  note W = revoked_credentials_fail[OF l store_repo_laws(2) t(1), of store_scope "snd store_created"]
  from conjunct1[OF W] d t(2) have "\<not> (\<exists>ai s''. Authenticate store_repo ''u'' ''p'' s' = (Inr ai, s'') \<and> ai_ID ai = ''u'')" by metis
  moreover from conjunct2[OF W] r a t(2) have "\<exists>x \<in> set (st_identities (is_db s1)). id_ID x = ''u''" "TrimSpace (pi_Username pub) = pi_Username pub"
    by metis+
  ultimately show ?thesis using d r by blast
qed

theorem scoped_operations_isolated_witness:
  "of_others ''thief'' (is_db (fold (identity_step store_repo \<lparr>as_OwnerEmail = ''thief'', as_Admin = False\<rparr>) [OpRotate ''u'', OpDelete ''u''] (snd store_created)))
   = of_others ''thief'' (is_db (snd store_created))
   \<and> of_others ''thief'' (is_db (snd store_created)) \<noteq> ([], [])"
proof -
  have l: "identity_db_law (rp_db store_repo) (\<lambda>d. d)" by (simp add: store_db_law)
  have n: "normalizeOwnerEmail store_repo ''thief'' = ''thief''" by code_simp
  have "of_others ''thief'' (is_db (snd store_created)) \<noteq> ([], [])" by code_simp
  with scoped_operations_isolated[OF l store_repo_laws(2) store_unique(2), of "\<lparr>as_OwnerEmail = ''thief'', as_Admin = False\<rparr>" "[OpRotate ''u'', OpDelete ''u'']"]
  show ?thesis by (simp add: n)
qed


end
