(* ===== verification/Submission_Types.thy ===== *)
theory Submission_Types
  imports Smtp_Address
begin

text \<open>
  The types of the SMTP submission service (\<open>internal/smtpsubmission/types.go\<close> and the
  \<open>Config\<close> of \<open>server.go\<close>). An \<open>Authenticator\<close> and a \<open>RawRelay\<close> are Go interfaces: here
  functions that read and change a world state \<open>'w\<close>. A pointer the server only compares with
  \<open>nil\<close> (the TLS configuration, the logger) is a flag.
\<close>

type_synonym 'w authenticator = "string \<Rightarrow> string \<Rightarrow> 'w \<Rightarrow> authenticated_identity result \<times> 'w"
type_synonym 'w raw_relay = "raw_message \<Rightarrow> 'w \<Rightarrow> unit result \<times> 'w"

definition ErrRelayTemporary :: go_error where
  "ErrRelayTemporary = ErrorsNew ''smtp_submission.relay_temporary''"

definition ErrRelayPermanent :: go_error where
  "ErrRelayPermanent = ErrorsNew ''smtp_submission.relay_permanent''"

record 'w submission_config =
  sc_Hostname :: string
  sc_ListenAddr :: string
  sc_TLSListenAddr :: string
  sc_TLSConfig :: bool
  sc_MaxMessageBytes :: int
  sc_MaxRecipients :: int
  sc_CommandTimeout :: duration
  sc_MaxConcurrentSessions :: int
  sc_MaxSessionsPerRemoteHost :: int
  sc_AuthFailureLimit :: int
  sc_AuthFailureWindow :: duration
  sc_MessageLimit :: int
  sc_MessageWindow :: duration
  sc_AllowInsecureAuth :: bool
  sc_Authenticator :: "'w authenticator option"
  sc_Relay :: "'w raw_relay option"
  sc_Logger :: bool

lemma relay_errors_distinct [simp]:
  "ErrRelayTemporary \<noteq> ErrRelayPermanent" "ErrRelayPermanent \<noteq> ErrRelayTemporary"
  by (simp_all add: ErrRelayTemporary_def ErrRelayPermanent_def)

end
