(* ===== verification/Rate_Limits.thy ===== *)
theory Rate_Limits
  imports Pinguin_Prelude
begin

text \<open>
  The two contracts behind the SMTP limits, as interfaces the limiter implementations are proved to
  meet. \<open>sliding_log\<close> is a log of recent events per key that admits a new event while
  fewer than \<open>limit\<close> of the stored ones are younger than \<open>window\<close>; \<open>session_pool\<close> counts
  open sessions, in total and per remote host. In both, an execution is a list of operations, each of
  which the code runs under one mutex, so a list stands for any interleaving of connections.
  The history of an execution is a ghost value: it is never pruned.
\<close>

subsection \<open>Pruning a sorted log\<close>

fun firstKeptIndex :: "time list \<Rightarrow> time \<Rightarrow> nat" where
  "firstKeptIndex [] cutoff = 0"
| "firstKeptIndex (e # es) cutoff = (if \<not> cutoff < e then Suc (firstKeptIndex es cutoff) else 0)"

definition pruneWindow :: "time list \<Rightarrow> time \<Rightarrow> time list" where
  "pruneWindow events cutoff =
     (let i = firstKeptIndex events cutoff in if i = 0 then events else drop i events)"

subsection \<open>Executions and their histories\<close>

fun run_ops :: "('op \<Rightarrow> 's \<Rightarrow> 's) \<Rightarrow> 'op list \<Rightarrow> 's \<Rightarrow> 's" where
  "run_ops step [] s = s"
| "run_ops step (x # xs) s = run_ops step xs (step x s)"

text \<open>The times of the admitted events of each key, in order, without those withdrawn since.\<close>

fun admission_history ::
  "('op \<Rightarrow> 's \<Rightarrow> 's) \<Rightarrow> ('op \<Rightarrow> 's \<Rightarrow> (string \<times> time) option) \<Rightarrow> ('op \<Rightarrow> string \<Rightarrow> time list \<Rightarrow> time list)
   \<Rightarrow> 'op list \<Rightarrow> 's \<Rightarrow> (string \<Rightarrow> time list) \<Rightarrow> string \<Rightarrow> time list" where
  "admission_history step adm wd [] s h = h"
| "admission_history step adm wd (x # xs) s h =
     admission_history step adm wd xs (step x s)
       (case adm x s of Some (k, now) \<Rightarrow> h(k := h k @ [now]) | None \<Rightarrow> (\<lambda>k. wd x k (h k)))"

text \<open>The multiset of hosts with an open session; \<open>None\<close> when a session is closed that is not open.\<close>

fun open_sessions ::
  "('op \<Rightarrow> 's \<Rightarrow> 's) \<Rightarrow> ('op \<Rightarrow> 's \<Rightarrow> string option) \<Rightarrow> ('op \<Rightarrow> string option)
   \<Rightarrow> 'op list \<Rightarrow> 's \<Rightarrow> string multiset \<Rightarrow> string multiset option" where
  "open_sessions step opn cls [] s A = Some A"
| "open_sessions step opn cls (x # xs) s A =
     (case opn x s of
        Some k \<Rightarrow> open_sessions step opn cls xs (step x s) (add_mset k A)
      | None \<Rightarrow> (case cls x of
            Some k \<Rightarrow> if k \<in># A then open_sessions step opn cls xs (step x s) (A - {#k#}) else None
          | None \<Rightarrow> open_sessions step opn cls xs (step x s) A))"

lemma run_ops_append [simp]: "run_ops step (xs @ ys) s = run_ops step ys (run_ops step xs s)"
  by (induction xs arbitrary: s) simp_all

lemma run_ops_invariant:
  "P s \<Longrightarrow> (\<And>x s. P s \<Longrightarrow> P (step x s)) \<Longrightarrow> P (run_ops step xs s)"
  by (induction xs arbitrary: s) simp_all

lemma pruneWindow_dropWhile: "pruneWindow events cutoff = dropWhile (\<lambda>e. e \<le> cutoff) events"
proof -
  have "drop (firstKeptIndex events cutoff) events = dropWhile (\<lambda>e. e \<le> cutoff) events"
    by (induction events) auto
  then show ?thesis by (auto simp: pruneWindow_def Let_def)
qed

lemma pruneWindow_filter: "sorted events \<Longrightarrow> pruneWindow events cutoff = filter (\<lambda>e. cutoff < e) events"
  by (simp add: pruneWindow_dropWhile filter_eq_dropWhile_sorted)

subsection \<open>The sliding log\<close>

locale sliding_log =
  fixes step :: "'op \<Rightarrow> 's \<Rightarrow> 's"
    and log :: "'s \<Rightarrow> string \<Rightarrow> time list"
    and attempt :: "'op \<Rightarrow> (string \<times> time) option"
    and admits :: "'op \<Rightarrow> 's \<Rightarrow> (string \<times> time) option"
    and withdraw :: "'op \<Rightarrow> string \<Rightarrow> time list \<Rightarrow> time list"
    and limit :: "'s \<Rightarrow> int"
    and window :: "'s \<Rightarrow> duration"
  assumes admits_iff: "attempt x = Some (k, now) \<Longrightarrow>
      admits x s = (if int (length (pruneWindow (log s k) (now - window s))) < limit s then Some (k, now) else None)"
    and admits_None: "attempt x = None \<Longrightarrow> admits x s = None"
    and log_attempt: "attempt x = Some (k, now) \<Longrightarrow>
      log (step x s) k = pruneWindow (log s k) (now - window s) @ (if admits x s = None then [] else [now])"
    and log_other_key: "attempt x = Some (k, now) \<Longrightarrow> k' \<noteq> k \<Longrightarrow> log (step x s) k' = log s k'"
    and log_withdraw: "attempt x = None \<Longrightarrow> log (step x s) k' = withdraw x k' (log s k')"
    and withdraw_attempt: "attempt x = Some (k, now) \<Longrightarrow> withdraw x k' ts = ts"
    and withdraw_filter: "filter P (withdraw x k' ts) = withdraw x k' (filter P ts)"
    and withdraw_subseq: "subseq (withdraw x k' ts) ts"
    and limit_step: "limit (step x s) = limit s"
    and window_step: "window (step x s) = window s"
begin

definition tracks :: "'s \<Rightarrow> (string \<Rightarrow> time list) \<Rightarrow> time \<Rightarrow> bool" where
  "tracks s h t1 \<longleftrightarrow> 0 < window s \<and>
     (\<forall>k. sorted (h k) \<and> (\<forall>t \<in> set (h k). t \<le> t1)
        \<and> (\<exists>c \<le> t1 - window s. log s k = filter (\<lambda>t. c < t) (h k))
        \<and> (\<forall>t0. int (length (filter (\<lambda>t. t0 < t \<and> t \<le> t0 + window s) (h k))) \<le> limit s))"

lemma tracks_log:
  assumes "tracks s h t1" "t1 \<le> now"
  shows "pruneWindow (log s k) (now - window s) = filter (\<lambda>t. now - window s < t) (h k)"
proof -
  from assms(1) obtain c where c: "c \<le> t1 - window s" "log s k = filter (\<lambda>t. c < t) (h k)"
    and sorted: "sorted (h k)"
    unfolding tracks_def by blast
  have "sorted (log s k)" using c(2) sorted by (simp add: sorted_filter[of id, simplified])
  then have "pruneWindow (log s k) (now - window s) = filter (\<lambda>t. now - window s < t) (log s k)"
    by (rule pruneWindow_filter)
  also have "\<dots> = filter (\<lambda>t. now - window s < t) (h k)"
    unfolding c(2) filter_filter by (rule filter_cong) (use c(1) assms(2) in auto)
  finally show ?thesis .
qed

lemma decision_exact:
  assumes "tracks s h t1" "t1 \<le> now" "attempt x = Some (k, now)"
  shows "admits x s = Some (k, now) \<longleftrightarrow>
    int (length (filter (\<lambda>t. now - window s < t) (h k))) < limit s"
  using tracks_log[OF assms(1,2)] admits_iff[OF assms(3), of s] by simp

lemma tracks_mono: "tracks s h t1 \<Longrightarrow> t1 \<le> t2 \<Longrightarrow> tracks s h t2"
  unfolding tracks_def by (meson diff_right_mono order.trans)

lemma tracks_admit:
  assumes tr: "tracks s h t1" and le: "t1 \<le> now" and x: "attempt x = Some (k, now)"
    and adm: "admits x s = Some (k, now)"
  shows "tracks (step x s) (h(k := h k @ [now])) now"
  unfolding tracks_def window_step limit_step
proof (intro allI conjI)
  show W: "0 < window s" using tr by (simp add: tracks_def)
  have now_max: "\<forall>t \<in> set (h j). t \<le> now" for j
    using tr le by (fastforce simp: tracks_def)
  fix k' t0
  note h = conjunct2[OF tr[unfolded tracks_def], rule_format, of k']
  show "sorted ((h(k := h k @ [now])) k')"
    using h now_max by (auto simp: sorted_append)
  show "\<forall>t \<in> set ((h(k := h k @ [now])) k'). t \<le> now"
    using now_max by auto
  show "\<exists>c \<le> now - window s. log (step x s) k' = filter (\<lambda>t. c < t) ((h(k := h k @ [now])) k')"
  proof (cases "k' = k")
    case True
    then show ?thesis
      using log_attempt[OF x, of s] adm tracks_log[OF tr le, of k] W
      by (auto intro!: exI[of _ "now - window s"])
  next
    case False
    from h obtain c where "c \<le> t1 - window s" "log s k' = filter (\<lambda>t. c < t) (h k')" by blast
    with False le log_other_key[OF x False, of s] show ?thesis
      by (auto intro!: exI[of _ c])
  qed
  show "int (length (filter (\<lambda>t. t0 < t \<and> t \<le> t0 + window s) ((h(k := h k @ [now])) k'))) \<le> limit s"
  proof (cases "k' = k \<and> t0 < now \<and> now \<le> t0 + window s")
    case True
    have "length (filter (\<lambda>t. t0 < t \<and> t \<le> t0 + window s) (h k))
        \<le> length (filter (\<lambda>t. now - window s < t) (h k))"
      by (rule length_filter_le_filter) (use True in auto)
    moreover have "int (length (filter (\<lambda>t. now - window s < t) (h k))) < limit s"
      using decision_exact[OF tr le x] adm by simp
    ultimately show ?thesis using True by simp
  next
    case False
    then show ?thesis using h by (cases "k' = k") auto
  qed
qed

lemma tracks_deny:
  assumes tr: "tracks s h t1" and le: "t1 \<le> now" and x: "attempt x = Some (k, now)"
    and adm: "admits x s = None"
  shows "tracks (step x s) h now"
  unfolding tracks_def window_step limit_step
proof (intro allI conjI)
  show "0 < window s" using tr by (simp add: tracks_def)
  fix k' t0
  note h = conjunct2[OF tracks_mono[OF tr le, unfolded tracks_def], rule_format, of k']
  show "sorted (h k')" "\<forall>t \<in> set (h k'). t \<le> now"
    "int (length (filter (\<lambda>t. t0 < t \<and> t \<le> t0 + window s) (h k'))) \<le> limit s"
    using h by blast+
  show "\<exists>c \<le> now - window s. log (step x s) k' = filter (\<lambda>t. c < t) (h k')"
  proof (cases "k' = k")
    case True
    then show ?thesis
      using log_attempt[OF x, of s] adm tracks_log[OF tr le, of k]
      by (auto intro!: exI[of _ "now - window s"])
  next
    case False
    with h log_other_key[OF x False, of s] show ?thesis by simp
  qed
qed

lemma tracks_withdraw:
  assumes tr: "tracks s h t1" and x: "attempt x = None"
  shows "tracks (step x s) (\<lambda>k. withdraw x k (h k)) t1"
  unfolding tracks_def window_step limit_step
proof (intro allI conjI)
  show "0 < window s" using tr by (simp add: tracks_def)
  fix k t0
  note h = conjunct2[OF tr[unfolded tracks_def], rule_format, of k]
  have sub: "subseq (withdraw x k (h k)) (h k)" by (rule withdraw_subseq)
  show "sorted (withdraw x k (h k))"
    using h sub by (metis sorted_wrt_subseq)
  show "\<forall>t \<in> set (withdraw x k (h k)). t \<le> t1"
    using h set_subseq[OF sub] by blast
  show "\<exists>c \<le> t1 - window s. log (step x s) k = filter (\<lambda>t. c < t) (withdraw x k (h k))"
    using h by (auto simp: withdraw_filter log_withdraw[OF x])
  have "length (filter (\<lambda>t. t0 < t \<and> t \<le> t0 + window s) (withdraw x k (h k)))
      \<le> length (filter (\<lambda>t. t0 < t \<and> t \<le> t0 + window s) (h k))"
    unfolding withdraw_filter by (rule list_emb_length[OF withdraw_subseq])
  moreover from h have "int (length (filter (\<lambda>t. t0 < t \<and> t \<le> t0 + window s) (h k))) \<le> limit s"
    by blast
  ultimately show "int (length (filter (\<lambda>t. t0 < t \<and> t \<le> t0 + window s) (withdraw x k (h k)))) \<le> limit s"
    by linarith
qed

abbreviation history :: "'op list \<Rightarrow> 's \<Rightarrow> (string \<Rightarrow> time list) \<Rightarrow> string \<Rightarrow> time list" where
  "history \<equiv> admission_history step admits withdraw"

abbreviation readings :: "'op list \<Rightarrow> time list" where
  "readings xs \<equiv> map snd (List.map_filter attempt xs)"

lemma tracks_run:
  assumes "tracks s h t1" "sorted (t1 # readings xs)"
  shows "tracks (run_ops step xs s) (history xs s h) (List.last (t1 # readings xs))"
  using assms
proof (induction xs arbitrary: s h t1)
  case Nil
  then show ?case by (simp add: List.map_filter_simps)
next
  case (Cons x xs)
  show ?case
  proof (cases "attempt x")
    case None
    from Cons.IH[OF tracks_withdraw[OF Cons.prems(1) None]] Cons.prems(2) show ?thesis
      by (simp add: List.map_filter_simps None admits_None)
  next
    case (Some kn)
    obtain k now where kn: "attempt x = Some (k, now)" using Some by (cases kn) simp
    have le: "t1 \<le> now" and rest: "sorted (now # readings xs)"
      using Cons.prems(2) by (auto simp: List.map_filter_simps kn)
    show ?thesis
    proof (cases "admits x s")
      case None
      from Cons.IH[OF tracks_deny[OF Cons.prems(1) le kn None] rest] show ?thesis
        by (simp add: List.map_filter_simps kn None withdraw_attempt[OF kn])
    next
      case (Some a)
      then have adm: "admits x s = Some (k, now)"
        using admits_iff[OF kn, of s] by (simp split: if_splits)
      from Cons.IH[OF tracks_admit[OF Cons.prems(1) le kn adm] rest] show ?thesis
        by (simp add: List.map_filter_simps kn adm fun_upd_def)
    qed
  qed
qed

text \<open>A fresh log tracks the empty history, whatever the time.\<close>

lemma tracks_initial: "0 < window s \<Longrightarrow> 0 \<le> limit s \<Longrightarrow> (\<And>k. log s k = []) \<Longrightarrow> tracks s (\<lambda>_. []) t1"
  unfolding tracks_def by auto

lemma limit_run: "limit (run_ops step xs s) = limit s"
  by (induction xs arbitrary: s) (simp_all add: limit_step)

lemma window_run: "window (run_ops step xs s) = window s"
  by (induction xs arbitrary: s) (simp_all add: window_step)

text \<open>The limit holds for every window of the execution, not only for those that end when an
  event is admitted, and an attempt is refused only when it would break it.\<close>

lemma rate_bound:
  assumes s: "0 < window s" "0 \<le> limit s" "\<And>k. log s k = []" and mono: "sorted (readings xs)"
  shows "int (length (filter (\<lambda>t. t0 < t \<and> t \<le> t0 + window s) (history xs s (\<lambda>_. []) k))) \<le> limit s"
proof -
  let ?t = "case readings xs of [] \<Rightarrow> 0 | t # _ \<Rightarrow> t"
  have "sorted (?t # readings xs)" using mono by (fastforce split: list.split)
  from tracks_run[OF tracks_initial[OF s] this] show ?thesis
    unfolding tracks_def limit_run window_run by blast
qed

lemma attempt_exact:
  assumes s: "0 < window s" "0 \<le> limit s" "\<And>k. log s k = []"
    and mono: "sorted (readings xs @ [now])" and x: "attempt x = Some (k, now)"
  shows "admits x (run_ops step xs s) = Some (k, now) \<longleftrightarrow>
    int (length (filter (\<lambda>t. now - window s < t) (history xs s (\<lambda>_. []) k))) < limit s"
proof -
  from mono obtain t where srt: "sorted (t # readings xs)" and "List.last (t # readings xs) \<le> now"
    by (rule sorted_start)
  from decision_exact[OF tracks_run[OF tracks_initial[OF s] srt] this(2) x] show ?thesis
    unfolding limit_run window_run .
qed

end

subsection \<open>The session pool\<close>

locale session_pool =
  fixes step :: "'op \<Rightarrow> 's \<Rightarrow> 's"
    and wants :: "'op \<Rightarrow> string option"
    and opens :: "'op \<Rightarrow> 's \<Rightarrow> string option"
    and closes :: "'op \<Rightarrow> string option"
    and total :: "'s \<Rightarrow> int"
    and perHost :: "'s \<Rightarrow> string \<Rightarrow> int"
    and capTotal :: "'s \<Rightarrow> int"
    and capHost :: "'s \<Rightarrow> int"
  assumes opens_iff: "opens x s =
      (case wants x of None \<Rightarrow> None
       | Some k \<Rightarrow> if total s < capTotal s \<and> perHost s k < capHost s then Some k else None)"
    and open_step: "opens x s = Some k \<Longrightarrow>
      total (step x s) = total s + 1 \<and> perHost (step x s) = (perHost s)(k := perHost s k + 1)"
    and close_step: "opens x s = None \<Longrightarrow> closes x = Some k \<Longrightarrow>
      total (step x s) = (if total s > 0 then total s - 1 else total s)
      \<and> perHost (step x s) = (perHost s)(k := (if perHost s k \<le> 1 then 0 else perHost s k - 1))"
    and other_step: "opens x s = None \<Longrightarrow> closes x = None \<Longrightarrow>
      total (step x s) = total s \<and> perHost (step x s) = perHost s"
    and cap_step: "capTotal (step x s) = capTotal s" "capHost (step x s) = capHost s"
begin

text \<open>The counters are exactly the abstract state, the multiset of hosts with an open session.\<close>

definition represents :: "'s \<Rightarrow> string multiset \<Rightarrow> bool" where
  "represents s A \<longleftrightarrow> total s = int (size A) \<and> (\<forall>k. perHost s k = int (count A k))
     \<and> int (size A) \<le> max 0 (capTotal s) \<and> (\<forall>k. int (count A k) \<le> max 0 (capHost s))"

abbreviation sessions :: "'op list \<Rightarrow> 's \<Rightarrow> string multiset \<Rightarrow> string multiset option" where
  "sessions \<equiv> open_sessions step opens closes"

lemma represents_open:
  "represents s A \<Longrightarrow> opens x s = Some k \<Longrightarrow> represents (step x s) (add_mset k A)"
  using opens_iff[of x s] open_step[of x s k]
  by (auto simp: represents_def cap_step split: option.splits if_splits)

lemma represents_close:
  assumes r: "represents s A" and x: "opens x s = None" "closes x = Some k" and k: "k \<in># A"
  shows "represents (step x s) (A - {#k#})"
proof -
  from k obtain B where B: "A = add_mset k B" by (metis mset_add)
  have "int (count B j) \<le> max 0 (capHost s)" for j
    using r by (auto simp: represents_def B split: if_splits dest!: spec[of _ j])
  moreover have "int (size B) \<le> max 0 (capTotal s)"
    using r by (simp add: represents_def B)
  ultimately show ?thesis
    using r close_step[OF x] by (auto simp: represents_def cap_step B)
qed

lemma represents_run:
  "represents s A \<Longrightarrow> sessions xs s A = Some B \<Longrightarrow> represents (run_ops step xs s) B"
proof (induction xs arbitrary: s A)
  case Nil
  then show ?case by simp
next
  case (Cons x xs)
  show ?case
  proof (cases "opens x s")
    case (Some k)
    with Cons.IH[OF represents_open[OF Cons.prems(1) Some]] Cons.prems(2) show ?thesis by simp
  next
    case None
    show ?thesis
    proof (cases "closes x")
      case (Some k)
      with None Cons.prems(2) have "k \<in># A" by (simp split: if_splits)
      with Cons.IH[OF represents_close[OF Cons.prems(1) None Some]] Cons.prems(2) None Some
      show ?thesis by simp
    next
      case n: None
      have "represents (step x s) A"
        using Cons.prems(1) other_step[OF None n] by (simp add: represents_def cap_step)
      with Cons.IH Cons.prems(2) None n show ?thesis by simp
    qed
  qed
qed

lemma pool_counts:
  assumes "total s = 0" "\<And>k. perHost s k = 0" "sessions xs s {#} = Some A"
  shows "total (run_ops step xs s) = int (size A) \<and> perHost (run_ops step xs s) k = int (count A k)
    \<and> int (size A) \<le> max 0 (capTotal s) \<and> int (count A k) \<le> max 0 (capHost s)"
proof -
  have "represents s {#}" using assms(1,2) by (simp add: represents_def)
  from represents_run[OF this assms(3)]
  have r: "represents (run_ops step xs s) A" .
  have cap: "capTotal (run_ops step xs s) = capTotal s" "capHost (run_ops step xs s) = capHost s"
    by (induction xs arbitrary: s) (simp_all add: cap_step)
  show ?thesis using r unfolding represents_def cap by blast
qed

end

end
