(* ===== verification/Smtp_Throttle.thy ===== *)
theory Smtp_Throttle
  imports Submission_Types Rate_Limits
begin

text \<open>
  The limits of the two SMTP servers: \<open>smtpThrottle\<close> of \<open>internal/smtpsubmission/throttle.go\<close>
  (concurrent sessions, failed log-ins per user name, accepted messages per identity) and
  \<open>sessionLimiter\<close> of \<open>internal/smtpforwarding/server.go\<close>. Every method locks one mutex for its
  whole body, so it is one step, and the clock reading inside the lock is an argument. The closure
  \<open>acquireSession\<close> returns is the host key it releases. Both implementations interpret the
  contracts of \<open>Rate_Limits\<close>. Event counts and session counts are far below the range of a Go
  \<open>int\<close>, so they are \<open>int\<close> here.
\<close>

subsection \<open>The submission throttle\<close>

record smtpThrottle =
  activeSessions :: int
  activeSessionsByHost :: "string \<rightharpoonup> int"
  authFailuresByKey :: "string \<rightharpoonup> time list"
  acceptedMessagesByKey :: "string \<rightharpoonup> time list"
  maxConcurrentSessions :: int
  maxSessionsPerRemoteHost :: int
  authFailureLimit :: int
  authFailureWindow :: duration
  messageLimit :: int
  messageWindow :: duration

record smtpAuthReservation =
  ar_key :: string

record smtpMessageReservation =
  mr_key :: string
  mr_reservedAt :: time

definition newSMTPThrottle :: "'w submission_config \<Rightarrow> smtpThrottle" where
  "newSMTPThrottle cfg =
     \<lparr>activeSessions = 0, activeSessionsByHost = Map.empty, authFailuresByKey = Map.empty,
      acceptedMessagesByKey = Map.empty,
      maxConcurrentSessions = sc_MaxConcurrentSessions cfg,
      maxSessionsPerRemoteHost = sc_MaxSessionsPerRemoteHost cfg,
      authFailureLimit = sc_AuthFailureLimit cfg, authFailureWindow = sc_AuthFailureWindow cfg,
      messageLimit = sc_MessageLimit cfg, messageWindow = sc_MessageWindow cfg\<rparr>"

definition normalizeThrottleKeyPart :: "string \<Rightarrow> string \<Rightarrow> string" where
  "normalizeThrottleKeyPart v fallback =
     (let normalizedValue = TrimSpace v in if normalizedValue = '''' then fallback else normalizedValue)"

definition authThrottleKey :: "string \<Rightarrow> string \<Rightarrow> string" where
  "authThrottleKey remoteHost username =
     (let normalizedUsername = ToLower (TrimSpace username) in
      if normalizedUsername \<noteq> '''' then ''username:'' @ normalizedUsername
      else ''remote:'' @ normalizeThrottleKeyPart remoteHost ''unknown'')"

definition messageThrottleKey :: "string \<Rightarrow> string" where
  "messageThrottleKey identityID = normalizeThrottleKeyPart identityID ''unknown''"

definition acquireSession :: "string \<Rightarrow> smtpThrottle \<Rightarrow> (string \<times> smtpThrottle) result" where
  "acquireSession remoteHost th =
     (let host = normalizeThrottleKeyPart remoteHost ''unknown'' in
      if activeSessions th \<ge> maxConcurrentSessions th
      then Inl (ErrorsNew ''smtp_submission.concurrent_sessions_exceeded'')
      else if go_get (activeSessionsByHost th) 0 host \<ge> maxSessionsPerRemoteHost th
      then Inl (ErrorsNew ''smtp_submission.remote_sessions_exceeded'')
      else Inr (host, th\<lparr>activeSessions := activeSessions th + 1,
                activeSessionsByHost := (activeSessionsByHost th)
                  (host \<mapsto> go_get (activeSessionsByHost th) 0 host + 1)\<rparr>))"

definition releaseSession :: "string \<Rightarrow> smtpThrottle \<Rightarrow> smtpThrottle" where
  "releaseSession remoteHost th =
     (let th1 = (if activeSessions th > 0 then th\<lparr>activeSessions := activeSessions th - 1\<rparr> else th);
          n = go_get (activeSessionsByHost th1) 0 remoteHost in
      if n \<le> 1
      then th1\<lparr>activeSessionsByHost := (activeSessionsByHost th1)(remoteHost := None)\<rparr>
      else th1\<lparr>activeSessionsByHost := (activeSessionsByHost th1)(remoteHost \<mapsto> n - 1)\<rparr>)"

definition reserveAuthAttempt ::
  "time \<Rightarrow> string \<Rightarrow> string \<Rightarrow> smtpThrottle \<Rightarrow> smtpAuthReservation option \<times> smtpThrottle" where
  "reserveAuthAttempt now remoteHost username th =
     (let key = authThrottleKey remoteHost username;
          failures = pruneWindow (go_get (authFailuresByKey th) [] key) (now - authFailureWindow th) in
      if int (length failures) \<ge> authFailureLimit th
      then (None, th\<lparr>authFailuresByKey := (authFailuresByKey th)(key \<mapsto> failures)\<rparr>)
      else (Some \<lparr>ar_key = key\<rparr>,
            th\<lparr>authFailuresByKey := (authFailuresByKey th)(key \<mapsto> failures @ [now])\<rparr>))"

definition clearAuthFailures :: "string \<Rightarrow> smtpThrottle \<Rightarrow> smtpThrottle" where
  "clearAuthFailures key th = th\<lparr>authFailuresByKey := (authFailuresByKey th)(key := None)\<rparr>"

definition auth_accept :: "smtpAuthReservation \<Rightarrow> smtpThrottle \<Rightarrow> smtpThrottle" where
  "auth_accept reservation th = clearAuthFailures (ar_key reservation) th"

definition reserveAcceptedMessage ::
  "time \<Rightarrow> string \<Rightarrow> smtpThrottle \<Rightarrow> smtpMessageReservation option \<times> smtpThrottle" where
  "reserveAcceptedMessage now identityID th =
     (let key = messageThrottleKey identityID;
          messages = pruneWindow (go_get (acceptedMessagesByKey th) [] key) (now - messageWindow th) in
      if int (length messages) \<ge> messageLimit th
      then (None, th\<lparr>acceptedMessagesByKey := (acceptedMessagesByKey th)(key \<mapsto> messages)\<rparr>)
      else (Some \<lparr>mr_key = key, mr_reservedAt = now\<rparr>,
            th\<lparr>acceptedMessagesByKey := (acceptedMessagesByKey th)(key \<mapsto> messages @ [now])\<rparr>))"

definition cancelMessageReservation :: "string \<Rightarrow> time \<Rightarrow> smtpThrottle \<Rightarrow> smtpThrottle" where
  "cancelMessageReservation key reservedAt th =
     (let messages = remove1 reservedAt (go_get (acceptedMessagesByKey th) [] key) in
      if messages = []
      then th\<lparr>acceptedMessagesByKey := (acceptedMessagesByKey th)(key := None)\<rparr>
      else th\<lparr>acceptedMessagesByKey := (acceptedMessagesByKey th)(key \<mapsto> messages)\<rparr>)"

definition message_cancel :: "smtpMessageReservation \<Rightarrow> smtpThrottle \<Rightarrow> smtpThrottle" where
  "message_cancel reservation th =
     cancelMessageReservation (mr_key reservation) (mr_reservedAt reservation) th"

definition activeSessionCount :: "smtpThrottle \<Rightarrow> int" where
  "activeSessionCount th = activeSessions th"

subsection \<open>The forwarding server's session limiter\<close>

record sessionLimiter =
  fl_activeSessions :: int
  fl_activeSessionsByHost :: "string \<rightharpoonup> int"
  fl_maxConcurrentSessions :: int
  fl_maxSessionsPerRemoteHost :: int

definition newSessionLimiter :: "int \<Rightarrow> int \<Rightarrow> sessionLimiter" where
  "newSessionLimiter maxConcurrent maxPerHost =
     \<lparr>fl_activeSessions = 0, fl_activeSessionsByHost = Map.empty,
      fl_maxConcurrentSessions = maxConcurrent, fl_maxSessionsPerRemoteHost = maxPerHost\<rparr>"

definition limiter_acquire :: "string \<Rightarrow> sessionLimiter \<Rightarrow> (string \<times> sessionLimiter) result" where
  "limiter_acquire remoteHost lm =
     (let trimmedHost = TrimSpace remoteHost;
          host = (if trimmedHost = '''' then ''unknown'' else trimmedHost) in
      if fl_activeSessions lm \<ge> fl_maxConcurrentSessions lm
      then Inl (ErrorsNew ''smtp_forwarding.concurrent_sessions_exceeded'')
      else if go_get (fl_activeSessionsByHost lm) 0 host \<ge> fl_maxSessionsPerRemoteHost lm
      then Inl (ErrorsNew ''smtp_forwarding.remote_sessions_exceeded'')
      else Inr (host, lm\<lparr>fl_activeSessions := fl_activeSessions lm + 1,
                fl_activeSessionsByHost := (fl_activeSessionsByHost lm)
                  (host \<mapsto> go_get (fl_activeSessionsByHost lm) 0 host + 1)\<rparr>))"

definition limiter_release :: "string \<Rightarrow> sessionLimiter \<Rightarrow> sessionLimiter" where
  "limiter_release remoteHost lm =
     (let lm1 = (if fl_activeSessions lm > 0
                 then lm\<lparr>fl_activeSessions := fl_activeSessions lm - 1\<rparr> else lm);
          n = go_get (fl_activeSessionsByHost lm1) 0 remoteHost in
      if n \<le> 1
      then lm1\<lparr>fl_activeSessionsByHost := (fl_activeSessionsByHost lm1)(remoteHost := None)\<rparr>
      else lm1\<lparr>fl_activeSessionsByHost := (fl_activeSessionsByHost lm1)(remoteHost \<mapsto> n - 1)\<rparr>)"

subsection \<open>Executions\<close>

datatype throttle_op =
    AcquireSession string
  | ReleaseSession string
  | ReserveAuth time string string
  | AcceptAuth smtpAuthReservation
  | ReserveMessage time string
  | CancelMessage smtpMessageReservation

fun throttle_step :: "throttle_op \<Rightarrow> smtpThrottle \<Rightarrow> smtpThrottle" where
  "throttle_step (AcquireSession h) th = (case acquireSession h th of Inr (k, th') \<Rightarrow> th' | Inl e \<Rightarrow> th)"
| "throttle_step (ReleaseSession k) th = releaseSession k th"
| "throttle_step (ReserveAuth now h u) th = snd (reserveAuthAttempt now h u th)"
| "throttle_step (AcceptAuth r) th = auth_accept r th"
| "throttle_step (ReserveMessage now i) th = snd (reserveAcceptedMessage now i th)"
| "throttle_step (CancelMessage r) th = message_cancel r th"

fun auth_attempt :: "throttle_op \<Rightarrow> (string \<times> time) option" where
  "auth_attempt (ReserveAuth now h u) = Some (authThrottleKey h u, now)"
| "auth_attempt _ = None"

fun auth_admits :: "throttle_op \<Rightarrow> smtpThrottle \<Rightarrow> (string \<times> time) option" where
  "auth_admits (ReserveAuth now h u) th =
     map_option (\<lambda>r. (ar_key r, now)) (fst (reserveAuthAttempt now h u th))"
| "auth_admits _ th = None"

fun auth_withdraw :: "throttle_op \<Rightarrow> string \<Rightarrow> time list \<Rightarrow> time list" where
  "auth_withdraw (AcceptAuth r) k ts = (if k = ar_key r then [] else ts)"
| "auth_withdraw _ k ts = ts"

fun message_attempt :: "throttle_op \<Rightarrow> (string \<times> time) option" where
  "message_attempt (ReserveMessage now i) = Some (messageThrottleKey i, now)"
| "message_attempt _ = None"

fun message_admits :: "throttle_op \<Rightarrow> smtpThrottle \<Rightarrow> (string \<times> time) option" where
  "message_admits (ReserveMessage now i) th =
     map_option (\<lambda>r. (mr_key r, mr_reservedAt r)) (fst (reserveAcceptedMessage now i th))"
| "message_admits _ th = None"

fun message_withdraw :: "throttle_op \<Rightarrow> string \<Rightarrow> time list \<Rightarrow> time list" where
  "message_withdraw (CancelMessage r) k ts = (if k = mr_key r then remove1 (mr_reservedAt r) ts else ts)"
| "message_withdraw _ k ts = ts"

fun session_wanted :: "throttle_op \<Rightarrow> string option" where
  "session_wanted (AcquireSession h) = Some (normalizeThrottleKeyPart h ''unknown'')"
| "session_wanted _ = None"

fun session_opened :: "throttle_op \<Rightarrow> smtpThrottle \<Rightarrow> string option" where
  "session_opened (AcquireSession h) th = (case acquireSession h th of Inr (k, _) \<Rightarrow> Some k | Inl e \<Rightarrow> None)"
| "session_opened _ th = None"

fun session_closed :: "throttle_op \<Rightarrow> string option" where
  "session_closed (ReleaseSession k) = Some k"
| "session_closed _ = None"

definition accepted_messages :: "throttle_op list \<Rightarrow> smtpThrottle \<Rightarrow> string \<Rightarrow> time list" where
  "accepted_messages ops th = admission_history throttle_step message_admits message_withdraw ops th (\<lambda>_. [])"

definition auth_failures :: "throttle_op list \<Rightarrow> smtpThrottle \<Rightarrow> string \<Rightarrow> time list" where
  "auth_failures ops th = admission_history throttle_step auth_admits auth_withdraw ops th (\<lambda>_. [])"

definition message_times :: "throttle_op list \<Rightarrow> time list" where
  "message_times ops = map snd (List.map_filter message_attempt ops)"

definition auth_times :: "throttle_op list \<Rightarrow> time list" where
  "auth_times ops = map snd (List.map_filter auth_attempt ops)"

datatype limiter_op = LimiterAcquire string | LimiterRelease string

fun limiter_step :: "limiter_op \<Rightarrow> sessionLimiter \<Rightarrow> sessionLimiter" where
  "limiter_step (LimiterAcquire h) lm = (case limiter_acquire h lm of Inr (k, lm') \<Rightarrow> lm' | Inl e \<Rightarrow> lm)"
| "limiter_step (LimiterRelease k) lm = limiter_release k lm"

fun limiter_wanted :: "limiter_op \<Rightarrow> string option" where
  "limiter_wanted (LimiterAcquire h) = Some (if TrimSpace h = '''' then ''unknown'' else TrimSpace h)"
| "limiter_wanted _ = None"

fun limiter_opened :: "limiter_op \<Rightarrow> sessionLimiter \<Rightarrow> string option" where
  "limiter_opened (LimiterAcquire h) lm = (case limiter_acquire h lm of Inr (k, _) \<Rightarrow> Some k | Inl e \<Rightarrow> None)"
| "limiter_opened _ lm = None"

fun limiter_closed :: "limiter_op \<Rightarrow> string option" where
  "limiter_closed (LimiterRelease k) = Some k"
| "limiter_closed _ = None"

subsection \<open>A configuration and an execution for the examples\<close>

definition demo_config :: "unit submission_config" where
  "demo_config =
     \<lparr>sc_Hostname = ''mail.example.com'', sc_ListenAddr = '':587'', sc_TLSListenAddr = '''', sc_TLSConfig = True,
      sc_MaxMessageBytes = 1000, sc_MaxRecipients = 2, sc_CommandTimeout = 60 * second,
      sc_MaxConcurrentSessions = 2, sc_MaxSessionsPerRemoteHost = 1,
      sc_AuthFailureLimit = 1, sc_AuthFailureWindow = 10, sc_MessageLimit = 2, sc_MessageWindow = 10,
      sc_AllowInsecureAuth = False, sc_Authenticator = None, sc_Relay = None, sc_Logger = True\<rparr>"

definition demo_ops :: "throttle_op list" where
  "demo_ops =
     [AcquireSession ''h'', ReserveAuth 1 ''h'' ''bob'', AcquireSession ''h'', ReserveMessage 1 ''id'',
      ReserveMessage 2 ''id'', ReserveMessage 3 ''id'', CancelMessage \<lparr>mr_key = ''id'', mr_reservedAt = 2\<rparr>,
      ReserveMessage 4 ''id'', AcquireSession ''g'', ReleaseSession ''h'']"

subsection \<open>What each operation leaves alone\<close>

lemma throttle_frame [frame_simps]:
  "acceptedMessagesByKey (releaseSession k th) = acceptedMessagesByKey th"
  "authFailuresByKey (releaseSession k th) = authFailuresByKey th"
  "acquireSession h th = Inr (k, th') \<Longrightarrow> acceptedMessagesByKey th' = acceptedMessagesByKey th"
  "acquireSession h th = Inr (k, th') \<Longrightarrow> authFailuresByKey th' = authFailuresByKey th"
  "acceptedMessagesByKey (snd (reserveAuthAttempt now h u th)) = acceptedMessagesByKey th"
  "authFailuresByKey (snd (reserveAcceptedMessage now i th)) = authFailuresByKey th"
  "acceptedMessagesByKey (auth_accept ar th) = acceptedMessagesByKey th"
  "authFailuresByKey (message_cancel mr th) = authFailuresByKey th"
  by (auto simp: releaseSession_def acquireSession_def reserveAuthAttempt_def reserveAcceptedMessage_def
      auth_accept_def clearAuthFailures_def message_cancel_def cancelMessageReservation_def Let_def
      split: if_splits)

lemma throttle_limits_step [frame_simps]:
  "messageLimit (throttle_step x th) = messageLimit th"
  "messageWindow (throttle_step x th) = messageWindow th"
  "authFailureLimit (throttle_step x th) = authFailureLimit th"
  "authFailureWindow (throttle_step x th) = authFailureWindow th"
  "maxConcurrentSessions (throttle_step x th) = maxConcurrentSessions th"
  "maxSessionsPerRemoteHost (throttle_step x th) = maxSessionsPerRemoteHost th"
  by (cases x; auto simp: releaseSession_def acquireSession_def reserveAuthAttempt_def
      reserveAcceptedMessage_def auth_accept_def clearAuthFailures_def message_cancel_def
      cancelMessageReservation_def Let_def split: sum.splits if_splits)+

lemma subseq_remove1: "subseq (remove1 x xs) xs"
  by (induction xs) auto

lemma filter_remove1_commute: "filter P (remove1 x xs) = remove1 x (filter P xs)"
  by (induction xs) (auto simp: remove1_idem)

subsection \<open>The throttle meets the contracts\<close>

lemma message_log_step:
  "go_get (acceptedMessagesByKey (throttle_step x th)) [] k =
     (case message_attempt x of
        Some (k', now) \<Rightarrow>
          if k = k' then pruneWindow (go_get (acceptedMessagesByKey th) [] k) (now - messageWindow th)
                         @ (if message_admits x th = None then [] else [now])
          else go_get (acceptedMessagesByKey th) [] k
      | None \<Rightarrow> message_withdraw x k (go_get (acceptedMessagesByKey th) [] k))"
proof (cases x)
  case (AcquireSession h)
  then show ?thesis by (auto simp: frame_simps split: sum.split)
next
  case (ReserveMessage now i)
  then show ?thesis by (auto simp: reserveAcceptedMessage_def Let_def)
next
  case (CancelMessage r)
  then show ?thesis by (auto simp: message_cancel_def cancelMessageReservation_def Let_def)
qed (simp_all add: frame_simps)

lemma auth_log_step:
  "go_get (authFailuresByKey (throttle_step x th)) [] k =
     (case auth_attempt x of
        Some (k', now) \<Rightarrow>
          if k = k' then pruneWindow (go_get (authFailuresByKey th) [] k) (now - authFailureWindow th)
                         @ (if auth_admits x th = None then [] else [now])
          else go_get (authFailuresByKey th) [] k
      | None \<Rightarrow> auth_withdraw x k (go_get (authFailuresByKey th) [] k))"
proof (cases x)
  case (AcquireSession h)
  then show ?thesis by (auto simp: frame_simps split: sum.split)
next
  case (ReserveAuth now h u)
  then show ?thesis by (auto simp: reserveAuthAttempt_def Let_def)
next
  case (AcceptAuth r)
  then show ?thesis by (auto simp: auth_accept_def clearAuthFailures_def)
qed (simp_all add: frame_simps)

interpretation ml: sliding_log throttle_step "\<lambda>th. go_get (acceptedMessagesByKey th) []"
  message_attempt message_admits message_withdraw messageLimit messageWindow
proof
  fix x s k k' now P ts
  show "message_attempt x = Some (k, now) \<Longrightarrow> message_admits x s =
      (if int (length (pruneWindow (go_get (acceptedMessagesByKey s) [] k) (now - messageWindow s))) < messageLimit s
       then Some (k, now) else None)"
    by (cases x) (auto simp: reserveAcceptedMessage_def Let_def)
  show "message_attempt x = None \<Longrightarrow> message_admits x s = None" by (cases x) auto
  show "message_attempt x = Some (k, now) \<Longrightarrow> message_withdraw x k' ts = ts" by (cases x) auto
  show "filter P (message_withdraw x k' ts) = message_withdraw x k' (filter P ts)"
    by (cases x) (auto simp: filter_remove1_commute)
  show "subseq (message_withdraw x k' ts) ts" by (cases x) (auto simp: subseq_remove1)
qed (auto simp: message_log_step frame_simps)

interpretation al: sliding_log throttle_step "\<lambda>th. go_get (authFailuresByKey th) []"
  auth_attempt auth_admits auth_withdraw authFailureLimit authFailureWindow
proof
  fix x s k k' now P ts
  show "auth_attempt x = Some (k, now) \<Longrightarrow> auth_admits x s =
      (if int (length (pruneWindow (go_get (authFailuresByKey s) [] k) (now - authFailureWindow s))) < authFailureLimit s
       then Some (k, now) else None)"
    by (cases x) (auto simp: reserveAuthAttempt_def Let_def)
  show "auth_attempt x = None \<Longrightarrow> auth_admits x s = None" by (cases x) auto
  show "auth_attempt x = Some (k, now) \<Longrightarrow> auth_withdraw x k' ts = ts" by (cases x) auto
  show "filter P (auth_withdraw x k' ts) = auth_withdraw x k' (filter P ts)" by (cases x) auto
  show "subseq (auth_withdraw x k' ts) ts" by (cases x) auto
qed (auto simp: auth_log_step frame_simps)

interpretation sp: session_pool throttle_step session_wanted session_opened session_closed
  activeSessions "\<lambda>th. go_get (activeSessionsByHost th) 0" maxConcurrentSessions maxSessionsPerRemoteHost
proof
  fix x s k
  show "session_opened x s = (case session_wanted x of None \<Rightarrow> None
      | Some k \<Rightarrow> if activeSessions s < maxConcurrentSessions s
          \<and> go_get (activeSessionsByHost s) 0 k < maxSessionsPerRemoteHost s then Some k else None)"
    by (cases x) (auto simp: acquireSession_def Let_def)
  show "session_opened x s = Some k \<Longrightarrow> activeSessions (throttle_step x s) = activeSessions s + 1 \<and>
      go_get (activeSessionsByHost (throttle_step x s)) 0 =
        (go_get (activeSessionsByHost s) 0)(k := go_get (activeSessionsByHost s) 0 k + 1)"
    by (cases x) (auto simp: acquireSession_def Let_def fun_eq_iff split: if_splits)
  show "session_opened x s = None \<Longrightarrow> session_closed x = Some k \<Longrightarrow>
      activeSessions (throttle_step x s) = (if activeSessions s > 0 then activeSessions s - 1 else activeSessions s) \<and>
      go_get (activeSessionsByHost (throttle_step x s)) 0 = (go_get (activeSessionsByHost s) 0)
        (k := if go_get (activeSessionsByHost s) 0 k \<le> 1 then 0 else go_get (activeSessionsByHost s) 0 k - 1)"
    by (cases x) (auto simp: releaseSession_def Let_def fun_eq_iff)
  show "session_opened x s = None \<Longrightarrow> session_closed x = None \<Longrightarrow>
      activeSessions (throttle_step x s) = activeSessions s \<and>
      go_get (activeSessionsByHost (throttle_step x s)) 0 = go_get (activeSessionsByHost s) 0"
    by (cases x) (auto simp: acquireSession_def reserveAuthAttempt_def reserveAcceptedMessage_def
        auth_accept_def clearAuthFailures_def message_cancel_def cancelMessageReservation_def Let_def
        split: if_splits)
qed (simp_all add: frame_simps)

interpretation lp: session_pool limiter_step limiter_wanted limiter_opened limiter_closed
  fl_activeSessions "\<lambda>lm. go_get (fl_activeSessionsByHost lm) 0" fl_maxConcurrentSessions fl_maxSessionsPerRemoteHost
proof
  fix x s k
  show "limiter_opened x s = (case limiter_wanted x of None \<Rightarrow> None
      | Some k \<Rightarrow> if fl_activeSessions s < fl_maxConcurrentSessions s
          \<and> go_get (fl_activeSessionsByHost s) 0 k < fl_maxSessionsPerRemoteHost s then Some k else None)"
    by (cases x) (auto simp: limiter_acquire_def Let_def)
  show "limiter_opened x s = Some k \<Longrightarrow> fl_activeSessions (limiter_step x s) = fl_activeSessions s + 1 \<and>
      go_get (fl_activeSessionsByHost (limiter_step x s)) 0 =
        (go_get (fl_activeSessionsByHost s) 0)(k := go_get (fl_activeSessionsByHost s) 0 k + 1)"
    by (cases x) (auto simp: limiter_acquire_def Let_def fun_eq_iff split: if_splits)
  show "limiter_opened x s = None \<Longrightarrow> limiter_closed x = Some k \<Longrightarrow>
      fl_activeSessions (limiter_step x s) = (if fl_activeSessions s > 0 then fl_activeSessions s - 1 else fl_activeSessions s) \<and>
      go_get (fl_activeSessionsByHost (limiter_step x s)) 0 = (go_get (fl_activeSessionsByHost s) 0)
        (k := if go_get (fl_activeSessionsByHost s) 0 k \<le> 1 then 0 else go_get (fl_activeSessionsByHost s) 0 k - 1)"
    by (cases x) (auto simp: limiter_release_def Let_def fun_eq_iff)
  show "limiter_opened x s = None \<Longrightarrow> limiter_closed x = None \<Longrightarrow>
      fl_activeSessions (limiter_step x s) = fl_activeSessions s \<and>
      go_get (fl_activeSessionsByHost (limiter_step x s)) 0 = go_get (fl_activeSessionsByHost s) 0"
    by (cases x) (auto simp: limiter_acquire_def Let_def split: if_splits)
  show "fl_maxConcurrentSessions (limiter_step x s) = fl_maxConcurrentSessions s"
    "fl_maxSessionsPerRemoteHost (limiter_step x s) = fl_maxSessionsPerRemoteHost s"
    by (cases x; auto simp: limiter_acquire_def limiter_release_def Let_def split: if_splits)+
qed

subsection \<open>Properties\<close>

lemma newSMTPThrottle_fields [simp]:
  "activeSessions (newSMTPThrottle cfg) = 0"
  "activeSessionsByHost (newSMTPThrottle cfg) = Map.empty"
  "authFailuresByKey (newSMTPThrottle cfg) = Map.empty"
  "acceptedMessagesByKey (newSMTPThrottle cfg) = Map.empty"
  "maxConcurrentSessions (newSMTPThrottle cfg) = sc_MaxConcurrentSessions cfg"
  "maxSessionsPerRemoteHost (newSMTPThrottle cfg) = sc_MaxSessionsPerRemoteHost cfg"
  "authFailureLimit (newSMTPThrottle cfg) = sc_AuthFailureLimit cfg"
  "authFailureWindow (newSMTPThrottle cfg) = sc_AuthFailureWindow cfg"
  "messageLimit (newSMTPThrottle cfg) = sc_MessageLimit cfg"
  "messageWindow (newSMTPThrottle cfg) = sc_MessageWindow cfg"
  by (simp_all add: newSMTPThrottle_def)

text \<open>C6. In every interleaving of throttle operations whose message reservations read a
  non-decreasing clock, no identity has more than \<open>MessageLimit\<close> reservations that were admitted and
  not cancelled within any half-open interval as long as \<open>MessageWindow\<close>.\<close>

theorem message_rate_bound:
  assumes "0 < sc_MessageWindow cfg" "0 \<le> sc_MessageLimit cfg" "sorted (message_times ops)"
  shows "int (length (filter (\<lambda>t. t0 < t \<and> t \<le> t0 + sc_MessageWindow cfg)
      (accepted_messages ops (newSMTPThrottle cfg) k))) \<le> sc_MessageLimit cfg"
  using assms ml.rate_bound[of "newSMTPThrottle cfg" ops t0 k]
  by (simp add: accepted_messages_def message_times_def)

theorem message_rate_bound_witness:
  "accepted_messages demo_ops (newSMTPThrottle demo_config) ''id'' = [1, 4]
   \<and> int (length (filter (\<lambda>t. 0 < t \<and> t \<le> 0 + sc_MessageWindow demo_config)
      (accepted_messages demo_ops (newSMTPThrottle demo_config) ''id''))) \<le> sc_MessageLimit demo_config"
proof
  show "accepted_messages demo_ops (newSMTPThrottle demo_config) ''id'' = [1, 4]"
    by code_simp
  have "0 < sc_MessageWindow demo_config" "0 \<le> sc_MessageLimit demo_config" "sorted (message_times demo_ops)"
    by code_simp+
  from message_rate_bound[OF this]
  show "int (length (filter (\<lambda>t. 0 < t \<and> t \<le> 0 + sc_MessageWindow demo_config)
      (accepted_messages demo_ops (newSMTPThrottle demo_config) ''id''))) \<le> sc_MessageLimit demo_config" .
qed

text \<open>C37. After any such interleaving \<open>reserveAcceptedMessage\<close>, which only keeps a pruned log,
  decides as the full history would: it admits the message exactly when fewer than
  \<open>MessageLimit\<close> of all the identity's admitted and not cancelled reservations are younger than
  \<open>MessageWindow\<close>.\<close>

theorem message_decision_exact:
  assumes "0 < sc_MessageWindow cfg" "0 \<le> sc_MessageLimit cfg" "sorted (message_times ops @ [now])"
  shows "fst (reserveAcceptedMessage now i (run_ops throttle_step ops (newSMTPThrottle cfg))) \<noteq> None \<longleftrightarrow>
    int (length (filter (\<lambda>t. now - sc_MessageWindow cfg < t)
      (accepted_messages ops (newSMTPThrottle cfg) (messageThrottleKey i)))) < sc_MessageLimit cfg"
proof -
  let ?th = "run_ops throttle_step ops (newSMTPThrottle cfg)"
  have "fst (reserveAcceptedMessage now i ?th) \<noteq> None \<longleftrightarrow>
      message_admits (ReserveMessage now i) ?th = Some (messageThrottleKey i, now)"
    by (auto simp: reserveAcceptedMessage_def Let_def)
  with assms ml.attempt_exact[of "newSMTPThrottle cfg" ops now "ReserveMessage now i" "messageThrottleKey i"]
  show ?thesis by (simp add: accepted_messages_def message_times_def)
qed

theorem message_decision_exact_witness:
  "fst (reserveAcceptedMessage 10 ''id'' (run_ops throttle_step demo_ops (newSMTPThrottle demo_config))) = None
   \<and> fst (reserveAcceptedMessage 11 ''id'' (run_ops throttle_step demo_ops (newSMTPThrottle demo_config))) \<noteq> None"
proof -
  have cfg: "0 < sc_MessageWindow demo_config" "0 \<le> sc_MessageLimit demo_config" by code_simp+
  have t: "sorted (message_times demo_ops @ [10])" "sorted (message_times demo_ops @ [11])" by code_simp+
  have "\<not> int (length (filter (\<lambda>t. 10 - sc_MessageWindow demo_config < t)
      (accepted_messages demo_ops (newSMTPThrottle demo_config) (messageThrottleKey ''id''))))
      < sc_MessageLimit demo_config"
    "int (length (filter (\<lambda>t. 11 - sc_MessageWindow demo_config < t)
      (accepted_messages demo_ops (newSMTPThrottle demo_config) (messageThrottleKey ''id''))))
      < sc_MessageLimit demo_config"
    by code_simp+
  with message_decision_exact[OF cfg t(1), of "''id''"] message_decision_exact[OF cfg t(2), of "''id''"]
  show ?thesis by blast
qed

text \<open>C19. Password guessing is bounded per user name, whatever the remote hosts: after any
  interleaving with a non-decreasing clock, \<open>reserveAuthAttempt\<close> lets an attempt through exactly when
  fewer than \<open>AuthFailureLimit\<close> attempts under the lower-cased user name since the last accepted
  log-in are younger than \<open>AuthFailureWindow\<close>, and no window of that length ever holds more than
  the limit.\<close>

theorem auth_attempts_bounded:
  assumes "0 < sc_AuthFailureWindow cfg" "0 \<le> sc_AuthFailureLimit cfg" "sorted (auth_times ops @ [now])"
    and "TrimSpace u \<noteq> ''''"
  shows "(fst (reserveAuthAttempt now h u (run_ops throttle_step ops (newSMTPThrottle cfg))) \<noteq> None \<longleftrightarrow>
      int (length (filter (\<lambda>t. now - sc_AuthFailureWindow cfg < t)
        (auth_failures ops (newSMTPThrottle cfg) (''username:'' @ ToLower (TrimSpace u))))) < sc_AuthFailureLimit cfg)
    \<and> int (length (filter (\<lambda>t. t0 < t \<and> t \<le> t0 + sc_AuthFailureWindow cfg)
        (auth_failures ops (newSMTPThrottle cfg) k))) \<le> sc_AuthFailureLimit cfg"
proof
  let ?th = "run_ops throttle_step ops (newSMTPThrottle cfg)"
  have key: "authThrottleKey h u = ''username:'' @ ToLower (TrimSpace u)"
    using assms(4) by (simp add: authThrottleKey_def)
  have "fst (reserveAuthAttempt now h u ?th) \<noteq> None \<longleftrightarrow>
      auth_admits (ReserveAuth now h u) ?th = Some (authThrottleKey h u, now)"
    by (auto simp: reserveAuthAttempt_def Let_def)
  with assms al.attempt_exact[of "newSMTPThrottle cfg" ops now "ReserveAuth now h u" "authThrottleKey h u"]
  show "fst (reserveAuthAttempt now h u ?th) \<noteq> None \<longleftrightarrow>
      int (length (filter (\<lambda>t. now - sc_AuthFailureWindow cfg < t)
        (auth_failures ops (newSMTPThrottle cfg) (''username:'' @ ToLower (TrimSpace u))))) < sc_AuthFailureLimit cfg"
    by (simp add: auth_failures_def auth_times_def key)
  show "int (length (filter (\<lambda>t. t0 < t \<and> t \<le> t0 + sc_AuthFailureWindow cfg)
        (auth_failures ops (newSMTPThrottle cfg) k))) \<le> sc_AuthFailureLimit cfg"
    using assms al.rate_bound[of "newSMTPThrottle cfg" ops t0 k]
    by (simp add: auth_failures_def auth_times_def sorted_append)
qed

theorem auth_attempts_bounded_witness:
  "fst (reserveAuthAttempt 5 ''other'' '' BOB'' (run_ops throttle_step demo_ops (newSMTPThrottle demo_config))) = None
   \<and> fst (reserveAuthAttempt 11 ''other'' '' BOB'' (run_ops throttle_step demo_ops (newSMTPThrottle demo_config))) \<noteq> None"
proof -
  have cfg: "0 < sc_AuthFailureWindow demo_config" "0 \<le> sc_AuthFailureLimit demo_config" by code_simp+
  have t: "sorted (auth_times demo_ops @ [5])" "sorted (auth_times demo_ops @ [11])"
    and u: "TrimSpace '' BOB'' \<noteq> ''''" by code_simp+
  have "\<not> int (length (filter (\<lambda>t. 5 - sc_AuthFailureWindow demo_config < t)
      (auth_failures demo_ops (newSMTPThrottle demo_config) (''username:'' @ ToLower (TrimSpace '' BOB'')))))
      < sc_AuthFailureLimit demo_config"
    "int (length (filter (\<lambda>t. 11 - sc_AuthFailureWindow demo_config < t)
      (auth_failures demo_ops (newSMTPThrottle demo_config) (''username:'' @ ToLower (TrimSpace '' BOB'')))))
      < sc_AuthFailureLimit demo_config"
    by code_simp+
  with auth_attempts_bounded[OF cfg t(1) u, of "''other''"] auth_attempts_bounded[OF cfg t(2) u, of "''other''"]
  show ?thesis by blast
qed

text \<open>C18. The session counters of the submission throttle are exact: after any interleaving in which
  only open sessions are released, \<open>activeSessions\<close> is the number of open sessions and each entry of
  \<open>activeSessionsByHost\<close> the number of open sessions of that host, neither above its
  configured maximum, so no slot leaks and no slot is given out twice.\<close>

theorem throttle_sessions_exact:
  assumes "open_sessions throttle_step session_opened session_closed ops (newSMTPThrottle cfg) {#} = Some A"
  shows "activeSessionCount (run_ops throttle_step ops (newSMTPThrottle cfg)) = int (size A)
    \<and> go_get (activeSessionsByHost (run_ops throttle_step ops (newSMTPThrottle cfg))) 0 h = int (count A h)
    \<and> int (size A) \<le> max 0 (sc_MaxConcurrentSessions cfg)
    \<and> int (count A h) \<le> max 0 (sc_MaxSessionsPerRemoteHost cfg)"
  using sp.pool_counts[of "newSMTPThrottle cfg" ops A h] assms by (simp add: activeSessionCount_def)

theorem throttle_sessions_exact_witness:
  "activeSessionCount (run_ops throttle_step demo_ops (newSMTPThrottle demo_config)) = int (size {#''g''#})
    \<and> go_get (activeSessionsByHost (run_ops throttle_step demo_ops (newSMTPThrottle demo_config))) 0 ''g'' =
        int (count {#''g''#} ''g'')"
proof -
  have "open_sessions throttle_step session_opened session_closed demo_ops (newSMTPThrottle demo_config) {#}
      = Some {#''g''#}"
    by (simp add: demo_ops_def) code_simp
  from throttle_sessions_exact[OF this, of "''g''"] show ?thesis by blast
qed

text \<open>The session limiter of the forwarding server keeps the same exact counts.\<close>

lemma limiter_sessions_exact:
  assumes "open_sessions limiter_step limiter_opened limiter_closed ops (newSessionLimiter m n) {#} = Some A"
  shows "fl_activeSessions (run_ops limiter_step ops (newSessionLimiter m n)) = int (size A)
    \<and> go_get (fl_activeSessionsByHost (run_ops limiter_step ops (newSessionLimiter m n))) 0 h = int (count A h)
    \<and> int (size A) \<le> max 0 m \<and> int (count A h) \<le> max 0 n"
  using lp.pool_counts[of "newSessionLimiter m n" ops A h] assms by (simp add: newSessionLimiter_def)

end
