(* ===== verification/Smtp_Relay.thy ===== *)
theory Smtp_Relay
  imports Email_Message Submission_Types
begin

text \<open>
  The two relays of the submission server: through an upstream provider
  (\<open>internal/smtpsubmission/relay.go\<close>) and directly to the mail exchangers of the recipient's
  domain (\<open>direct_relay.go\<close>). The SMTP client is the argument of \<open>Smtp_Client\<close>; the resolver is a
  function of the domain that may read and change the world. Both relays are raw relays in the
  sense of \<open>relay_contract\<close>: every error they return carries one of the two sentinel errors,
  which the submission server maps to its replies 554 and 451.
\<close>

subsection \<open>Classifying errors\<close>

definition isPermanentSMTPError :: "go_error \<Rightarrow> bool" where
  "isPermanentSMTPError err = (case as_textproto err of None \<Rightarrow> False | Some code \<Rightarrow> 500 \<le> code \<and> code < 600)"

definition upstreamRelayError :: "go_error \<Rightarrow> go_error" where
  "upstreamRelayError sendErr =
     (if isPermanentSMTPError sendErr then Errorf '''' ErrRelayPermanent ('': upstream smtp: '' @ err_text sendErr)
      else Errorf '''' ErrRelayTemporary ('': upstream smtp: '' @ err_text sendErr))"

definition directRelayError :: "go_error \<Rightarrow> go_error" where
  "directRelayError err =
     (if isPermanentSMTPError err then Errorf '''' ErrRelayPermanent ('': direct smtp: '' @ err_text err)
      else Errorf '''' ErrRelayTemporary ('': direct smtp: '' @ err_text err))"

text \<open>What the submission server relies on in a relay.\<close>

locale relay_contract =
  fixes relay :: "raw_message \<Rightarrow> ('w, unit) io"
  assumes classified: "relay m w = (Inl e, w') \<Longrightarrow> errors_is e ErrRelayPermanent \<or> errors_is e ErrRelayTemporary"
begin

lemma not_permanent_temporary:
  "relay m w = (Inl e, w') \<Longrightarrow> \<not> errors_is e ErrRelayPermanent \<Longrightarrow> errors_is e ErrRelayTemporary"
  using classified by blast

end

subsection \<open>The upstream relay\<close>

definition NewUpstreamRelay :: "config \<Rightarrow> smtp_config" where
  "NewUpstreamRelay cfg =
     (let relayProfile = ss_Relay (cfg_SMTPSubmission cfg) in
      \<lparr>smtp_Host = sr_Host relayProfile, smtp_Port = Itoa (sr_Port relayProfile), smtp_Username = sr_Username relayProfile,
       smtp_Password = sr_Password relayProfile, smtp_FromAddress = '''', smtp_Timeouts = cfg\<rparr>)"

definition upstream_Relay :: "'w smtp_api \<Rightarrow> smtp_config \<Rightarrow> 'w raw_relay" where
  "upstream_Relay C sender message =
     io_wrap upstreamRelayError
       (SendRawEmail C sender (addr_value (rm_From message)) (RecipientStrings message) (rm_Data message))"

subsection \<open>The direct relay\<close>

record mx_record =
  mx_Host :: string
  mx_Pref :: nat

type_synonym 'w mx_resolver = "string \<Rightarrow> ('w, mx_record list) io"

record direct_relay =
  dm_hostname :: string
  dm_dialTimeout :: duration
  dm_operationTimeout :: duration

definition defaultDirectRelayOperationTimeout :: duration where
  "defaultDirectRelayOperationTimeout = 30 * second"

definition NewDirectMXRelay :: "config \<Rightarrow> direct_relay" where
  "NewDirectMXRelay cfg =
     (let connectionTimeout = cfg_ConnectionTimeoutSec cfg * second; operationTimeout = cfg_OperationTimeoutSec cfg * second in
      \<lparr>dm_hostname = ss_Hostname (cfg_SMTPSubmission cfg),
       dm_dialTimeout = (if connectionTimeout \<le> 0 then defaultDirectRelayOperationTimeout else connectionTimeout),
       dm_operationTimeout = (if operationTimeout \<le> 0 then defaultDirectRelayOperationTimeout else operationTimeout)\<rparr>)"

fun groupRecipientsByDomain :: "address list \<Rightarrow> string \<rightharpoonup> address list" where
  "groupRecipientsByDomain [] = Map.empty"
| "groupRecipientsByDomain (recipient # rest) =
     (let grouped = groupRecipientsByDomain rest in
      grouped(addr_domain recipient \<mapsto> recipient # (case grouped (addr_domain recipient) of None \<Rightarrow> [] | Some rs \<Rightarrow> rs)))"

definition shouldFallbackToDomainHost :: "go_error \<Rightarrow> bool" where
  "shouldFallbackToDomainHost lookupErr = (case as_dns_error lookupErr of None \<Rightarrow> False | Some isNotFound \<Rightarrow> isNotFound)"

definition mx_order :: "mx_record \<Rightarrow> mx_record \<Rightarrow> bool" where
  "mx_order a b \<longleftrightarrow> (if mx_Pref a = mx_Pref b then mx_Host a \<le> mx_Host b else mx_Pref a < mx_Pref b)"

fun targetLoop :: "string \<Rightarrow> mx_record list \<Rightarrow> string list result" where
  "targetLoop domain [] = Inr []"
| "targetLoop domain (record # rest) =
     (let host = TrimSpace (mx_Host record) in
      if host = ''.'' then Inl (Errorf '''' ErrRelayPermanent ('': recipient domain '' @ domain @ '' publishes null mx''))
      else (case targetLoop domain rest of
          Inl e \<Rightarrow> Inl e
        | Inr targets \<Rightarrow> Inr (if host = '''' then targets else host # targets)))"

definition lookupTargets :: "'w mx_resolver \<Rightarrow> string \<Rightarrow> ('w, string list) io" where
  "lookupTargets lookupMX domain =
     io_bind (io_try (lookupMX domain)) (\<lambda>found.
       case found of
         Inl lookupErr \<Rightarrow> if \<not> shouldFallbackToDomainHost lookupErr then io_fail lookupErr else io_return [domain]
       | Inr records \<Rightarrow>
           if length records = 0 then io_return [domain]
           else (case targetLoop domain (sort_by mx_order records) of
               Inl e \<Rightarrow> io_fail e
             | Inr targets \<Rightarrow>
                 if length targets = 0
                 then io_fail (ErrorsNew (''recipient mx records for '' @ domain @ '' contain no hosts''))
                 else io_return targets))"

definition finishSMTPData :: "'w smtp_api \<Rightarrow> unit result \<Rightarrow> ('w, unit) io" where
  "finishSMTPData C written =
     (case written of
        Inl writeErr \<Rightarrow> io_bind (io_ignore (sa_call C CCloseData)) (\<lambda>_. io_fail writeErr)
      | Inr _ \<Rightarrow> sa_call C CCloseData)"

definition directConversation ::
  "'w smtp_api \<Rightarrow> direct_relay \<Rightarrow> string \<Rightarrow> address \<Rightarrow> address list \<Rightarrow> bytes \<Rightarrow> ('w, unit) io" where
  "directConversation C relay host from' recipients data =
     io_bind (sa_call C (CHello (dm_hostname relay))) (\<lambda>_.
     io_bind (\<lambda>w. if sa_extension C ''STARTTLS'' w then sa_call C (CStartTLS host) w else (Inr (), w)) (\<lambda>_.
     io_bind (sa_call C (CMail (addr_value from'))) (\<lambda>_.
     io_bind (io_each (\<lambda>recipient. sa_call C (CRcpt (addr_value recipient))) recipients) (\<lambda>_.
     io_bind (sa_call C CData) (\<lambda>_.
     io_bind (io_try (sa_call C (CWrite data))) (\<lambda>written.
     io_bind (finishSMTPData C written) (\<lambda>_.
     io_ignore (sa_call C CQuit))))))))"

definition relayTarget ::
  "'w smtp_api \<Rightarrow> direct_relay \<Rightarrow> string \<Rightarrow> address \<Rightarrow> address list \<Rightarrow> bytes \<Rightarrow> ('w, unit) io" where
  "relayTarget C relay target from' recipients data =
     (let host = TrimSuffix target ''.'' in
      io_bind (sa_call C (CDial (dm_dialTimeout relay) (JoinHostPort host ''25''))) (\<lambda>_.
      io_defer
        (io_bind (if 0 < dm_operationTimeout relay then sa_call C (CSetDeadline (dm_operationTimeout relay)) else io_return ()) (\<lambda>_.
         io_bind (sa_call C (CNewClient host)) (\<lambda>_.
         io_defer (directConversation C relay host from' recipients data) (sa_call C CCloseClient))))
        (sa_call C CCloseConn)))"

fun targetsLoop ::
  "'w smtp_api \<Rightarrow> direct_relay \<Rightarrow> address \<Rightarrow> address list \<Rightarrow> bytes \<Rightarrow> go_error \<Rightarrow> string list \<Rightarrow> ('w, unit) io" where
  "targetsLoop C relay from' recipients data lastErr [] = io_fail (directRelayError lastErr)"
| "targetsLoop C relay from' recipients data lastErr (target # rest) =
     io_bind (io_try (relayTarget C relay target from' recipients data)) (\<lambda>r.
       case r of
         Inr _ \<Rightarrow> io_return ()
       | Inl err \<Rightarrow> if isPermanentSMTPError err then io_fail (directRelayError err)
                    else targetsLoop C relay from' recipients data err rest)"

text \<open>The list of targets is never empty, so the loop always has a last error when it ends.\<close>

definition relayDomain ::
  "'w smtp_api \<Rightarrow> 'w mx_resolver \<Rightarrow> direct_relay \<Rightarrow> string \<Rightarrow> address \<Rightarrow> address list \<Rightarrow> bytes \<Rightarrow> ('w, unit) io" where
  "relayDomain C lookupMX relay domain from' recipients data =
     io_bind (io_try (lookupTargets lookupMX domain)) (\<lambda>resolved.
       case resolved of
         Inl resolveErr \<Rightarrow>
           if errors_is resolveErr ErrRelayPermanent then io_fail resolveErr
           else io_fail (Errorf '''' ErrRelayTemporary ('': resolve recipient mx '' @ domain @ '': '' @ err_text resolveErr))
       | Inr targets \<Rightarrow> targetsLoop C relay from' recipients data (External ''<nil>'') targets)"

definition direct_Relay :: "'w smtp_api \<Rightarrow> 'w mx_resolver \<Rightarrow> direct_relay \<Rightarrow> 'w raw_relay" where
  "direct_Relay C lookupMX relay message =
     (let recipientsByDomain = groupRecipientsByDomain (rm_Recipients message);
          domains = sort (remdups (map addr_domain (rm_Recipients message))) in
      if 1 < length domains
      then io_fail (Errorf '''' ErrRelayPermanent '': direct smtp supports one recipient domain per message'')
      else io_each (\<lambda>domain. relayDomain C lookupMX relay domain (rm_From message)
                      (case recipientsByDomain domain of None \<Rightarrow> [] | Some rs \<Rightarrow> rs) (rm_Data message)) domains)"

subsection \<open>Both relays meet the contract\<close>

definition classified_error :: "go_error \<Rightarrow> bool" where
  "classified_error e \<longleftrightarrow> errors_is e ErrRelayPermanent \<or> errors_is e ErrRelayTemporary"

lemma sentinel_wrap [simp]:
  "classified_error (Errorf p ErrRelayPermanent s)" "classified_error (Errorf p ErrRelayTemporary s)"
  by (simp_all add: classified_error_def ErrRelayPermanent_def ErrRelayTemporary_def)

lemma relay_errors_classified: "classified_error (upstreamRelayError e)" "classified_error (directRelayError e)"
  by (simp_all add: upstreamRelayError_def directRelayError_def)

lemma targetsLoop_classified: "targetsLoop C relay f rs d e0 ts w = (Inl e, w') \<Longrightarrow> classified_error e"
proof (induction ts arbitrary: e0 w)
  case Nil
  then show ?case by (auto simp: io_fail_def relay_errors_classified)
next
  case (Cons t ts)
  obtain r v where r: "relayTarget C relay t f rs d w = (r, v)" by fastforce
  show ?case
  proof (cases r)
    case (Inl err)
    with Cons r show ?thesis
      by (cases "isPermanentSMTPError err") (auto simp: io_bind_def io_try_def io_fail_def relay_errors_classified)
  next
    case (Inr u)
    with Cons.prems r show ?thesis by (simp add: io_bind_def io_try_def io_return_def)
  qed
qed

lemma relayDomain_classified:
  assumes "relayDomain C lookupMX relay domain f rs d w = (Inl e, w')"
  shows "classified_error e"
proof -
  obtain q v where q: "lookupTargets lookupMX domain w = (q, v)" by fastforce
  show ?thesis
  proof (cases q)
    case (Inr targets)
    with assms q show ?thesis by (auto simp: relayDomain_def io_bind_def io_try_def intro: targetsLoop_classified)
  next
    case (Inl err)
    with assms q show ?thesis
      by (cases "errors_is err ErrRelayPermanent")
        (auto simp: relayDomain_def io_bind_def io_try_def io_fail_def classified_error_def)
  qed
qed

lemma io_each_Inl:
  assumes "io_each f xs w = (Inl e, w')"
  obtains x v where "x \<in> set xs" "f x v = (Inl e, w')"
  using assms
proof (induction xs arbitrary: w)
  case Nil
  then show ?case by simp
next
  case (Cons x xs)
  from Cons.prems(2) consider "f x w = (Inl e, w')" | u v where "f x w = (Inr u, v)" "io_each f xs v = (Inl e, w')"
    by (auto simp: io_bind_Inl)
  then show ?case
  proof cases
    case 1
    then show ?thesis using Cons.prems(1)[of x w] by simp
  next
    case (2 u v)
    then show ?thesis using Cons.IH[OF _ 2(2)] Cons.prems(1) by (metis list.set_intros(2))
  qed
qed

lemma direct_Relay_classified:
  assumes "direct_Relay C lookupMX relay m w = (Inl e, w')"
  shows "classified_error e"
proof (cases "1 < length (sort (remdups (map addr_domain (rm_Recipients m))))")
  case True
  with assms show ?thesis by (auto simp: direct_Relay_def Let_def io_fail_def)
next
  case False
  with assms show ?thesis
    unfolding direct_Relay_def Let_def if_not_P[OF False] by (auto elim!: io_each_Inl dest: relayDomain_classified)
qed

lemma upstream_Relay_Inl:
  assumes "upstream_Relay C cfg m w = (Inl e, w')"
  obtains e0 where "SendRawEmail C cfg (addr_value (rm_From m)) (RecipientStrings m) (rm_Data m) w = (Inl e0, w')"
    "e = upstreamRelayError e0"
  using assms by (auto simp: upstream_Relay_def io_wrap_def split: prod.splits sum.splits)

interpretation upstream: relay_contract "upstream_Relay C cfg"
proof
  fix m w e w'
  assume "upstream_Relay C cfg m w = (Inl e, w')"
  then show "errors_is e ErrRelayPermanent \<or> errors_is e ErrRelayTemporary"
    using relay_errors_classified(1) by (auto elim!: upstream_Relay_Inl simp: classified_error_def)
qed

interpretation direct: relay_contract "direct_Relay C lookupMX relay"
proof
  fix m w e w'
  assume "direct_Relay C lookupMX relay m w = (Inl e, w')"
  then show "errors_is e ErrRelayPermanent \<or> errors_is e ErrRelayTemporary"
    by (rule direct_Relay_classified[unfolded classified_error_def])
qed


definition demo_message :: raw_message where
  "demo_message = \<lparr>rm_IdentityID = ''i'', rm_From = \<lparr>addr_value = ''a@x.org'', addr_domain = ''x.org''\<rparr>,
     rm_Recipients = [\<lparr>addr_value = ''b@y.org'', addr_domain = ''y.org''\<rparr>], rm_Data = ''d''\<rparr>"

definition refusing_client :: "unit smtp_api" where
  "refusing_client = \<lparr>sa_call = (\<lambda>c w. (Inl (TextprotoError 550 ''no''), w)), sa_extension = (\<lambda>_ _. False), sa_ctxErr = (\<lambda>_. None)\<rparr>"


subsection \<open>Targets\<close>

lemma targetLoop_hosts:
  "targetLoop domain rs = Inr ts \<Longrightarrow> ts = filter (\<lambda>h. h \<noteq> '''') (map (\<lambda>r. TrimSpace (mx_Host r)) rs) \<and> ''.'' \<notin> set ts"
  by (induction rs arbitrary: ts) (auto simp: Let_def split: if_splits sum.splits)

lemma mx_order_total: "total_preorder mx_order"
  by (auto simp: total_preorder_def mx_order_def split: if_splits)

text \<open>The direct relay tries at least one host. They are the published mail exchangers in the
  order of their preference, none blank or the null host; only a domain without mail exchangers
  is tried itself.\<close>

lemma lookup_targets_ordered:
  assumes "lookupTargets lookupMX domain w = (Inr targets, w')"
  shows "targets \<noteq> [] \<and>
    ((\<exists>records. fst (lookupMX domain w) = Inr records \<and> records \<noteq> [] \<and> ''.'' \<notin> set targets
        \<and> (\<exists>rs. mset rs = mset records \<and> sorted_wrt mx_order rs
             \<and> targets = filter (\<lambda>h. h \<noteq> '''') (map (\<lambda>r. TrimSpace (mx_Host r)) rs)))
     \<or> targets = [domain] \<and> (fst (lookupMX domain w) = Inr []
          \<or> (\<exists>e. fst (lookupMX domain w) = Inl e \<and> as_dns_error e = Some True)))"
proof -
  obtain q v where q: "lookupMX domain w = (q, v)" by fastforce
  show ?thesis
  proof (cases q)
    case (Inl e)
    with assms q show ?thesis
      by (auto simp: lookupTargets_def io_bind_def io_try_def io_fail_def io_return_def shouldFallbackToDomainHost_def
          split: if_splits option.splits)
  next
    case (Inr records)
    show ?thesis
    proof (cases "records = []")
      case True
      with assms q Inr show ?thesis by (auto simp: lookupTargets_def io_bind_def io_try_def io_return_def)
    next
      case False
      with assms q Inr have "targetLoop domain (sort_by mx_order records) = Inr targets" "targets \<noteq> []"
        by (auto simp: lookupTargets_def io_bind_def io_try_def io_fail_def io_return_def split: sum.splits if_splits)
      note h = targetLoop_hosts[OF this(1)] this(2)
      have "mset (sort_by mx_order records) = mset records" "sorted_wrt mx_order (sort_by mx_order records)"
        by (simp_all add: sorted_sort_by[OF mx_order_total])
      then have "\<exists>rs. mset rs = mset records \<and> sorted_wrt mx_order rs
          \<and> targets = filter (\<lambda>h. h \<noteq> '''') (map (\<lambda>r. TrimSpace (mx_Host r)) rs)"
        using h by blast
      with h False q Inr show ?thesis by (metis fst_conv)
    qed
  qed
qed

text \<open>A message for recipients of two domains is refused for good, whatever the domains' hosts.\<close>

lemma direct_relay_refuses_two_domains:
  assumes "a \<in> set (rm_Recipients m)" "b \<in> set (rm_Recipients m)" "addr_domain a \<noteq> addr_domain b"
  shows "direct_Relay C lookupMX relay m w =
    (Inl (Errorf '''' ErrRelayPermanent '': direct smtp supports one recipient domain per message''), w)"
proof -
  let ?ds = "remdups (map addr_domain (rm_Recipients m))"
  have "{addr_domain a, addr_domain b} \<subseteq> set ?ds" using assms by auto
  then have "card {addr_domain a, addr_domain b} \<le> length ?ds"
    by (metis List.finite_set card_length card_mono order.trans)
  with assms(3) show ?thesis by (simp add: direct_Relay_def io_fail_def)
qed

end
