(* ===== verification/Smtp_Submission.thy ===== *)
theory Smtp_Submission
  imports Smtp_Throttle Smtp_Relay
begin

text \<open>
  The SMTP submission server (\<open>internal/smtpsubmission/server.go\<close>): one session from the greeting to
  its end. A connection is what the peer still sends before it falls silent, what it sends after
  each read deadline it lets pass, both also for the stream under TLS (none when the handshake
  fails), the lines written so far and how many more writes succeed. A read that runs into the
  deadline or the end of the stream drops what was buffered, as the buffered reader does.
  The buffered reader keeps its 4096 byte buffer, because a longer line of a message arrives in
  fragments. A session runs over its own state, the server's throttle and a world that the
  authenticator, the relay and the clock read and change.
\<close>

subsection \<open>Configuration\<close>

definition defaultMaxMessageBytes :: int where "defaultMaxMessageBytes = 25 * 1024 * 1024"
definition defaultMaxRecipients :: int where "defaultMaxRecipients = 100"
definition defaultCommandTimeout :: duration where "defaultCommandTimeout = 2 * 60 * second"
definition defaultMaxConcurrentSessions :: int where "defaultMaxConcurrentSessions = 200"
definition defaultMaxSessionsPerRemoteHost :: int where "defaultMaxSessionsPerRemoteHost = 20"
definition defaultAuthFailureLimit :: int where "defaultAuthFailureLimit = 5"
definition defaultAuthFailureWindow :: duration where "defaultAuthFailureWindow = 10 * 60 * second"
definition defaultMessageLimit :: int where "defaultMessageLimit = 60"
definition defaultMessageWindow :: duration where "defaultMessageWindow = 60 * 60 * second"

record 'w server =
  srv_config :: "'w submission_config"
  srv_authenticate :: "'w authenticator"
  srv_relay :: "'w raw_relay"
  srv_clock :: "'w \<Rightarrow> time \<times> 'w"

definition or_default :: "int \<Rightarrow> int \<Rightarrow> int" where
  "or_default v d = (if v \<le> 0 then d else v)"

definition serverDefaults :: "'w submission_config \<Rightarrow> 'w submission_config" where
  "serverDefaults cfg = cfg\<lparr>
     sc_MaxMessageBytes := or_default (sc_MaxMessageBytes cfg) defaultMaxMessageBytes,
     sc_MaxRecipients := or_default (sc_MaxRecipients cfg) defaultMaxRecipients,
     sc_CommandTimeout := or_default (sc_CommandTimeout cfg) defaultCommandTimeout,
     sc_MaxConcurrentSessions := or_default (sc_MaxConcurrentSessions cfg) defaultMaxConcurrentSessions,
     sc_MaxSessionsPerRemoteHost := or_default (sc_MaxSessionsPerRemoteHost cfg) defaultMaxSessionsPerRemoteHost,
     sc_AuthFailureLimit := or_default (sc_AuthFailureLimit cfg) defaultAuthFailureLimit,
     sc_AuthFailureWindow := or_default (sc_AuthFailureWindow cfg) defaultAuthFailureWindow,
     sc_MessageLimit := or_default (sc_MessageLimit cfg) defaultMessageLimit,
     sc_MessageWindow := or_default (sc_MessageWindow cfg) defaultMessageWindow\<rparr>"

definition NewServer :: "('w \<Rightarrow> time \<times> 'w) \<Rightarrow> 'w submission_config \<Rightarrow> ('w server \<times> smtpThrottle) result" where
  "NewServer clock cfg =
     (if TrimSpace (sc_Hostname cfg) = '''' then Inl (ErrorsNew ''smtp submission: hostname is required'')
      else case sc_Authenticator cfg of
        None \<Rightarrow> Inl (ErrorsNew ''smtp submission: authenticator is required'')
      | Some authenticate \<Rightarrow>
     (case sc_Relay cfg of
        None \<Rightarrow> Inl (ErrorsNew ''smtp submission: relay is required'')
      | Some relay \<Rightarrow>
      if \<not> sc_Logger cfg then Inl (ErrorsNew ''smtp submission: logger is required'')
      else if TrimSpace (sc_TLSListenAddr cfg) \<noteq> '''' \<and> \<not> sc_TLSConfig cfg
      then Inl (ErrorsNew ''smtp submission: tls listener requires tls config'')
      else if TrimSpace (sc_ListenAddr cfg) \<noteq> '''' \<and> \<not> sc_AllowInsecureAuth cfg \<and> \<not> sc_TLSConfig cfg
      then Inl (ErrorsNew ''smtp submission: starttls listener requires tls config'')
      else Inr (\<lparr>srv_config = serverDefaults cfg, srv_authenticate = authenticate, srv_relay = relay, srv_clock = clock\<rparr>,
                newSMTPThrottle (serverDefaults cfg))))"

subsection \<open>The connection\<close>

record connection =
  cn_in :: bytes
  cn_later :: "bytes list"
  cn_tls :: "(bytes \<times> bytes list) option"
  cn_out :: "string list"
  cn_writes :: "nat option"

definition writeSMTPLine :: "string \<Rightarrow> connection \<Rightarrow> bool \<times> connection" where
  "writeSMTPLine line c =
     (case cn_writes c of
        None \<Rightarrow> (True, c\<lparr>cn_out := cn_out c @ [line]\<rparr>)
      | Some 0 \<Rightarrow> (False, c)
      | Some (Suc n) \<Rightarrow> (True, c\<lparr>cn_out := cn_out c @ [line], cn_writes := Some n\<rparr>))"

abbreviation LF :: char where
  "LF \<equiv> CHR 0x0A"

definition read_fails :: "connection \<Rightarrow> connection" where
  "read_fails c =
     (case cn_later c of
        [] \<Rightarrow> c\<lparr>cn_in := []\<rparr>
      | inp # later \<Rightarrow> c\<lparr>cn_in := inp, cn_later := later\<rparr>)"

definition ReadString :: "connection \<Rightarrow> string option \<times> connection" where
  "ReadString c =
     (case dropWhile (\<lambda>x. x \<noteq> LF) (cn_in c) of
        [] \<Rightarrow> (None, read_fails c)
      | _ # rest \<Rightarrow> (Some (takeWhile (\<lambda>x. x \<noteq> LF) (cn_in c) @ [LF]), c\<lparr>cn_in := rest\<rparr>))"

text \<open>\<open>bufio.Reader.ReadSlice\<close>: a line, or a full buffer without a line end, or the end of the input.\<close>

datatype slice = Line bytes | BufferFull bytes | ReadError

definition bufio_size :: nat where "bufio_size = 4096"

definition ReadSlice :: "bytes \<Rightarrow> slice \<times> bytes" where
  "ReadSlice inp =
     (if LF \<in> set (take bufio_size inp)
      then (let n = length (takeWhile (\<lambda>x. x \<noteq> LF) inp) in (Line (take (Suc n) inp), drop (Suc n) inp))
      else if bufio_size \<le> length inp then (BufferFull (take bufio_size inp), drop bufio_size inp)
      else (ReadError, []))"

text \<open>For evaluation: the size of the buffer compared in binary.\<close>

lemma ReadSlice_code [code]:
  "ReadSlice inp =
     (let n = length (takeWhile (\<lambda>x. x \<noteq> LF) inp) in
      if n < length inp \<and> int n < 4096 then (Line (take (Suc n) inp), drop (Suc n) inp)
      else if 4096 \<le> int (length inp) then (BufferFull (take bufio_size inp), drop bufio_size inp)
      else (ReadError, []))"
proof -
  let ?n = "length (takeWhile (\<lambda>x. x \<noteq> LF) inp)"
  have "LF \<in> set (take k inp) \<longleftrightarrow> ?n < length inp \<and> ?n < k" for k
  proof (induction inp arbitrary: k)
    case (Cons x xs)
    then show ?case by (cases k) auto
  qed simp
  then show ?thesis by (simp add: ReadSlice_def Let_def bufio_size_def)
qed

subsection \<open>Parsing commands\<close>

definition splitCommand :: "string \<Rightarrow> string \<times> string" where
  "splitCommand line =
     (let trimmedLine = TrimRight line [CHR 0x0D, LF];
          (command, argument, hasArgument) = Cut trimmedLine (CHR '' '') in
      if \<not> hasArgument then (ToUpper (TrimSpace command), '''')
      else (ToUpper (TrimSpace command), TrimSpace argument))"

definition splitAuthArgument :: "string \<Rightarrow> string \<times> string" where
  "splitAuthArgument argument =
     (let (mechanism, payload, hasPayload) = Cut (TrimSpace argument) (CHR '' '') in
      if \<not> hasPayload then (ToUpper mechanism, '''')
      else (ToUpper (TrimSpace mechanism), TrimSpace payload))"

definition parseSMTPPath :: "mail_api \<Rightarrow> string \<Rightarrow> string \<Rightarrow> address result" where
  "parseSMTPPath M argument expectedPrefix =
     (let trimmedArgument = TrimSpace argument in
      if \<not> HasPrefix (ToUpper trimmedArgument) expectedPrefix then Inl (ErrorsNew ''missing smtp path prefix'')
      else let path = TrimSpace (drop (length expectedPrefix) trimmedArgument) in
      if HasPrefix path ''<'' then
        (case Index path ''>'' of
           None \<Rightarrow> Inl (ErrorsNew ''unterminated smtp path'')
         | Some endIndex \<Rightarrow> NewAddress M (drop 1 (take endIndex path)))
      else (case Fields path of
          [] \<Rightarrow> NewAddress M path
        | field # _ \<Rightarrow> NewAddress M field))"

definition parseMessageFrom :: "mail_api \<Rightarrow> bytes \<Rightarrow> address result" where
  "parseMessageFrom M data =
     (case mail_HeaderFrom M data of
        None \<Rightarrow> Inl (External ''malformed message'')
      | Some header \<Rightarrow> ParseHeaderFromAddress M header)"

subsection \<open>Reading a message\<close>

definition isSMTPDataTerminator :: "bytes \<Rightarrow> bool" where
  "isSMTPDataTerminator line \<longleftrightarrow> line = [CHR ''.'', CHR 0x0D, LF] \<or> line = [CHR ''.'', LF]"

definition unstuff :: "bytes \<Rightarrow> bytes" where
  "unstuff fragment =
     (if 2 \<le> length fragment \<and> fragment ! 0 = CHR ''.'' \<and> fragment ! 1 = CHR ''.'' then drop 1 fragment else fragment)"

definition appendFragment :: "int \<Rightarrow> bytes \<Rightarrow> bytes \<times> bool \<Rightarrow> bytes \<times> bool" where
  "appendFragment maxBytes fragment acc =
     (let (buffer, tooLarge) = acc in
      if tooLarge then (buffer, tooLarge)
      else if int (length buffer + length fragment) > maxBytes then (buffer, True)
      else (buffer @ fragment, False))"

lemma ReadSlice_shorter: "ReadSlice inp = (r, rest) \<Longrightarrow> r \<noteq> ReadError \<Longrightarrow> length rest < length inp"
proof -
  assume r: "ReadSlice inp = (r, rest)" "r \<noteq> ReadError"
  then have "inp \<noteq> []" by (auto simp: ReadSlice_def bufio_size_def)
  with r show ?thesis by (auto simp: ReadSlice_def bufio_size_def Let_def split: if_splits)
qed

text \<open>The two nested loops of \<open>readData\<close> as one: \<open>firstFragment\<close> says whether a line begins here.\<close>

function readDataLoop :: "int \<Rightarrow> bool \<Rightarrow> bytes \<times> bool \<Rightarrow> bytes \<Rightarrow> (bytes \<times> bool) option \<times> bytes" where
  "readDataLoop maxBytes firstFragment acc inp =
     (case ReadSlice inp of
        (ReadError, rest) \<Rightarrow> (None, rest)
      | (Line fragment, rest) \<Rightarrow>
          if firstFragment \<and> isSMTPDataTerminator fragment then (Some acc, rest)
          else readDataLoop maxBytes True
                 (appendFragment maxBytes (if firstFragment then unstuff fragment else fragment) acc) rest
      | (BufferFull fragment, rest) \<Rightarrow>
          readDataLoop maxBytes False
            (appendFragment maxBytes (if firstFragment then unstuff fragment else fragment) acc) rest)"
  by pat_completeness auto
termination
  by (relation "measure (\<lambda>(m, b, acc, inp). length inp)") (auto dest: ReadSlice_shorter[OF sym])

declare readDataLoop.simps [simp del]

definition readData :: "int \<Rightarrow> connection \<Rightarrow> (bytes \<times> bool) option \<times> connection" where
  "readData maxBytes c =
     (case readDataLoop maxBytes True ([], False) (cn_in c) of
        (None, _) \<Rightarrow> (None, read_fails c)
      | (Some r, rest) \<Rightarrow> (Some r, c\<lparr>cn_in := rest\<rparr>))"

subsection \<open>Sessions\<close>

record sessionState =
  ses_secure :: bool
  ses_authenticated :: "authenticated_identity option"
  ses_mailFrom :: "address option"
  ses_recipients :: "address list"

definition new_session :: "bool \<Rightarrow> sessionState" where
  "new_session secure = \<lparr>ses_secure = secure, ses_authenticated = None, ses_mailFrom = None, ses_recipients = []\<rparr>"

record 'w run =
  ru_conn :: connection
  ru_session :: sessionState
  ru_throttle :: smtpThrottle
  ru_world :: 'w

datatype smtpAuthResult = smtpAuthAccepted authenticated_identity | smtpAuthRejected | smtpAuthThrottled
datatype smtpRelayStatus = smtpRelayAccepted | smtpRelayThrottled | smtpRelayRejectedPermanent | smtpRelayRejectedTemporary

text \<open>\<open>reply\<close> is a call of \<open>writeSMTPLine\<close> whose error is ignored.\<close>

definition reply :: "string \<Rightarrow> 'w run \<Rightarrow> 'w run" where
  "reply line ru = ru\<lparr>ru_conn := snd (writeSMTPLine line (ru_conn ru))\<rparr>"

definition clear_mail :: "'w run \<Rightarrow> 'w run" where
  "clear_mail ru = ru\<lparr>ru_session := (ru_session ru)\<lparr>ses_mailFrom := None, ses_recipients := []\<rparr>\<rparr>"

definition helloLines :: "'w submission_config \<Rightarrow> bool \<Rightarrow> string list" where
  "helloLines cfg secure =
     [''250-'' @ sc_Hostname cfg, ''250-SIZE '' @ Itoa (sc_MaxMessageBytes cfg)]
     @ (if \<not> secure \<and> sc_TLSConfig cfg then [''250-STARTTLS''] else [])
     @ (if secure \<or> sc_AllowInsecureAuth cfg then [''250-AUTH PLAIN LOGIN''] else [])
     @ [''250 OK'']"

definition handleHello :: "'w server \<Rightarrow> 'w run \<Rightarrow> 'w run" where
  "handleHello srv ru = foldl (\<lambda>ru line. reply line ru) ru (helloLines (srv_config srv) (ses_secure (ru_session ru)))"

definition auth_fail :: "(string \<times> string \<times> bool)" where
  "auth_fail = ('''', '''', False)"

text \<open>The readers of credentials return the user name, the password and whether they could be read.\<close>

definition readPlainAuth :: "string \<Rightarrow> connection \<Rightarrow> (string \<times> string \<times> bool) \<times> connection" where
  "readPlainAuth payload c =
     (let finish = (\<lambda>payload. case StdDecodeString (TrimSpace payload) of
                      None \<Rightarrow> auth_fail
                    | Some decoded \<Rightarrow> (case Split decoded (CHR 0x00) of
                          [_, username, password] \<Rightarrow> (username, password, True)
                        | _ \<Rightarrow> auth_fail)) in
      if TrimSpace payload = '''' then
        (case writeSMTPLine ''334 '' c of
           (False, c1) \<Rightarrow> (auth_fail, c1)
         | (True, c1) \<Rightarrow>
             (case ReadString c1 of
                (None, c2) \<Rightarrow> (auth_fail, c2)
              | (Some line, c2) \<Rightarrow> (finish (TrimSpace line), c2)))
      else (finish payload, c))"

definition readPassword :: "string \<Rightarrow> connection \<Rightarrow> (string \<times> string \<times> bool) \<times> connection" where
  "readPassword usernamePayload c =
     (case StdDecodeString usernamePayload of
        None \<Rightarrow> (auth_fail, c)
      | Some usernameBytes \<Rightarrow>
          (case writeSMTPLine (''334 '' @ StdEncodeToString ''Password:'') c of
             (False, c1) \<Rightarrow> (auth_fail, c1)
           | (True, c1) \<Rightarrow>
               (case ReadString c1 of
                  (None, c2) \<Rightarrow> (auth_fail, c2)
                | (Some passwordLine, c2) \<Rightarrow>
                    (case StdDecodeString (TrimSpace passwordLine) of
                       None \<Rightarrow> (auth_fail, c2)
                     | Some passwordBytes \<Rightarrow> ((usernameBytes, passwordBytes, True), c2)))))"

definition readLoginAuth :: "string \<Rightarrow> connection \<Rightarrow> (string \<times> string \<times> bool) \<times> connection" where
  "readLoginAuth payload c =
     (let usernamePayload = TrimSpace payload in
      if usernamePayload = '''' then
        (case writeSMTPLine (''334 '' @ StdEncodeToString ''Username:'') c of
           (False, c1) \<Rightarrow> (auth_fail, c1)
         | (True, c1) \<Rightarrow>
             (case ReadString c1 of
                (None, c2) \<Rightarrow> (auth_fail, c2)
              | (Some line, c2) \<Rightarrow> readPassword (TrimSpace line) c2))
      else readPassword usernamePayload c)"

definition completeAuthAttempt ::
  "'w server \<Rightarrow> string \<Rightarrow> string \<times> string \<times> bool \<Rightarrow> 'w run \<Rightarrow> smtpAuthResult \<times> 'w run" where
  "completeAuthAttempt srv remoteHost credentials ru =
     (let (username, password, parsed) = credentials;
          (now, w) = srv_clock srv (ru_world ru);
          (reservation, throttle) = reserveAuthAttempt now remoteHost username (ru_throttle ru);
          ru1 = ru\<lparr>ru_world := w, ru_throttle := throttle\<rparr> in
      case reservation of
        None \<Rightarrow> (smtpAuthThrottled, ru1)
      | Some authReservation \<Rightarrow>
          if \<not> parsed then (smtpAuthRejected, ru1)
          else (case srv_authenticate srv username password (ru_world ru1) of
              (Inl authErr, w') \<Rightarrow> (smtpAuthRejected, ru1\<lparr>ru_world := w'\<rparr>)
            | (Inr identity, w') \<Rightarrow>
                (smtpAuthAccepted identity,
                 ru1\<lparr>ru_world := w', ru_throttle := auth_accept authReservation (ru_throttle ru1)\<rparr>)))"

definition handleAuth :: "'w server \<Rightarrow> string \<Rightarrow> string \<Rightarrow> 'w run \<Rightarrow> 'w run" where
  "handleAuth srv argument remoteHost ru =
     (let session = ru_session ru in
      if ses_authenticated session \<noteq> None then reply ''503 Already authenticated'' ru
      else if \<not> ses_secure session \<and> \<not> sc_AllowInsecureAuth (srv_config srv) then reply ''530 Must issue STARTTLS first'' ru
      else let (mechanism, payload) = splitAuthArgument argument in
      if mechanism \<noteq> ''PLAIN'' \<and> mechanism \<noteq> ''LOGIN'' then reply ''504 Authentication mechanism unsupported'' ru
      else let (credentials, c) = (if mechanism = ''PLAIN'' then readPlainAuth payload (ru_conn ru)
                                   else readLoginAuth payload (ru_conn ru));
               (status, ru1) = completeAuthAttempt srv remoteHost credentials (ru\<lparr>ru_conn := c\<rparr>) in
      (case status of
         smtpAuthThrottled \<Rightarrow> reply ''454 Authentication temporarily throttled'' ru1
       | smtpAuthRejected \<Rightarrow> reply ''535 Authentication failed'' ru1
       | smtpAuthAccepted identity \<Rightarrow>
           reply ''235 Authentication successful''
             (ru1\<lparr>ru_session := (ru_session ru1)\<lparr>ses_authenticated := Some identity\<rparr>\<rparr>)))"

definition handleMail :: "mail_api \<Rightarrow> string \<Rightarrow> 'w run \<Rightarrow> 'w run" where
  "handleMail M argument ru =
     (case ses_authenticated (ru_session ru) of
        None \<Rightarrow> reply ''530 Authentication required'' ru
      | Some identity \<Rightarrow>
          (case parseSMTPPath M argument ''FROM:'' of
             Inl _ \<Rightarrow> reply ''501 Invalid sender'' ru
           | Inr address \<Rightarrow>
               if \<not> addr_Equals address (ai_EmailAddress identity) then reply ''553 Sender not authorized'' ru
               else reply ''250 OK'' (ru\<lparr>ru_session := (ru_session ru)\<lparr>ses_mailFrom := Some address, ses_recipients := []\<rparr>\<rparr>)))"

definition handleRecipient :: "mail_api \<Rightarrow> 'w server \<Rightarrow> string \<Rightarrow> 'w run \<Rightarrow> 'w run" where
  "handleRecipient M srv argument ru =
     (let session = ru_session ru in
      if ses_mailFrom session = None then reply ''503 Need MAIL FROM first'' ru
      else if int (length (ses_recipients session)) \<ge> sc_MaxRecipients (srv_config srv) then reply ''452 Too many recipients'' ru
      else (case parseSMTPPath M argument ''TO:'' of
          Inl _ \<Rightarrow> reply ''501 Invalid recipient'' ru
        | Inr address \<Rightarrow>
            reply ''250 OK'' (ru\<lparr>ru_session := session\<lparr>ses_recipients := ses_recipients session @ [address]\<rparr>\<rparr>)))"

definition relayAcceptedMessage :: "'w server \<Rightarrow> raw_message \<Rightarrow> 'w run \<Rightarrow> smtpRelayStatus \<times> 'w run" where
  "relayAcceptedMessage srv message ru =
     (let (now, w) = srv_clock srv (ru_world ru);
          (reservation, throttle) = reserveAcceptedMessage now (rm_IdentityID message) (ru_throttle ru);
          ru1 = ru\<lparr>ru_world := w, ru_throttle := throttle\<rparr> in
      case reservation of
        None \<Rightarrow> (smtpRelayThrottled, ru1)
      | Some messageReservation \<Rightarrow>
          (case srv_relay srv message (ru_world ru1) of
             (Inr _, w') \<Rightarrow> (smtpRelayAccepted, ru1\<lparr>ru_world := w'\<rparr>)
           | (Inl relayErr, w') \<Rightarrow>
               (if errors_is relayErr ErrRelayPermanent then smtpRelayRejectedPermanent else smtpRelayRejectedTemporary,
                ru1\<lparr>ru_world := w', ru_throttle := message_cancel messageReservation (ru_throttle ru1)\<rparr>)))"

definition handleData :: "mail_api \<Rightarrow> 'w server \<Rightarrow> 'w run \<Rightarrow> 'w run" where
  "handleData M srv ru =
     (let session = ru_session ru in
      case ses_authenticated session of
        None \<Rightarrow> reply ''503 Need MAIL FROM and RCPT TO first'' ru
      | Some identity \<Rightarrow>
      if ses_mailFrom session = None \<or> length (ses_recipients session) = 0
      then reply ''503 Need MAIL FROM and RCPT TO first'' ru
      else (case writeSMTPLine ''354 End data with <CR><LF>.<CR><LF>'' (ru_conn ru) of
          (False, c) \<Rightarrow> ru\<lparr>ru_conn := c\<rparr>
        | (True, c) \<Rightarrow>
      (case readData (sc_MaxMessageBytes (srv_config srv)) c of
          (None, c1) \<Rightarrow> ru\<lparr>ru_conn := c1\<rparr>
        | (Some (data, tooLarge), c1) \<Rightarrow>
      (let ru1 = ru\<lparr>ru_conn := c1\<rparr> in
       if tooLarge then reply ''552 Message too large'' (clear_mail ru1)
       else (case parseMessageFrom M data of
           Inl _ \<Rightarrow> reply ''553 Sender not authorized'' (clear_mail ru1)
         | Inr headerAddress \<Rightarrow>
             if \<not> addr_Equals headerAddress (ai_EmailAddress identity)
             then reply ''553 Sender not authorized'' (clear_mail ru1)
             else (let (relayStatus, ru2) = relayAcceptedMessage srv
                         \<lparr>rm_IdentityID = ai_ID identity, rm_From = ai_EmailAddress identity,
                          rm_Recipients = ses_recipients session, rm_Data = data\<rparr> ru1;
                       ru3 = clear_mail ru2 in
                   case relayStatus of
                     smtpRelayThrottled \<Rightarrow> reply ''452 Message rate limit exceeded'' ru3
                   | smtpRelayRejectedPermanent \<Rightarrow> reply ''554 Message rejected'' ru3
                   | smtpRelayRejectedTemporary \<Rightarrow> reply ''451 Requested action aborted'' ru3
                   | smtpRelayAccepted \<Rightarrow> reply ''250 Message accepted'' ru3))))))"

text \<open>One round of the command loop; \<open>False\<close> says the session ends.\<close>

definition startTLS :: "'w server \<Rightarrow> 'w run \<Rightarrow> bool \<times> 'w run" where
  "startTLS srv ru =
     (if ses_secure (ru_session ru) then (True, reply ''503 TLS already active'' ru)
      else if \<not> sc_TLSConfig (srv_config srv) then (True, reply ''454 TLS not available'' ru)
      else (case writeSMTPLine ''220 Ready to start TLS'' (ru_conn ru) of
          (False, c) \<Rightarrow> (False, ru\<lparr>ru_conn := c\<rparr>)
        | (True, c) \<Rightarrow>
            (case cn_tls c of
               None \<Rightarrow> (False, ru\<lparr>ru_conn := c\<rparr>)
             | Some (inp, later) \<Rightarrow>
                 (True, ru\<lparr>ru_conn := c\<lparr>cn_in := inp, cn_later := later\<rparr>, ru_session := new_session True\<rparr>))))"

definition handleCommand ::
  "mail_api \<Rightarrow> 'w server \<Rightarrow> string \<Rightarrow> string \<times> string \<Rightarrow> 'w run \<Rightarrow> bool \<times> 'w run" where
  "handleCommand M srv remoteHost line ru =
     (let (command, argument) = line in
      if command = ''EHLO'' \<or> command = ''HELO'' then (True, handleHello srv ru)
      else if command = ''STARTTLS'' then startTLS srv ru
      else if command = ''AUTH'' then (True, handleAuth srv argument remoteHost ru)
      else if command = ''MAIL'' then (True, handleMail M argument ru)
      else if command = ''RCPT'' then (True, handleRecipient M srv argument ru)
      else if command = ''DATA'' then (True, handleData M srv ru)
      else if command = ''RSET'' then (True, reply ''250 OK'' (clear_mail ru))
      else if command = ''NOOP'' then (True, reply ''250 OK'' ru)
      else if command = ''QUIT'' then (False, reply ''221 Bye'' ru)
      else (True, reply ''502 Command not implemented'' ru))"

partial_function (option) commandLoop ::
  "mail_api \<Rightarrow> 'w server \<Rightarrow> string \<Rightarrow> 'w run \<Rightarrow> 'w run option" where
  "commandLoop M srv remoteHost ru =
     (case ReadString (ru_conn ru) of
        (None, c) \<Rightarrow> Some (ru\<lparr>ru_conn := c\<rparr>)
      | (Some line, c) \<Rightarrow>
          (case handleCommand M srv remoteHost (splitCommand line) (ru\<lparr>ru_conn := c\<rparr>) of
             (continue, ru') \<Rightarrow> if continue then commandLoop M srv remoteHost ru' else Some ru'))"

declare commandLoop.simps [code]

definition handleConnection ::
  "mail_api \<Rightarrow> 'w server \<Rightarrow> connection \<Rightarrow> bool \<Rightarrow> string \<Rightarrow> smtpThrottle \<Rightarrow> 'w \<Rightarrow> 'w run option" where
  "handleConnection M srv c implicitTLS remoteHost throttle w =
     (case writeSMTPLine (''220 '' @ sc_Hostname (srv_config srv) @ '' Pinguin SMTP submission ready'') c of
        (False, c1) \<Rightarrow> Some \<lparr>ru_conn = c1, ru_session = new_session implicitTLS, ru_throttle = throttle, ru_world = w\<rparr>
      | (True, c1) \<Rightarrow> commandLoop M srv remoteHost
          \<lparr>ru_conn = c1, ru_session = new_session implicitTLS, ru_throttle = throttle, ru_world = w\<rparr>)"

text \<open>What \<open>Serve\<close> does with one accepted connection.\<close>

definition rejectSMTPConnection :: "connection \<Rightarrow> string \<Rightarrow> connection" where
  "rejectSMTPConnection c line = snd (writeSMTPLine line c)"

definition serveConnection ::
  "mail_api \<Rightarrow> 'w server \<Rightarrow> connection \<Rightarrow> bool \<Rightarrow> string \<Rightarrow> smtpThrottle \<Rightarrow> 'w
   \<Rightarrow> (connection \<times> smtpThrottle \<times> 'w) option" where
  "serveConnection M srv c implicitTLS remoteHost throttle w =
     (case acquireSession remoteHost throttle of
        Inl _ \<Rightarrow> Some (rejectSMTPConnection c ''421 Too many concurrent SMTP sessions'', throttle, w)
      | Inr (host, throttle1) \<Rightarrow>
          (case handleConnection M srv c implicitTLS remoteHost throttle1 w of
             None \<Rightarrow> None
           | Some ru \<Rightarrow> Some (ru_conn ru, releaseSession host (ru_throttle ru), ru_world ru)))"

subsection \<open>The text of a message\<close>

text \<open>
  The reference for \<open>readData\<close>, line by line: every line up to the terminating one, without the dot
  that was added to a line starting with a dot, and the input that follows.
\<close>

definition line_of :: "bytes \<Rightarrow> bytes" where
  "line_of inp = takeWhile (\<lambda>x. x \<noteq> LF) inp @ [LF]"

definition after_line :: "bytes \<Rightarrow> bytes" where
  "after_line inp = tl (dropWhile (\<lambda>x. x \<noteq> LF) inp)"

lemma line_split: "LF \<in> set inp \<Longrightarrow> inp = line_of inp @ after_line inp"
  unfolding line_of_def after_line_def by (induction inp) auto

lemma after_line_shorter: "LF \<in> set inp \<Longrightarrow> length (after_line inp) < length inp"
  using line_split[of inp] by (metis append_is_Nil_conv length_append less_add_same_cancel2 length_greater_0_conv line_of_def not_Cons_self2)

function message_text :: "bytes \<Rightarrow> (bytes \<times> bytes) option" where
  "message_text inp =
     (if LF \<notin> set inp then None
      else if isSMTPDataTerminator (line_of inp) then Some ([], after_line inp)
      else map_option (apfst ((@) (unstuff (line_of inp)))) (message_text (after_line inp)))"
  by pat_completeness auto
termination
  by (relation "measure length") (auto simp: after_line_shorter)

declare message_text.simps [simp del]

definition message_rest :: "bytes \<Rightarrow> (bytes \<times> bytes) option" where
  "message_rest inp =
     (if LF \<notin> set inp then None else map_option (apfst ((@) (line_of inp))) (message_text (after_line inp)))"

text \<open>How the two loop variables represent the bytes read so far.\<close>

definition holds_text :: "int \<Rightarrow> bytes \<Rightarrow> bytes \<times> bool \<Rightarrow> bool" where
  "holds_text m D acc \<longleftrightarrow>
     (if int (length D) \<le> m then acc = (D, False) else snd acc \<and> int (length (fst acc)) \<le> m)"

lemma holds_text_append: "holds_text m D acc \<Longrightarrow> holds_text m (D @ f) (appendFragment m f acc)"
  by (cases acc) (auto simp: holds_text_def appendFragment_def split: if_splits)

lemma ReadSlice_Line:
  assumes "ReadSlice inp = (Line l, rest)"
  shows "LF \<in> set inp" "l = line_of inp" "rest = after_line inp"
proof -
  let ?n = "length (takeWhile (\<lambda>x. x \<noteq> LF) inp)"
  from assms have h: "LF \<in> set (take bufio_size inp)" "l = take (Suc ?n) inp" "rest = drop (Suc ?n) inp"
    by (auto simp: ReadSlice_def Let_def split: if_splits)
  from h(1) show i: "LF \<in> set inp" by (rule in_set_takeD)
  have n: "length (line_of inp) = Suc ?n" by (simp add: line_of_def)
  show "l = line_of inp" "rest = after_line inp"
    using h(2,3) line_split[OF i] n by (metis append_eq_conv_conj)+
qed

lemma ReadSlice_full:
  assumes "ReadSlice inp = (BufferFull f, rest)"
  shows "inp = f @ rest" "length f = bufio_size" "LF \<notin> set f"
  using assms by (auto simp: ReadSlice_def Let_def split: if_splits)

lemma ReadSlice_error: "ReadSlice inp = (ReadError, rest) \<Longrightarrow> LF \<notin> set inp"
  by (auto simp: ReadSlice_def Let_def split: if_splits)

lemma line_of_full:
  assumes "LF \<notin> set f"
  shows "line_of (f @ rest) = f @ line_of rest" "after_line (f @ rest) = after_line rest"
proof -
  have "takeWhile (\<lambda>x. x \<noteq> LF) (f @ rest) = f @ takeWhile (\<lambda>x. x \<noteq> LF) rest"
    using assms by (induction f) auto
  then show "line_of (f @ rest) = f @ line_of rest" by (simp add: line_of_def)
  have "dropWhile (\<lambda>x. x \<noteq> LF) (f @ rest) = dropWhile (\<lambda>x. x \<noteq> LF) rest"
    using assms by (induction f) auto
  then show "after_line (f @ rest) = after_line rest" by (simp add: after_line_def)
qed

lemma long_line:
  assumes "length f = bufio_size"
  shows "unstuff (f @ l) = unstuff f @ l" "\<not> isSMTPDataTerminator (f @ l)"
proof -
  have f: "3 < length f" using assms by (simp add: bufio_size_def)
  then show "unstuff (f @ l) = unstuff f @ l" by (auto simp: unstuff_def nth_append)
  show "\<not> isSMTPDataTerminator (f @ l)"
  proof
    assume "isSMTPDataTerminator (f @ l)"
    then have "length (f @ l) \<le> 3" unfolding isSMTPDataTerminator_def by (elim disjE) simp_all
    with f show False by simp
  qed
qed

lemma append_append_fun: "(@) (a @ b) = (\<lambda>x. a @ b @ x)"
  by (rule ext) simp

lemma text_of_full:
  assumes "ReadSlice inp = (BufferFull f, rest)"
  shows "message_text inp = map_option (apfst ((@) (unstuff f))) (message_rest rest)"
    and "message_rest inp = map_option (apfst ((@) f)) (message_rest rest)"
proof -
  note r = ReadSlice_full[OF assms]
  note l = line_of_full[OF r(3), of rest] and s = long_line[OF r(2), of "line_of rest"]
  have i: "LF \<in> set (f @ rest) \<longleftrightarrow> LF \<in> set rest" using r(3) by simp
  have "message_text (f @ rest) = map_option (apfst ((@) (unstuff f))) (message_rest rest)"
    unfolding message_text.simps[of "f @ rest"] message_rest_def i l s(1)
    using s(2) by (simp add: option.map_comp comp_def apfst_compose append_append_fun)
  moreover have "message_rest (f @ rest) = map_option (apfst ((@) f)) (message_rest rest)"
    unfolding message_rest_def i l by (simp add: option.map_comp comp_def apfst_compose append_append_fun)
  ultimately show "message_text inp = map_option (apfst ((@) (unstuff f))) (message_rest rest)"
      "message_rest inp = map_option (apfst ((@) f)) (message_rest rest)"
    unfolding r(1) .
qed

definition loop_reads :: "int \<Rightarrow> bytes \<Rightarrow> (bytes \<times> bytes) option \<Rightarrow> (bytes \<times> bool) option \<times> bytes \<Rightarrow> bool" where
  "loop_reads m D spec r \<longleftrightarrow>
     (case spec of
        None \<Rightarrow> fst r = None
      | Some (data, rest) \<Rightarrow> \<exists>acc. r = (Some acc, rest) \<and> holds_text m (D @ data) acc)"

lemma loop_reads_shift: "loop_reads m D (map_option (apfst ((@) f)) spec) r \<longleftrightarrow> loop_reads m (D @ f) spec r"
  by (cases spec) (auto simp: loop_reads_def)

lemma readDataLoop_spec:
  "holds_text m D acc \<Longrightarrow>
     loop_reads m D (if first then message_text inp else message_rest inp) (readDataLoop m first acc inp)"
proof (induction m first acc inp arbitrary: D rule: readDataLoop.induct)
  case (1 m first acc inp)
  obtain r rest where s: "ReadSlice inp = (r, rest)" by fastforce
  let ?f = "\<lambda>x. if first then unstuff x else x"
  show ?case
  proof (cases r)
    case ReadError
    with s ReadSlice_error[of inp rest] show ?thesis
      by (simp add: readDataLoop.simps[of m first acc inp] loop_reads_def message_text.simps[of inp] message_rest_def)
  next
    case (Line l)
    note r = ReadSlice_Line[OF s[unfolded Line]]
    show ?thesis
    proof (cases "first \<and> isSMTPDataTerminator l")
      case True
      then have "readDataLoop m first acc inp = (Some acc, rest)"
        unfolding readDataLoop.simps[of m first acc inp] s Line by simp
      moreover from True r have "message_text inp = Some ([], rest)" by (simp add: message_text.simps[of inp])
      ultimately show ?thesis using 1(3) True by (cases acc) (simp add: loop_reads_def)
    next
      case False
      have "loop_reads m (D @ ?f l) (message_text rest) (readDataLoop m True (appendFragment m (?f l) acc) rest)"
        using 1(1)[OF s[symmetric] Line False holds_text_append[OF 1(3)]] by simp
      moreover have "(if first then message_text inp else message_rest inp) = map_option (apfst ((@) (?f l))) (message_text rest)"
        using False r by (auto simp: message_text.simps[of inp] message_rest_def)
      moreover have "readDataLoop m first acc inp = readDataLoop m True (appendFragment m (?f l) acc) rest"
        unfolding readDataLoop.simps[of m first acc inp] s Line using False by auto
      ultimately show ?thesis by (simp only: loop_reads_shift)
    qed
  next
    case (BufferFull f)
    have "loop_reads m (D @ ?f f) (message_rest rest) (readDataLoop m False (appendFragment m (?f f) acc) rest)"
      using 1(2)[OF s[symmetric] BufferFull holds_text_append[OF 1(3)]] by simp
    moreover have "(if first then message_text inp else message_rest inp) = map_option (apfst ((@) (?f f))) (message_rest rest)"
      using text_of_full[OF s[unfolded BufferFull]] by auto
    moreover have "readDataLoop m first acc inp = readDataLoop m False (appendFragment m (?f f) acc) rest"
      unfolding readDataLoop.simps[of m first acc inp] s BufferFull by simp
    ultimately show ?thesis by (simp only: loop_reads_shift)
  qed
qed

text \<open>C27. \<open>readData\<close> reads exactly one message: the lines up to the first that is a single dot,
  with stuffed dots removed, whatever their length and however they fall into the 4096 byte
  buffer. A message above the limit is reported as too large, not cut; its buffer stays within the
  limit, and the input continues after the terminating line either way.\<close>

theorem read_data_spec:
  assumes "0 \<le> m"
  shows "case message_text (cn_in c) of
      None \<Rightarrow> readData m c = (None, read_fails c)
    | Some (text, rest) \<Rightarrow> \<exists>buffer. readData m c = (Some (buffer, m < int (length text)), c\<lparr>cn_in := rest\<rparr>)
        \<and> int (length buffer) \<le> m \<and> (int (length text) \<le> m \<longrightarrow> buffer = text)"
proof -
  have "loop_reads m [] (message_text (cn_in c)) (readDataLoop m True ([], False) (cn_in c))"
    using readDataLoop_spec[of m "[]" "([], False)" True "cn_in c"] assms by (simp add: holds_text_def)
  then show ?thesis
    by (auto simp: loop_reads_def readData_def holds_text_def split: option.splits prod.splits if_splits)
qed

theorem read_data_spec_witness:
  "\<exists>buffer. readData 100 \<lparr>cn_in = ''..a'' @ CRLF @ ''.'' @ CRLF @ ''QUIT'', cn_later = [], cn_tls = None, cn_out = [], cn_writes = None\<rparr> =
     (Some (buffer, False), \<lparr>cn_in = ''QUIT'', cn_later = [], cn_tls = None, cn_out = [], cn_writes = None\<rparr>) \<and> buffer = ''.a'' @ CRLF"
proof -
  have t: "message_text (''..a'' @ CRLF @ ''.'' @ CRLF @ ''QUIT'') = Some (''.a'' @ CRLF, ''QUIT'')"
    by code_simp
  show ?thesis
    using read_data_spec[of 100 "\<lparr>cn_in = ''..a'' @ CRLF @ ''.'' @ CRLF @ ''QUIT'', cn_later = [], cn_tls = None, cn_out = [], cn_writes = None\<rparr>"]
    unfolding connection.simps t by simp
qed

end
