(* ===== verification/Smtp_Forwarding.thy ===== *)
theory Smtp_Forwarding
  imports Smtp_Submission "HOL-Library.AList"
begin

text \<open>
  Inbound forwarding (\<open>internal/smtpforwarding\<close>): forwarding routes (\<open>types.go\<close>), the rewriting
  of a forwarded message (\<open>relay.go\<close>) and the SMTP server that accepts mail for routed mailboxes
  (\<open>server.go\<close>). The server shares the connection, the line reader and the reader of a message
  with the submission server, whose code for them is the same. A Go map that is iterated is an
  association list with one entry per key. The route resolver, the forwarder and the sender of raw
  mail read and change a world; \<open>net/mail\<close> is an argument: the parser of address lists and
  \<open>mail.Address.String\<close>, given the display name and the address.
\<close>

subsection \<open>Routes\<close>

definition ErrInvalidRoute :: go_error where
  "ErrInvalidRoute = ErrorsNew ''smtp_forwarding.route.invalid''"

definition ErrForwardTemporary :: go_error where
  "ErrForwardTemporary = ErrorsNew ''smtp_forwarding.forward_temporary''"

record reverse_path =
  rvp_address :: address

record forward_message =
  fm_From :: reverse_path
  fm_Recipients :: "address list"
  fm_Data :: bytes

definition NewReversePath :: "mail_api \<Rightarrow> string \<Rightarrow> reverse_path result" where
  "NewReversePath M rawAddress =
     (let trimmedAddress = TrimSpace rawAddress in
      if trimmedAddress = '''' then Inr \<lparr>rvp_address = no_address\<rparr>
      else (case NewAddress M trimmedAddress of
          Inl addressErr \<Rightarrow> Inl addressErr
        | Inr address \<Rightarrow> Inr \<lparr>rvp_address = address\<rparr>))"

definition rvp_IsNull :: "reverse_path \<Rightarrow> bool" where
  "rvp_IsNull reversePath \<longleftrightarrow> addr_value (rvp_address reversePath) = ''''"

definition rvp_String :: "reverse_path \<Rightarrow> string" where
  "rvp_String reversePath = addr_value (rvp_address reversePath)"

definition rvp_Address :: "reverse_path \<Rightarrow> address option" where
  "rvp_Address reversePath = (if rvp_IsNull reversePath then None else Some (rvp_address reversePath))"

record route =
  rt_address :: address
  rt_forwardTo :: "address list"

fun routeRecipientsLoop :: "string set \<Rightarrow> address list \<Rightarrow> address list result" where
  "routeRecipientsLoop seenRecipients [] = Inr []"
| "routeRecipientsLoop seenRecipients (recipient # rest) =
     (if addr_value recipient = '''' then Inl (Errorf '''' ErrInvalidRoute '': forward recipient is required'')
      else let recipientKey = addr_value recipient in
        if recipientKey \<in> seenRecipients
        then Inl (Errorf '''' ErrInvalidRoute ('': duplicate forward recipient '' @ recipientKey))
        else (case routeRecipientsLoop (insert recipientKey seenRecipients) rest of
            Inl e \<Rightarrow> Inl e
          | Inr recipients \<Rightarrow> Inr (recipient # recipients)))"

definition NewRoute :: "address \<Rightarrow> address list \<Rightarrow> route result" where
  "NewRoute address forwardTo =
     (if addr_value address = '''' then Inl (Errorf '''' ErrInvalidRoute '': address is required'')
      else (case routeRecipientsLoop {} forwardTo of
          Inl e \<Rightarrow> Inl e
        | Inr recipients \<Rightarrow>
            if length recipients = 0 then Inl (Errorf '''' ErrInvalidRoute '': forward recipients are required'')
            else Inr \<lparr>rt_address = address, rt_forwardTo = recipients\<rparr>))"

definition ForwardRecipientStrings :: "route \<Rightarrow> string list" where
  "ForwardRecipientStrings route = map addr_value (rt_forwardTo route)"

type_synonym route_map = "(string \<times> route) list"

fun routeSetLoop :: "route_map \<Rightarrow> route list \<Rightarrow> route_map result" where
  "routeSetLoop routesByAddress [] = Inr routesByAddress"
| "routeSetLoop routesByAddress (route # rest) =
     (let routeKey = addr_value (rt_address route) in
      if routeKey = '''' then Inl (Errorf '''' ErrInvalidRoute '': address is required'')
      else if map_of routesByAddress routeKey \<noteq> None then Inl (Errorf '''' ErrInvalidRoute ('': duplicate route '' @ routeKey))
      else routeSetLoop (AList.update routeKey route routesByAddress) rest)"

definition NewRouteSet :: "route list \<Rightarrow> route_map result" where
  "NewRouteSet routes =
     (case routeSetLoop [] routes of
        Inl e \<Rightarrow> Inl e
      | Inr routesByAddress \<Rightarrow>
          if length routesByAddress = 0 then Inl (Errorf '''' ErrInvalidRoute '': routes are required'')
          else Inr routesByAddress)"

type_synonym 'w route_resolver = "address \<Rightarrow> ('w, route option) io"
type_synonym 'w forwarder = "route \<Rightarrow> forward_message \<Rightarrow> ('w, unit) io"

definition routeset_Resolve :: "route_map \<Rightarrow> 'w route_resolver" where
  "routeset_Resolve rs address = io_return (map_of rs (addr_value address))"

text \<open>\<open>RouteSet.Routes\<close> and \<open>sessionState.routes\<close>: the values of the map in the order of the keys.\<close>

definition sorted_routes :: "route_map \<Rightarrow> route list" where
  "sorted_routes m = map (\<lambda>routeKey. the (map_of m routeKey)) (sort_by (\<le>) (map fst m))"

definition Routes :: "route_map \<Rightarrow> route list" where
  "Routes rs = sorted_routes rs"

subsection \<open>Messages\<close>

record orderedMessageHeader =
  mh_name :: string
  mh_value :: string

record orderedForwardedMessage =
  fwm_headers :: "orderedMessageHeader list"
  fwm_body :: bytes

text \<open>\<open>textproto.CanonicalMIMEHeaderKey\<close>: a name with a byte that is not a token character stays as it is.\<close>

definition token_byte :: "char \<Rightarrow> bool" where
  "token_byte c \<longleftrightarrow>
     (let n = (of_char c :: nat) in
      (48 \<le> n \<and> n \<le> 57) \<or> (65 \<le> n \<and> n \<le> 90) \<or> (97 \<le> n \<and> n \<le> 122)
      \<or> c \<in> {CHR ''!'', CHR ''#'', CHR ''$'', CHR ''%'', CHR ''&'', CHR 0x27, CHR ''*'', CHR ''+'', CHR ''-'', CHR ''.'',
              CHR ''^'', CHR ''_'', CHR 0x60, CHR ''|'', CHR ''~''})"

fun canonical_key :: "bool \<Rightarrow> string \<Rightarrow> string" where
  "canonical_key upper [] = []"
| "canonical_key upper (c # s) =
     (let c' = (if upper then upper_byte c else lower_byte c) in c' # canonical_key (c' = CHR ''-'') s)"

definition CanonicalMIMEHeaderKey :: "string \<Rightarrow> string" where
  "CanonicalMIMEHeaderKey s = (if list_all token_byte s then canonical_key True s else s)"

definition headerFrom :: string where "headerFrom = ''From''"
definition headerReplyTo :: string where "headerReplyTo = ''Reply-To''"
definition headerXOriginalFrom :: string where "headerXOriginalFrom = ''X-Pinguin-Original-From''"

definition forwardingRewriteDroppedHeaders :: "string list" where
  "forwardingRewriteDroppedHeaders =
     map CanonicalMIMEHeaderKey
       [''ARC-Authentication-Results'', ''ARC-Message-Signature'', ''ARC-Seal'', ''Authentication-Results'', ''Bcc'',
        ''DKIM-Signature'', ''DomainKey-Signature'', headerFrom, headerReplyTo, ''Return-Path'', ''Sender'', headerXOriginalFrom]"

definition sanitizedHeaderValue :: "string \<Rightarrow> string" where
  "sanitizedHeaderValue headerValue =
     TrimSpace (map (\<lambda>c. if c = CHR 0x0D \<or> c = CHR 0x0A then CHR '' '' else c) headerValue)"

definition writeMessageHeader :: "string \<Rightarrow> string \<Rightarrow> bytes" where
  "writeMessageHeader headerName headerValue =
     TrimSpace headerName @ '': '' @ sanitizedHeaderValue headerValue @ CRLF"

definition validHeaderName :: "string \<Rightarrow> bool" where
  "validHeaderName headerName \<longleftrightarrow>
     headerName \<noteq> '''' \<and> list_all (\<lambda>c. \<not> ((of_char c :: nat) \<le> 32 \<or> 127 \<le> (of_char c :: nat) \<or> c = CHR '':'')) headerName"

fun firstHeaderValue :: "orderedMessageHeader list \<Rightarrow> string \<Rightarrow> string" where
  "firstHeaderValue [] headerName = ''''"
| "firstHeaderValue (messageHeader # rest) headerName =
     (if CanonicalMIMEHeaderKey (mh_name messageHeader) = CanonicalMIMEHeaderKey headerName
      then sanitizedHeaderValue (mh_value messageHeader) else firstHeaderValue rest headerName)"

definition hasHeader :: "orderedMessageHeader list \<Rightarrow> string \<Rightarrow> bool" where
  "hasHeader headers headerName \<longleftrightarrow>
     list_ex (\<lambda>h. CanonicalMIMEHeaderKey (mh_name h) = CanonicalMIMEHeaderKey headerName) headers"

definition splitMessageHeadersAndBody :: "bytes \<Rightarrow> (bytes \<times> bytes) result" where
  "splitMessageHeadersAndBody rawMessage =
     (case Index rawMessage (CRLF @ CRLF) of
        Some splitIndex \<Rightarrow> Inr (take splitIndex rawMessage, drop (splitIndex + 4) rawMessage)
      | None \<Rightarrow>
          (case Index rawMessage [LF, LF] of
             Some splitIndex \<Rightarrow> Inr (take splitIndex rawMessage, drop (splitIndex + 2) rawMessage)
           | None \<Rightarrow> Inl (ErrorsNew ''message header terminator is required'')))"

text \<open>The loop of \<open>parseOrderedHeaders\<close>; the headers read so far, the last one first.\<close>

fun orderedHeadersLoop :: "orderedMessageHeader list \<Rightarrow> string list \<Rightarrow> orderedMessageHeader list result" where
  "orderedHeadersLoop headers [] = Inr (rev headers)"
| "orderedHeadersLoop headers (rawLine # rest) =
     (let line = TrimSuffix rawLine [CHR 0x0D] in
      if HasPrefix line '' '' \<or> HasPrefix line [CHR 0x09] then
        (case headers of
           [] \<Rightarrow> Inl (ErrorsNew ''message header continuation without header'')
         | h # hs \<Rightarrow> orderedHeadersLoop (h\<lparr>mh_value := mh_value h @ CRLF @ line\<rparr> # hs) rest)
      else (case Index line '':'' of
          None \<Rightarrow> Inl (ErrorsNew (''malformed message header line '' @ Quote line))
        | Some nameEnd \<Rightarrow>
            if nameEnd = 0 then Inl (ErrorsNew (''malformed message header line '' @ Quote line))
            else let headerName = TrimSpace (take nameEnd line) in
              if \<not> validHeaderName headerName then Inl (ErrorsNew (''invalid message header name '' @ Quote headerName))
              else orderedHeadersLoop (\<lparr>mh_name = headerName, mh_value = TrimSpace (drop (nameEnd + 1) line)\<rparr> # headers) rest))"

definition parseOrderedHeaders :: "bytes \<Rightarrow> orderedMessageHeader list result" where
  "parseOrderedHeaders headerBlock =
     (if length headerBlock = 0 then Inr [] else orderedHeadersLoop [] (Split headerBlock LF))"

definition parseOrderedForwardedMessage :: "bytes \<Rightarrow> orderedForwardedMessage result" where
  "parseOrderedForwardedMessage rawMessage =
     (case splitMessageHeadersAndBody rawMessage of
        Inl splitErr \<Rightarrow> Inl splitErr
      | Inr (headerBlock, body) \<Rightarrow>
          (case parseOrderedHeaders headerBlock of
             Inl headerErr \<Rightarrow> Inl headerErr
           | Inr headers \<Rightarrow> Inr \<lparr>fwm_headers = headers, fwm_body = body\<rparr>))"

type_synonym address_format = "string \<Rightarrow> string \<Rightarrow> string"

definition forwardedFromHeader :: "mail_api \<Rightarrow> address_format \<Rightarrow> route \<Rightarrow> string \<Rightarrow> string" where
  "forwardedFromHeader M format route originalFrom =
     (let trimmedOriginalFrom = TrimSpace originalFrom;
          routeAddress = addr_value (rt_address route) in
      if trimmedOriginalFrom = '''' then routeAddress
      else (case mail_ParseAddressList M trimmedOriginalFrom of
          None \<Rightarrow> format trimmedOriginalFrom routeAddress
        | Some [] \<Rightarrow> format trimmedOriginalFrom routeAddress
        | Some ((name, addr) # _) \<Rightarrow>
            let displayName = TrimSpace name in
            format (if displayName = '''' then addr else displayName) routeAddress))"

definition writeForwardingIdentityHeaders :: "mail_api \<Rightarrow> address_format \<Rightarrow> route \<Rightarrow> string \<Rightarrow> string \<Rightarrow> bytes" where
  "writeForwardingIdentityHeaders M format route originalFrom replyTo =
     writeMessageHeader headerFrom (forwardedFromHeader M format route originalFrom)
     @ (if replyTo \<noteq> '''' then writeMessageHeader headerReplyTo replyTo else [])
     @ (if originalFrom \<noteq> '''' then writeMessageHeader headerXOriginalFrom originalFrom else [])"

fun rewriteHeadersLoop :: "bytes \<Rightarrow> bool \<Rightarrow> orderedMessageHeader list \<Rightarrow> bytes" where
  "rewriteHeadersLoop identityHeaders replacementWritten [] = []"
| "rewriteHeadersLoop identityHeaders replacementWritten (messageHeader # rest) =
     (let canonicalHeaderName = CanonicalMIMEHeaderKey (mh_name messageHeader) in
      if canonicalHeaderName = CanonicalMIMEHeaderKey headerFrom \<and> \<not> replacementWritten
      then identityHeaders @ rewriteHeadersLoop identityHeaders True rest
      else if canonicalHeaderName \<in> set forwardingRewriteDroppedHeaders
      then rewriteHeadersLoop identityHeaders replacementWritten rest
      else writeMessageHeader (mh_name messageHeader) (mh_value messageHeader)
             @ rewriteHeadersLoop identityHeaders replacementWritten rest)"

text \<open>The body is read from a \<open>bytes.Reader\<close>, which does not fail.\<close>

definition rewriteParsedForwardedMessage ::
  "mail_api \<Rightarrow> address_format \<Rightarrow> route \<Rightarrow> orderedForwardedMessage \<Rightarrow> bytes" where
  "rewriteParsedForwardedMessage M format route parsedMessage =
     (let originalFrom = firstHeaderValue (fwm_headers parsedMessage) headerFrom;
          originalReplyTo = firstHeaderValue (fwm_headers parsedMessage) headerReplyTo;
          replyTo = (if originalReplyTo = '''' then originalFrom else originalReplyTo);
          identityHeaders = writeForwardingIdentityHeaders M format route originalFrom replyTo;
          missing = \<not> hasHeader (fwm_headers parsedMessage) headerFrom in
      (if missing then identityHeaders else [])
      @ rewriteHeadersLoop identityHeaders missing (fwm_headers parsedMessage) @ CRLF @ fwm_body parsedMessage)"

definition rewriteForwardedMessage :: "mail_api \<Rightarrow> address_format \<Rightarrow> route \<Rightarrow> bytes \<Rightarrow> bytes result" where
  "rewriteForwardedMessage M format route rawMessage =
     (case parseOrderedForwardedMessage rawMessage of
        Inl parseErr \<Rightarrow> Inl (Errorf ''parse message headers: '' parseErr '''')
      | Inr parsedMessage \<Rightarrow> Inr (rewriteParsedForwardedMessage M format route parsedMessage))"

subsection \<open>The relay forwarder\<close>

type_synonym 'w raw_email_sender = "string \<Rightarrow> string list \<Rightarrow> bytes \<Rightarrow> ('w, unit) io"

record 'w relay_forwarder =
  rf_sender :: "'w raw_email_sender"

definition NewRelayForwarder :: "'w raw_email_sender option \<Rightarrow> bool \<Rightarrow> 'w relay_forwarder result" where
  "NewRelayForwarder sender logger =
     (case sender of
        None \<Rightarrow> Inl (ErrorsNew ''smtp forwarding: raw email sender is required'')
      | Some s \<Rightarrow>
          if \<not> logger then Inl (ErrorsNew ''smtp forwarding: logger is required'') else Inr \<lparr>rf_sender = s\<rparr>)"

definition relay_Forward :: "mail_api \<Rightarrow> address_format \<Rightarrow> 'w relay_forwarder \<Rightarrow> 'w forwarder" where
  "relay_Forward M format rf route message =
     (let rewrittenMessage = (case rewriteForwardedMessage M format route (fm_Data message) of
            Inl _ \<Rightarrow> fm_Data message | Inr data \<Rightarrow> data);
          routeAddress = addr_value (rt_address route) in
      io_wrap (\<lambda>forwardErr. Errorf '''' ErrForwardTemporary ('': route '' @ routeAddress @ '': '' @ err_text forwardErr))
        (rf_sender rf routeAddress (ForwardRecipientStrings route) rewrittenMessage))"

subsection \<open>The server\<close>

record 'w forwarding_config =
  fc_Hostname :: string
  fc_ListenAddr :: string
  fc_MaxMessageBytes :: int
  fc_MaxRecipients :: int
  fc_CommandTimeout :: duration
  fc_MaxConcurrentSessions :: int
  fc_MaxSessionsPerRemoteHost :: int
  fc_RouteResolver :: "'w route_resolver option"
  fc_Forwarder :: "'w forwarder option"
  fc_Logger :: bool

record 'w forwarding_server =
  fsv_config :: "'w forwarding_config"
  fsv_resolve :: "'w route_resolver"
  fsv_forward :: "'w forwarder"

definition forwardingDefaults :: "'w forwarding_config \<Rightarrow> 'w forwarding_config" where
  "forwardingDefaults cfg = cfg\<lparr>
     fc_MaxMessageBytes := or_default (fc_MaxMessageBytes cfg) (25 * 1024 * 1024),
     fc_MaxRecipients := or_default (fc_MaxRecipients cfg) 100,
     fc_CommandTimeout := or_default (fc_CommandTimeout cfg) (2 * 60 * second),
     fc_MaxConcurrentSessions := or_default (fc_MaxConcurrentSessions cfg) 200,
     fc_MaxSessionsPerRemoteHost := or_default (fc_MaxSessionsPerRemoteHost cfg) 20\<rparr>"

definition forwarding_NewServer :: "'w forwarding_config \<Rightarrow> ('w forwarding_server \<times> sessionLimiter) result" where
  "forwarding_NewServer cfg =
     (if TrimSpace (fc_Hostname cfg) = '''' then Inl (ErrorsNew ''smtp forwarding: hostname is required'')
      else if TrimSpace (fc_ListenAddr cfg) = '''' then Inl (ErrorsNew ''smtp forwarding: listen addr is required'')
      else case fc_RouteResolver cfg of
        None \<Rightarrow> Inl (ErrorsNew ''smtp forwarding: route resolver is required'')
      | Some resolve \<Rightarrow>
     (case fc_Forwarder cfg of
        None \<Rightarrow> Inl (ErrorsNew ''smtp forwarding: forwarder is required'')
      | Some forward \<Rightarrow>
      if \<not> fc_Logger cfg then Inl (ErrorsNew ''smtp forwarding: logger is required'')
      else let c = forwardingDefaults cfg in
        Inr (\<lparr>fsv_config = c, fsv_resolve = resolve, fsv_forward = forward\<rparr>,
             newSessionLimiter (fc_MaxConcurrentSessions c) (fc_MaxSessionsPerRemoteHost c))))"

record forwarding_session =
  fws_mailFrom :: "reverse_path option"
  fws_recipients :: "address list"
  fws_routesByAddress :: route_map

definition newSessionState :: forwarding_session where
  "newSessionState = \<lparr>fws_mailFrom = None, fws_recipients = [], fws_routesByAddress = []\<rparr>"

record 'w forwarding_run =
  fw_conn :: connection
  fw_session :: forwarding_session
  fw_world :: 'w

definition forwarding_reply :: "string \<Rightarrow> 'w forwarding_run \<Rightarrow> 'w forwarding_run" where
  "forwarding_reply line ru = ru\<lparr>fw_conn := snd (writeSMTPLine line (fw_conn ru))\<rparr>"

definition session_reset :: "'w forwarding_run \<Rightarrow> 'w forwarding_run" where
  "session_reset ru = ru\<lparr>fw_session := newSessionState\<rparr>"

definition forwarding_handleHello :: "'w forwarding_server \<Rightarrow> 'w forwarding_run \<Rightarrow> 'w forwarding_run" where
  "forwarding_handleHello srv ru =
     foldl (\<lambda>ru line. forwarding_reply line ru) ru
       [''250-'' @ fc_Hostname (fsv_config srv), ''250-SIZE '' @ Itoa (fc_MaxMessageBytes (fsv_config srv)), ''250 OK'']"

text \<open>The value of an SMTP path and whether it stood in angle brackets.\<close>

definition extractSMTPPath :: "string \<Rightarrow> string \<Rightarrow> (string \<times> bool) result" where
  "extractSMTPPath argument expectedPrefix =
     (let trimmedArgument = TrimSpace argument in
      if \<not> HasPrefix (ToUpper trimmedArgument) expectedPrefix then Inl (ErrorsNew ''missing smtp path prefix'')
      else let path = TrimSpace (drop (length expectedPrefix) trimmedArgument) in
      if HasPrefix path ''<'' then
        (case Index path ''>'' of
           None \<Rightarrow> Inl (ErrorsNew ''unterminated smtp path'')
         | Some endIndex \<Rightarrow> Inr (drop 1 (take endIndex path), True))
      else (case Fields path of [] \<Rightarrow> Inr (path, False) | field # _ \<Rightarrow> Inr (field, False)))"

definition forwarding_parseSMTPPath :: "mail_api \<Rightarrow> string \<Rightarrow> string \<Rightarrow> address result" where
  "forwarding_parseSMTPPath M argument expectedPrefix =
     (case extractSMTPPath argument expectedPrefix of Inl e \<Rightarrow> Inl e | Inr (pathValue, bracketed) \<Rightarrow> NewAddress M pathValue)"

definition parseSMTPReversePath :: "mail_api \<Rightarrow> string \<Rightarrow> string \<Rightarrow> reverse_path result" where
  "parseSMTPReversePath M argument expectedPrefix =
     (case extractSMTPPath argument expectedPrefix of
        Inl e \<Rightarrow> Inl e
      | Inr (pathValue, bracketed) \<Rightarrow>
          if pathValue = '''' \<and> \<not> bracketed then Inl (ErrorsNew ''missing smtp reverse path'')
          else NewReversePath M pathValue)"

definition forwarding_handleMail :: "mail_api \<Rightarrow> string \<Rightarrow> 'w forwarding_run \<Rightarrow> 'w forwarding_run" where
  "forwarding_handleMail M argument ru =
     (case parseSMTPReversePath M argument ''FROM:'' of
        Inl _ \<Rightarrow> forwarding_reply ''501 Invalid sender'' ru
      | Inr reversePath \<Rightarrow>
          forwarding_reply ''250 OK''
            (ru\<lparr>fw_session := \<lparr>fws_mailFrom = Some reversePath, fws_recipients = [], fws_routesByAddress = []\<rparr>\<rparr>))"

definition forwarding_handleRecipient ::
  "mail_api \<Rightarrow> 'w forwarding_server \<Rightarrow> string \<Rightarrow> 'w forwarding_run \<Rightarrow> 'w forwarding_run" where
  "forwarding_handleRecipient M srv argument ru =
     (let session = fw_session ru in
      if fws_mailFrom session = None then forwarding_reply ''503 Need MAIL FROM first'' ru
      else if int (length (fws_recipients session)) \<ge> fc_MaxRecipients (fsv_config srv)
      then forwarding_reply ''452 Too many recipients'' ru
      else (case forwarding_parseSMTPPath M argument ''TO:'' of
          Inl _ \<Rightarrow> forwarding_reply ''501 Invalid recipient'' ru
        | Inr address \<Rightarrow>
            (case fsv_resolve srv address (fw_world ru) of
               (Inl routeErr, w) \<Rightarrow> forwarding_reply ''451 Requested action aborted'' (ru\<lparr>fw_world := w\<rparr>)
             | (Inr None, w) \<Rightarrow> forwarding_reply ''550 Recipient not configured'' (ru\<lparr>fw_world := w\<rparr>)
             | (Inr (Some route), w) \<Rightarrow>
                 forwarding_reply ''250 OK''
                   (ru\<lparr>fw_world := w, fw_session := session\<lparr>
                        fws_recipients := fws_recipients session @ [address],
                        fws_routesByAddress := AList.update (addr_value (rt_address route)) route (fws_routesByAddress session)\<rparr>\<rparr>))))"

definition session_routes :: "forwarding_session \<Rightarrow> route list" where
  "session_routes session = sorted_routes (fws_routesByAddress session)"

definition forwardRoutes :: "'w forwarding_server \<Rightarrow> route list \<Rightarrow> forward_message \<Rightarrow> ('w, unit) io" where
  "forwardRoutes srv routes message = io_each (\<lambda>route. fsv_forward srv route message) routes"

definition forwarding_readData :: "'w forwarding_server \<Rightarrow> connection \<Rightarrow> (bytes \<times> bool) option \<times> connection" where
  "forwarding_readData srv c = readData (fc_MaxMessageBytes (fsv_config srv)) c"

definition forwarding_handleData :: "'w forwarding_server \<Rightarrow> 'w forwarding_run \<Rightarrow> 'w forwarding_run" where
  "forwarding_handleData srv ru =
     (let session = fw_session ru in
      case fws_mailFrom session of
        None \<Rightarrow> forwarding_reply ''503 Need MAIL FROM and RCPT TO first'' ru
      | Some mailFrom \<Rightarrow>
      if length (fws_recipients session) = 0 then forwarding_reply ''503 Need MAIL FROM and RCPT TO first'' ru
      else (case writeSMTPLine ''354 End data with <CR><LF>.<CR><LF>'' (fw_conn ru) of
          (False, c) \<Rightarrow> ru\<lparr>fw_conn := c\<rparr>
        | (True, c) \<Rightarrow>
      (case forwarding_readData srv c of
          (None, c1) \<Rightarrow> ru\<lparr>fw_conn := c1\<rparr>
        | (Some (data, tooLarge), c1) \<Rightarrow>
            if tooLarge then forwarding_reply ''552 Message too large'' (session_reset (ru\<lparr>fw_conn := c1\<rparr>))
            else (case forwardRoutes srv (session_routes session)
                     \<lparr>fm_From = mailFrom, fm_Recipients = fws_recipients session, fm_Data = data\<rparr> (fw_world ru) of
                (forwardErr, w) \<Rightarrow>
                  (let ru1 = session_reset (ru\<lparr>fw_conn := c1, fw_world := w\<rparr>) in
                   case forwardErr of
                     Inl _ \<Rightarrow> forwarding_reply ''451 Requested action aborted'' ru1
                   | Inr _ \<Rightarrow> forwarding_reply ''250 Message accepted for forwarding'' ru1)))))"

definition forwarding_handleCommand ::
  "mail_api \<Rightarrow> 'w forwarding_server \<Rightarrow> string \<times> string \<Rightarrow> 'w forwarding_run \<Rightarrow> bool \<times> 'w forwarding_run" where
  "forwarding_handleCommand M srv line ru =
     (let (command, argument) = line in
      if command = ''EHLO'' \<or> command = ''HELO'' then (True, forwarding_handleHello srv ru)
      else if command = ''MAIL'' then (True, forwarding_handleMail M argument ru)
      else if command = ''RCPT'' then (True, forwarding_handleRecipient M srv argument ru)
      else if command = ''DATA'' then (True, forwarding_handleData srv ru)
      else if command = ''RSET'' then (True, forwarding_reply ''250 OK'' (session_reset ru))
      else if command = ''NOOP'' then (True, forwarding_reply ''250 OK'' ru)
      else if command = ''QUIT'' then (False, forwarding_reply ''221 Bye'' ru)
      else if command = ''AUTH'' \<or> command = ''STARTTLS'' then (True, forwarding_reply ''502 Command not implemented'' ru)
      else (True, forwarding_reply ''502 Command not implemented'' ru))"

definition forwarding_splitCommand :: "string \<Rightarrow> string \<times> string" where
  "forwarding_splitCommand line = splitCommand line"

partial_function (option) forwarding_commandLoop ::
  "mail_api \<Rightarrow> 'w forwarding_server \<Rightarrow> 'w forwarding_run \<Rightarrow> 'w forwarding_run option" where
  "forwarding_commandLoop M srv ru =
     (case ReadString (fw_conn ru) of
        (None, c) \<Rightarrow> Some (ru\<lparr>fw_conn := c\<rparr>)
      | (Some line, c) \<Rightarrow>
          (case forwarding_handleCommand M srv (forwarding_splitCommand line) (ru\<lparr>fw_conn := c\<rparr>) of
             (continue, ru') \<Rightarrow> if continue then forwarding_commandLoop M srv ru' else Some ru'))"

declare forwarding_commandLoop.simps [code]

definition forwarding_handleConnection ::
  "mail_api \<Rightarrow> 'w forwarding_server \<Rightarrow> connection \<Rightarrow> 'w \<Rightarrow> 'w forwarding_run option" where
  "forwarding_handleConnection M srv c w =
     (case writeSMTPLine (''220 '' @ fc_Hostname (fsv_config srv) @ '' Pinguin SMTP forwarding ready'') c of
        (False, c1) \<Rightarrow> Some \<lparr>fw_conn = c1, fw_session = newSessionState, fw_world = w\<rparr>
      | (True, c1) \<Rightarrow> forwarding_commandLoop M srv \<lparr>fw_conn = c1, fw_session = newSessionState, fw_world = w\<rparr>)"

text \<open>What \<open>Serve\<close> does with one accepted connection.\<close>

definition forwarding_serveConnection ::
  "mail_api \<Rightarrow> 'w forwarding_server \<Rightarrow> connection \<Rightarrow> string \<Rightarrow> sessionLimiter \<Rightarrow> 'w \<Rightarrow> (connection \<times> sessionLimiter \<times> 'w) option" where
  "forwarding_serveConnection M srv c remoteHost limiter w =
     (case limiter_acquire remoteHost limiter of
        Inl _ \<Rightarrow> Some (snd (writeSMTPLine ''421 Too many concurrent SMTP sessions'' c), limiter, w)
      | Inr (host, limiter1) \<Rightarrow>
          (case forwarding_handleConnection M srv c w of
             None \<Rightarrow> None
           | Some ru \<Rightarrow> Some (fw_conn ru, limiter_release host limiter1, fw_world ru)))"

end
