(* ===== verification/Forwarding_Rewrite.thy ===== *)
theory Forwarding_Rewrite
  imports Smtp_Forwarding
begin

text \<open>
  What the rewriting of a forwarded message does. \<open>rewritten_headers\<close> describes the headers of the
  copy without the writer: the identity headers of the route take the place of the first \<open>From\<close>
  header, or the front, and the other headers stay in order unless they are dropped. The copy is
  proved to parse to exactly these headers with the body unchanged, so that no value of the
  original message can add a header or move the boundary to the body.
\<close>

subsection \<open>Searching past text\<close>

lemma Index_skip:
  assumes "\<forall>c \<in> set s. c \<noteq> p"
  shows "Index (s @ t) (p # ps) = map_option (\<lambda>n. length s + n) (Index t (p # ps))"
  using assms by (induction s; cases "Index t (p # ps)") auto

lemma TrimSpace_space: "TrimSpace (CHR '' '' # s) = TrimSpace s"
proof -
  have "rune_at space_runes (CHR '' '' # s) = Some [CHR '' '']" by (simp add: rune_at_def space_runes_def)
  then have "trim_runes space_runes (CHR '' '' # s) = trim_runes space_runes s" by (simp add: trim_runes.simps[of _ "CHR '' '' # s"])
  then show ?thesis by (simp add: TrimSpace_def)
qed

definition one_line_text :: "string \<Rightarrow> bool" where
  "one_line_text s \<longleftrightarrow> CHR 0x0D \<notin> set s \<and> LF \<notin> set s"

fun lines_text :: "string list \<Rightarrow> string" where
  "lines_text [] = []"
| "lines_text [l] = l"
| "lines_text (l # ls) = l @ CRLF @ lines_text ls"

lemma Index_end_of_lines:
  assumes "ls \<noteq> []" "\<forall>l \<in> set ls. one_line_text l \<and> l \<noteq> []"
  shows "Index (lines_text ls @ CRLF @ CRLF @ body) (CRLF @ CRLF) = Some (length (lines_text ls))"
  using assms
proof (induction ls rule: lines_text.induct)
  case (2 l)
  then have "\<forall>c \<in> set l. c \<noteq> CHR 0x0D" by (auto simp: one_line_text_def)
  from Index_skip[OF this, of "CRLF @ CRLF @ body" "LF # CRLF"] show ?case by simp
next
  case (3 l m ls)
  then obtain x m' where m: "m = x # m'" "x \<noteq> CHR 0x0D" by (cases m) (auto simp: one_line_text_def)
  then obtain rest where r: "lines_text (m # ls) @ CRLF @ CRLF @ body = x # rest" by (cases ls) auto
  have "Index (l @ CRLF @ x # rest) (CHR 0x0D # LF # CRLF) = map_option (\<lambda>n. length l + n) (Index (CRLF @ x # rest) (CHR 0x0D # LF # CRLF))"
    using 3(3) by (intro Index_skip) (auto simp: one_line_text_def)
  also have "Index (CRLF @ x # rest) (CHR 0x0D # LF # CRLF) = map_option (\<lambda>n. Suc (Suc n)) (Index (x # rest) (CHR 0x0D # LF # CRLF))"
    using m(2) by (simp add: option.map_comp comp_def del: Index.simps(2)) (simp add: option.map_comp comp_def)
  also have "Index (x # rest) (CHR 0x0D # LF # CRLF) = Some (length (lines_text (m # ls)))"
    using 3(1,3) r by simp
  finally show ?case using r by simp
qed simp

lemma Split_lines_text:
  assumes "ls \<noteq> []" "\<forall>l \<in> set ls. one_line_text l"
  shows "Split (lines_text ls) LF = map (\<lambda>l. l @ [CHR 0x0D]) (butlast ls) @ [last ls]"
  using assms
proof (induction ls rule: lines_text.induct)
  case (2 l)
  then show ?case by (simp add: Split_absent one_line_text_def)
next
  case (3 l m ls)
  have skip: "LF \<notin> set a \<Longrightarrow> Split (a @ LF # b) LF = a # Split b LF" for a b
    by (induction a) auto
  from skip[of "l @ [CHR 0x0D]" "lines_text (m # ls)"] 3 show ?case by (simp add: one_line_text_def)
qed simp

subsection \<open>Headers that can be written\<close>

definition header_ok :: "orderedMessageHeader \<Rightarrow> bool" where
  "header_ok h \<longleftrightarrow> validHeaderName (mh_name h) \<and> one_line_text (mh_value h) \<and> trimmed (mh_value h)"

definition header_line :: "orderedMessageHeader \<Rightarrow> string" where
  "header_line h = mh_name h @ '': '' @ mh_value h"

lemma validHeaderName_bytes:
  assumes "validHeaderName s" "c \<in> set s"
  shows "32 < (of_char c :: nat)" "(of_char c :: nat) < 127" "c \<noteq> CHR '':''"
  using assms by (auto simp: validHeaderName_def list_all_iff not_le)

lemma validHeaderName_trimmed:
  assumes "validHeaderName s"
  shows "trimmed s"
proof (rule trimmed_no_space_bytes)
  have "\<forall>c \<in> set space_bytes. \<not> (32 < (of_char c :: nat) \<and> (of_char c :: nat) < 127)"
    by (simp add: space_bytes_def space_runes_def)
  with validHeaderName_bytes(1,2)[OF assms] show "set s \<inter> set space_bytes = {}" by blast
qed

lemma header_line_ok:
  assumes "header_ok h"
  shows "one_line_text (header_line h)" "header_line h \<noteq> []"
proof -
  have "c \<noteq> CHR 0x0D \<and> c \<noteq> LF" if "c \<in> set (mh_name h)" for c
    using validHeaderName_bytes(1)[of "mh_name h" c] assms that by (auto simp: header_ok_def)
  with assms show "one_line_text (header_line h)" by (auto simp: header_line_def header_ok_def one_line_text_def)
  show "header_line h \<noteq> []" by (simp add: header_line_def)
qed

lemma TrimSuffix_line: "one_line_text l \<Longrightarrow> TrimSuffix l [CHR 0x0D] = l" "TrimSuffix (l @ [CHR 0x0D]) [CHR 0x0D] = l"
  by (auto simp: TrimSuffix_def one_line_text_def suffix_def)

lemma loop_header:
  assumes "header_ok h" "TrimSuffix raw [CHR 0x0D] = header_line h"
  shows "orderedHeadersLoop hs (raw # rest) = orderedHeadersLoop (h # hs) rest"
proof -
  have v: "validHeaderName (mh_name h)" using assms(1) by (simp add: header_ok_def)
  then obtain x xs where x: "mh_name h = x # xs" by (cases "mh_name h") (auto simp: validHeaderName_def)
  have "32 < (of_char x :: nat)" using validHeaderName_bytes(1)[OF v] x by simp
  then have "x \<noteq> CHR '' ''" "x \<noteq> CHR 0x09" by auto
  then have p: "\<not> HasPrefix (header_line h) '' ''" "\<not> HasPrefix (header_line h) [CHR 0x09]"
    by (simp_all add: HasPrefix_def header_line_def x)
  have i: "Index (header_line h) '':'' = Some (length (mh_name h))"
    using Index_skip[of "mh_name h" "CHR '':''" "'': '' @ mh_value h" "[]"] validHeaderName_bytes(3)[OF v]
    by (auto simp: header_line_def)
  have "TrimSpace (drop (length (mh_name h) + 1) (header_line h)) = mh_value h"
    using assms(1) by (simp add: header_line_def TrimSpace_space TrimSpace_id header_ok_def)
  moreover have "TrimSpace (take (length (mh_name h)) (header_line h)) = mh_name h"
    using validHeaderName_trimmed[OF v] by (simp add: header_line_def TrimSpace_id)
  ultimately have "orderedHeadersLoop hs (raw # rest) = orderedHeadersLoop (\<lparr>mh_name = mh_name h, mh_value = mh_value h\<rparr> # hs) rest"
    using assms(2) p i v x by simp
  then show ?thesis by (cases h) simp
qed

lemma loop_headers:
  assumes "\<forall>h \<in> set hs. header_ok h" "list_all2 (\<lambda>raw h. TrimSuffix raw [CHR 0x0D] = header_line h) raws hs"
  shows "orderedHeadersLoop acc raws = Inr (rev acc @ hs)"
  using assms
proof (induction hs arbitrary: acc raws)
  case (Cons h hs)
  then obtain raw raws' where "raws = raw # raws'" "TrimSuffix raw [CHR 0x0D] = header_line h"
    "list_all2 (\<lambda>raw h. TrimSuffix raw [CHR 0x0D] = header_line h) raws' hs" by (auto simp: list_all2_Cons2)
  with Cons loop_header[of h raw acc raws'] show ?case by (simp del: orderedHeadersLoop.simps)
qed simp

definition headers_text :: "orderedMessageHeader list \<Rightarrow> bytes" where
  "headers_text hs = concat (map (\<lambda>h. header_line h @ CRLF) hs)"

lemma headers_text_lines: "hs \<noteq> [] \<Longrightarrow> headers_text hs = lines_text (map header_line hs) @ CRLF"
proof (induction hs)
  case (Cons h hs)
  then show ?case by (cases hs) (simp_all add: headers_text_def)
qed simp

text \<open>Writing well-formed headers and parsing the text gives them back.\<close>

lemma parse_headers_text:
  assumes "hs \<noteq> []" "\<forall>h \<in> set hs. header_ok h"
  shows "parseOrderedForwardedMessage (headers_text hs @ CRLF @ body) = Inr \<lparr>fwm_headers = hs, fwm_body = body\<rparr>"
proof -
  let ?ls = "map header_line hs"
  have ls: "?ls \<noteq> []" "\<forall>l \<in> set ?ls. one_line_text l \<and> l \<noteq> []" "\<forall>l \<in> set ?ls. one_line_text l"
    using assms header_line_ok by auto
  have "Index (lines_text ?ls @ CRLF @ CRLF @ body) (CRLF @ CRLF) = Some (length (lines_text ?ls))"
    by (rule Index_end_of_lines[OF ls(1,2)])
  then have s: "splitMessageHeadersAndBody (headers_text hs @ CRLF @ body) = Inr (lines_text ?ls, body)"
    unfolding headers_text_lines[OF assms(1)] splitMessageHeadersAndBody_def by simp
  have "list_all2 (\<lambda>raw h. TrimSuffix raw [CHR 0x0D] = header_line h) (Split (lines_text ?ls) LF) hs"
  proof -
    have sp: "Split (lines_text ?ls) LF = map (\<lambda>h. header_line h @ [CHR 0x0D]) (butlast hs) @ [header_line (last hs)]"
      using Split_lines_text[OF ls(1,3)] assms(1) by (simp add: map_butlast[symmetric] last_map)
    have "list_all2 (\<lambda>raw h. TrimSuffix raw [CHR 0x0D] = header_line h)
        (map (\<lambda>h. header_line h @ [CHR 0x0D]) (butlast hs) @ [header_line (last hs)]) (butlast hs @ [last hs])"
      using ls(3) assms(1) by (intro list_all2_appendI) (simp_all add: list_all2_map1 list_all2_same TrimSuffix_line)
    then show ?thesis unfolding sp using assms(1) by simp
  qed
  from loop_headers[OF assms(2) this, of "[]"] have "orderedHeadersLoop [] (Split (lines_text ?ls) LF) = Inr hs" by simp
  moreover have "lines_text ?ls \<noteq> []" using ls(1,2) by (cases ?ls rule: lines_text.cases) auto
  ultimately show ?thesis using s by (simp add: parseOrderedForwardedMessage_def parseOrderedHeaders_def)
qed

subsection \<open>The headers of the copy\<close>

lemma sanitized_ok: "one_line_text (sanitizedHeaderValue s)" "trimmed (sanitizedHeaderValue s)"
proof -
  have "set (sanitizedHeaderValue s) \<subseteq> set (map (\<lambda>c. if c = CHR 0x0D \<or> c = CHR 0x0A then CHR '' '' else c) s)"
    unfolding sanitizedHeaderValue_def by (rule set_TrimSpace)
  then show "one_line_text (sanitizedHeaderValue s)" by (auto simp: one_line_text_def split: if_splits)
  show "trimmed (sanitizedHeaderValue s)" by (simp add: sanitizedHeaderValue_def)
qed

definition clean_header :: "string \<Rightarrow> string \<Rightarrow> orderedMessageHeader" where
  "clean_header name val = \<lparr>mh_name = name, mh_value = sanitizedHeaderValue val\<rparr>"

lemma clean_header_ok: "validHeaderName name \<Longrightarrow> header_ok (clean_header name val)"
  by (simp add: header_ok_def clean_header_def sanitized_ok)

lemma writeMessageHeader_text: "validHeaderName name \<Longrightarrow> writeMessageHeader name val = headers_text [clean_header name val]"
  by (simp add: writeMessageHeader_def headers_text_def header_line_def clean_header_def TrimSpace_id validHeaderName_trimmed)

lemma headers_text_append: "headers_text (a @ b) = headers_text a @ headers_text b"
  by (simp add: headers_text_def)

definition is_from :: "orderedMessageHeader \<Rightarrow> bool" where
  "is_from h \<longleftrightarrow> CanonicalMIMEHeaderKey (mh_name h) = CanonicalMIMEHeaderKey headerFrom"

definition is_dropped :: "orderedMessageHeader \<Rightarrow> bool" where
  "is_dropped h \<longleftrightarrow> CanonicalMIMEHeaderKey (mh_name h) \<in> set forwardingRewriteDroppedHeaders"

definition kept_headers :: "orderedMessageHeader list \<Rightarrow> orderedMessageHeader list" where
  "kept_headers hs = map (\<lambda>h. clean_header (mh_name h) (mh_value h)) (filter (\<lambda>h. \<not> is_dropped h) hs)"

definition identity_headers :: "mail_api \<Rightarrow> address_format \<Rightarrow> route \<Rightarrow> orderedMessageHeader list \<Rightarrow> orderedMessageHeader list" where
  "identity_headers M format route hs =
     (let sender = firstHeaderValue hs headerFrom;
          reply = (if firstHeaderValue hs headerReplyTo = '''' then sender else firstHeaderValue hs headerReplyTo) in
      [clean_header headerFrom (forwardedFromHeader M format route sender)]
      @ (if reply = '''' then [] else [clean_header headerReplyTo reply])
      @ (if sender = '''' then [] else [clean_header headerXOriginalFrom sender]))"

definition rewritten_headers :: "mail_api \<Rightarrow> address_format \<Rightarrow> route \<Rightarrow> orderedMessageHeader list \<Rightarrow> orderedMessageHeader list" where
  "rewritten_headers M format route hs =
     (if \<exists>h \<in> set hs. is_from h
      then kept_headers (takeWhile (\<lambda>h. \<not> is_from h) hs) @ identity_headers M format route hs
           @ kept_headers (dropWhile (\<lambda>h. \<not> is_from h) hs)
      else identity_headers M format route hs @ kept_headers hs)"

lemma own_names: "validHeaderName headerFrom" "validHeaderName headerReplyTo" "validHeaderName headerXOriginalFrom"
  by (simp_all add: validHeaderName_def headerFrom_def headerReplyTo_def headerXOriginalFrom_def)

lemma from_is_dropped: "is_from h \<Longrightarrow> is_dropped h"
  by (simp add: is_from_def is_dropped_def forwardingRewriteDroppedHeaders_def)

lemma headers_text_Nil: "headers_text [] = []"
  by (simp add: headers_text_def)

lemma kept_headers_Nil: "kept_headers [] = []"
  by (simp add: kept_headers_def)

lemma kept_headers_Cons:
  "kept_headers (h # hs) = (if is_dropped h then [] else [clean_header (mh_name h) (mh_value h)]) @ kept_headers hs"
  by (simp add: kept_headers_def)

lemma rewriteHeadersLoop_replaced:
  "\<forall>h \<in> set hs. validHeaderName (mh_name h) \<Longrightarrow> rewriteHeadersLoop ids True hs = headers_text (kept_headers hs)"
proof (induction hs)
  case (Cons h hs)
  have "rewriteHeadersLoop ids True (h # hs) =
      (if is_dropped h then [] else writeMessageHeader (mh_name h) (mh_value h)) @ rewriteHeadersLoop ids True hs"
    by (simp add: is_dropped_def)
  also have "writeMessageHeader (mh_name h) (mh_value h) = headers_text [clean_header (mh_name h) (mh_value h)]"
    using Cons.prems by (simp add: writeMessageHeader_text)
  also have "rewriteHeadersLoop ids True hs = headers_text (kept_headers hs)" using Cons by simp
  finally show ?case by (simp add: kept_headers_Cons headers_text_append headers_text_Nil)
qed (simp add: kept_headers_def headers_text_def)

lemma rewriteHeadersLoop_text:
  assumes "\<forall>h \<in> set hs. validHeaderName (mh_name h)" "\<exists>h \<in> set hs. is_from h"
  shows "rewriteHeadersLoop ids False hs =
    headers_text (kept_headers (takeWhile (\<lambda>h. \<not> is_from h) hs)) @ ids @ headers_text (kept_headers (dropWhile (\<lambda>h. \<not> is_from h) hs))"
  using assms
proof (induction hs)
  case (Cons h hs)
  show ?case
  proof (cases "is_from h")
    case True
    have "rewriteHeadersLoop ids False (h # hs) = ids @ headers_text (kept_headers hs)"
      using True Cons.prems rewriteHeadersLoop_replaced[of hs ids] by (simp add: is_from_def)
    with True from_is_dropped[OF True] show ?thesis by (simp add: kept_headers_Cons kept_headers_Nil headers_text_Nil)
  next
    case False
    then have "rewriteHeadersLoop ids False (h # hs) =
        (if is_dropped h then [] else writeMessageHeader (mh_name h) (mh_value h)) @ rewriteHeadersLoop ids False hs"
      by (simp add: is_dropped_def is_from_def)
    also have "writeMessageHeader (mh_name h) (mh_value h) = headers_text [clean_header (mh_name h) (mh_value h)]"
      using Cons.prems by (simp add: writeMessageHeader_text)
    also have "rewriteHeadersLoop ids False hs = headers_text (kept_headers (takeWhile (\<lambda>h. \<not> is_from h) hs)) @ ids
        @ headers_text (kept_headers (dropWhile (\<lambda>h. \<not> is_from h) hs))"
      using Cons False by simp
    finally show ?thesis using False by (simp add: kept_headers_Cons headers_text_append headers_text_Nil)
  qed
qed simp

lemma parsed_names_valid:
  "orderedHeadersLoop acc lines = Inr hs \<Longrightarrow> \<forall>h \<in> set acc. validHeaderName (mh_name h) \<Longrightarrow> \<forall>h \<in> set hs. validHeaderName (mh_name h)"
  by (induction acc lines rule: orderedHeadersLoop.induct)
    (auto simp: Let_def split: if_splits option.splits list.splits)

lemma parsed_message_names:
  "parseOrderedForwardedMessage raw = Inr msg \<Longrightarrow> \<forall>h \<in> set (fwm_headers msg). validHeaderName (mh_name h)"
  using parsed_names_valid[of "[]"]
  by (auto simp: parseOrderedForwardedMessage_def parseOrderedHeaders_def split: sum.splits prod.splits if_splits)

lemma identity_headers_text:
  "writeForwardingIdentityHeaders M format route (firstHeaderValue hs headerFrom)
     (if firstHeaderValue hs headerReplyTo = '''' then firstHeaderValue hs headerFrom else firstHeaderValue hs headerReplyTo)
   = headers_text (identity_headers M format route hs)"
  by (simp add: writeForwardingIdentityHeaders_def identity_headers_def Let_def writeMessageHeader_text own_names headers_text_def)

lemma rewrite_text:
  assumes "\<forall>h \<in> set (fwm_headers msg). validHeaderName (mh_name h)"
  shows "rewriteParsedForwardedMessage M format route msg =
    headers_text (rewritten_headers M format route (fwm_headers msg)) @ CRLF @ fwm_body msg"
proof (cases "\<exists>h \<in> set (fwm_headers msg). is_from h")
  case True
  then have "hasHeader (fwm_headers msg) headerFrom" by (simp add: hasHeader_def list_ex_iff is_from_def)
  with rewriteHeadersLoop_text[OF assms True] True show ?thesis
    by (simp add: rewriteParsedForwardedMessage_def identity_headers_text rewritten_headers_def headers_text_append Let_def)
next
  case False
  then have "\<not> hasHeader (fwm_headers msg) headerFrom" by (simp add: hasHeader_def list_ex_iff is_from_def)
  with rewriteHeadersLoop_replaced[OF assms] False show ?thesis
    by (simp add: rewriteParsedForwardedMessage_def identity_headers_text rewritten_headers_def headers_text_append Let_def)
qed

lemma rewritten_headers_ok:
  assumes "\<forall>h \<in> set hs. validHeaderName (mh_name h)"
  shows "\<forall>h \<in> set (rewritten_headers M format route hs). header_ok h" "rewritten_headers M format route hs \<noteq> []"
proof -
  have k: "\<forall>h \<in> set (kept_headers xs). header_ok h" if "set xs \<subseteq> set hs" for xs
    using assms that by (auto simp: kept_headers_def clean_header_ok)
  have i: "\<forall>h \<in> set (identity_headers M format route hs). header_ok h"
    by (simp add: identity_headers_def Let_def clean_header_ok own_names)
  have "set (takeWhile (\<lambda>h. \<not> is_from h) hs) \<subseteq> set hs" "set (dropWhile (\<lambda>h. \<not> is_from h) hs) \<subseteq> set hs"
    by (auto dest: set_takeWhileD set_dropWhileD)
  with k i show "\<forall>h \<in> set (rewritten_headers M format route hs). header_ok h"
    unfolding rewritten_headers_def by (auto split: if_splits)
  show "rewritten_headers M format route hs \<noteq> []" by (simp add: rewritten_headers_def identity_headers_def Let_def)
qed

lemma clean_name [simp]: "mh_name (clean_header n v) = n"
  by (simp add: clean_header_def)

lemma one_from:
  "filter is_from (rewritten_headers M format route hs) =
     [clean_header headerFrom (forwardedFromHeader M format route (firstHeaderValue hs headerFrom))]"
proof -
  have k: "filter is_from (kept_headers xs) = []" for xs
    using from_is_dropped by (auto simp: kept_headers_def filter_empty_conv is_from_def is_dropped_def forwardingRewriteDroppedHeaders_def)
  have "CanonicalMIMEHeaderKey headerReplyTo \<noteq> CanonicalMIMEHeaderKey headerFrom"
    "CanonicalMIMEHeaderKey headerXOriginalFrom \<noteq> CanonicalMIMEHeaderKey headerFrom" by code_simp+
  then have "filter is_from (identity_headers M format route hs) =
      [clean_header headerFrom (forwardedFromHeader M format route (firstHeaderValue hs headerFrom))]"
    by (simp add: identity_headers_def Let_def is_from_def)
  with k show ?thesis by (simp add: rewritten_headers_def)
qed


definition sample_api :: mail_api where
  "sample_api =
     \<lparr>mail_ParseAddress = (\<lambda>s. Some ('''', s)), mail_ParseAddressList = (\<lambda>s. Some [('''', s)]), mail_HeaderFrom = (\<lambda>data. None)\<rparr>"

definition sample_format :: address_format where
  "sample_format name addr = [CHR 0x22] @ name @ [CHR 0x22] @ '' <'' @ addr @ ''>''"

definition sample_route :: route where
  "sample_route = \<lparr>rt_address = \<lparr>addr_value = ''r@p'', addr_domain = ''p''\<rparr>, rt_forwardTo = [\<lparr>addr_value = ''c@d'', addr_domain = ''d''\<rparr>]\<rparr>"

definition sample_mail :: bytes where
  "sample_mail = ''DKIM-Signature: s'' @ CRLF @ ''From: x@y'' @ CRLF @ ''Subject: t'' @ CRLF @ CRLF @ ''hi''"


end
