(* ===== verification/Submission_Session.thy ===== *)
theory Submission_Session
  imports Smtp_Submission
begin

text \<open>
  What an SMTP submission session guarantees. A session always ends, because every round of the
  command loop takes input from the peer (measure \<open>session_size\<close>). Over a world that is the
  history of the calls of the authenticator and of the relay, the session invariant gives who may
  send what: only the mailbox of an identity that the authenticator accepted in this session, over
  an encrypted connection, within the limits of the configuration, and with an acknowledgement
  exactly for what the relay took.
\<close>

subsection \<open>A session takes its input\<close>

definition stream_size :: "bytes \<Rightarrow> bytes list \<Rightarrow> nat" where
  "stream_size inp later = length inp + sum_list (map (\<lambda>s. Suc (length s)) later)"

definition conn_le :: "connection \<Rightarrow> connection \<Rightarrow> bool" where
  "conn_le c' c \<longleftrightarrow> stream_size (cn_in c') (cn_later c') \<le> stream_size (cn_in c) (cn_later c) \<and> cn_tls c' = cn_tls c"

lemma conn_le_refl [simp]: "conn_le c c"
  by (simp add: conn_le_def)

lemma conn_le_trans [trans]: "conn_le a b \<Longrightarrow> conn_le b c \<Longrightarrow> conn_le a c"
  by (simp add: conn_le_def)

lemma write_le: "writeSMTPLine l c = (b, c') \<Longrightarrow> conn_le c' c"
  by (auto simp: writeSMTPLine_def conn_le_def split: option.splits nat.splits)

lemma read_fails_le [simp]: "conn_le (read_fails c) c"
  by (auto simp: read_fails_def conn_le_def stream_size_def split: list.splits)

lemma ReadString_line:
  assumes "ReadString c = (Some l, c')"
  shows "stream_size (cn_in c') (cn_later c') < stream_size (cn_in c) (cn_later c)" "cn_tls c' = cn_tls c"
proof -
  from assms obtain x rest where d: "dropWhile (\<lambda>x. x \<noteq> LF) (cn_in c) = x # rest" "c' = c\<lparr>cn_in := rest\<rparr>"
    by (auto simp: ReadString_def split: list.splits)
  have "length (dropWhile (\<lambda>x. x \<noteq> LF) (cn_in c)) \<le> length (cn_in c)" by (rule length_dropWhile_le)
  then show "stream_size (cn_in c') (cn_later c') < stream_size (cn_in c) (cn_later c)" "cn_tls c' = cn_tls c"
    using d by (simp_all add: stream_size_def)
qed

lemma ReadString_le:
  assumes "ReadString c = (r, c')"
  shows "conn_le c' c"
proof (cases "dropWhile (\<lambda>x. x \<noteq> LF) (cn_in c)")
  case Nil
  with assms have "c' = read_fails c" by (simp add: ReadString_def del: dropWhile_eq_Nil_conv)
  then show ?thesis by simp
next
  case (Cons x rest)
  with assms obtain l where "ReadString c = (Some l, c')" by (simp add: ReadString_def)
  from ReadString_line[OF this] show ?thesis by (simp add: conn_le_def)
qed

lemma readDataLoop_le: "length (snd (readDataLoop m first acc inp)) \<le> length inp"
proof (induction m first acc inp rule: readDataLoop.induct)
  case (1 m first acc inp)
  obtain r rest where s: "ReadSlice inp = (r, rest)" by fastforce
  show ?case
  proof (cases r)
    case ReadError
    with s show ?thesis by (auto simp: readDataLoop.simps[of m first acc inp] ReadSlice_def Let_def split: if_splits)
  next
    case (Line l)
    have "length rest < length inp" using ReadSlice_shorter[OF s] Line by simp
    with 1(1)[OF s[symmetric] Line] show ?thesis
      unfolding readDataLoop.simps[of m first acc inp] s Line by (cases "first \<and> isSMTPDataTerminator l") auto
  next
    case (BufferFull f)
    have "length rest < length inp" using ReadSlice_shorter[OF s] BufferFull by simp
    with 1(2)[OF s[symmetric] BufferFull] show ?thesis
      by (simp add: readDataLoop.simps[of m first acc inp] s BufferFull)
  qed
qed

lemma readData_le: "readData m c = (r, c') \<Longrightarrow> conn_le c' c"
  using readDataLoop_le[of m True "([], False)" "cn_in c"]
  by (auto simp: readData_def conn_le_def stream_size_def read_fails_def split: prod.splits option.splits list.splits)

subsection \<open>What a handler does to the connection\<close>

text \<open>
  The handlers only write lines and read input. A relation between connections that each of these
  operations respects is therefore respected by a whole handler; only the line that acknowledges
  a message is excepted.
\<close>

definition accepted_line :: string where
  "accepted_line = ''250 Message accepted''"

definition sessions_of :: "smtpThrottle \<Rightarrow> int \<times> (string \<rightharpoonup> int)" where
  "sessions_of t = (activeSessions t, activeSessionsByHost t)"

definition run_rel :: "(connection \<Rightarrow> connection \<Rightarrow> bool) \<Rightarrow> 'w run \<Rightarrow> 'w run \<Rightarrow> bool" where
  "run_rel rel ru' ru \<longleftrightarrow>
     rel (ru_conn ru') (ru_conn ru) \<and> ses_secure (ru_session ru') = ses_secure (ru_session ru)
     \<and> sessions_of (ru_throttle ru') = sessions_of (ru_throttle ru)"

lemma run_rel_clear [simp]: "run_rel rel (clear_mail ru') ru = run_rel rel ru' ru"
  by (simp add: clear_mail_def run_rel_def)

lemma completeAuthAttempt_frame:
  "completeAuthAttempt srv host cr ru = (st, ru') \<Longrightarrow>
     ru_conn ru' = ru_conn ru \<and> ru_session ru' = ru_session ru \<and> sessions_of (ru_throttle ru') = sessions_of (ru_throttle ru)"
  by (auto simp: completeAuthAttempt_def reserveAuthAttempt_def auth_accept_def clearAuthFailures_def sessions_of_def Let_def
      split: prod.splits option.splits if_splits sum.splits)

lemma relayAcceptedMessage_frame:
  "relayAcceptedMessage srv m ru = (st, ru') \<Longrightarrow>
     ru_conn ru' = ru_conn ru \<and> ru_session ru' = ru_session ru \<and> sessions_of (ru_throttle ru') = sessions_of (ru_throttle ru)"
  by (auto simp: relayAcceptedMessage_def reserveAcceptedMessage_def message_cancel_def cancelMessageReservation_def
      sessions_of_def Let_def split: prod.splits option.splits if_splits sum.splits)

text \<open>
  \<open>handleData\<close> answers at once, or reads a message; \<open>handleData_cases\<close> is the case distinction
  the proofs about it share.
\<close>

definition data_message :: "authenticated_identity \<Rightarrow> address list \<Rightarrow> bytes \<Rightarrow> raw_message" where
  "data_message identity recipients data =
     \<lparr>rm_IdentityID = ai_ID identity, rm_From = ai_EmailAddress identity, rm_Recipients = recipients, rm_Data = data\<rparr>"

definition data_reply :: "smtpRelayStatus \<Rightarrow> string" where
  "data_reply st =
     (case st of smtpRelayThrottled \<Rightarrow> ''452 Message rate limit exceeded''
      | smtpRelayRejectedPermanent \<Rightarrow> ''554 Message rejected''
      | smtpRelayRejectedTemporary \<Rightarrow> ''451 Requested action aborted''
      | smtpRelayAccepted \<Rightarrow> accepted_line)"

lemma handleData_cases:
  obtains (refused) "handleData M srv ru = reply ''503 Need MAIL FROM and RCPT TO first'' ru"
  | (unread) b c where "writeSMTPLine ''354 End data with <CR><LF>.<CR><LF>'' (ru_conn ru) = (b, c)"
      "handleData M srv ru = ru\<lparr>ru_conn := c\<rparr>"
  | (ended) b c0 d c where "writeSMTPLine ''354 End data with <CR><LF>.<CR><LF>'' (ru_conn ru) = (b, c0)"
      "readData (sc_MaxMessageBytes (srv_config srv)) c0 = (d, c)" "handleData M srv ru = ru\<lparr>ru_conn := c\<rparr>"
  | (rejected) b c0 d c l where "writeSMTPLine ''354 End data with <CR><LF>.<CR><LF>'' (ru_conn ru) = (b, c0)"
      "readData (sc_MaxMessageBytes (srv_config srv)) c0 = (d, c)"
      "l = ''552 Message too large'' \<or> l = ''553 Sender not authorized''"
      "handleData M srv ru = reply l (clear_mail (ru\<lparr>ru_conn := c\<rparr>))"
  | (relayed) identity data header b c0 c st ru' where
      "writeSMTPLine ''354 End data with <CR><LF>.<CR><LF>'' (ru_conn ru) = (b, c0)"
      "readData (sc_MaxMessageBytes (srv_config srv)) c0 = (Some (data, False), c)"
      "ses_authenticated (ru_session ru) = Some identity" "ses_recipients (ru_session ru) \<noteq> []"
      "parseMessageFrom M data = Inr header" "addr_Equals header (ai_EmailAddress identity)"
      "relayAcceptedMessage srv (data_message identity (ses_recipients (ru_session ru)) data) (ru\<lparr>ru_conn := c\<rparr>) = (st, ru')"
      "handleData M srv ru = reply (data_reply st) (clear_mail ru')"
proof -
  let ?s = "ru_session ru"
  obtain b c0 where w: "writeSMTPLine ''354 End data with <CR><LF>.<CR><LF>'' (ru_conn ru) = (b, c0)" by fastforce
  obtain d c where r: "readData (sc_MaxMessageBytes (srv_config srv)) c0 = (d, c)" by fastforce
  show thesis
  proof (cases "ses_authenticated ?s = None \<or> ses_mailFrom ?s = None \<or> ses_recipients ?s = []")
    case True
    then have "handleData M srv ru = reply ''503 Need MAIL FROM and RCPT TO first'' ru"
      by (cases "ses_authenticated ?s") (simp_all add: handleData_def)
    then show thesis by (rule refused)
  next
    case False
    then obtain i a where s: "ses_authenticated ?s = Some i" "ses_mailFrom ?s = Some a" "ses_recipients ?s \<noteq> []" by auto
    note u = handleData_def[of M srv ru, unfolded Let_def s(1) w option.case prod.case r]
    consider "\<not> b" | "b" "d = None" | data large where "b" "d = Some (data, large)" by (cases b; cases d) auto
    then show thesis
    proof cases
      case 1
      with s u unread[OF w] show thesis by simp
    next
      case 2
      with s u ended[OF w r] show thesis by simp
    next
      case (3 data large)
      show thesis
      proof (cases "\<not> large \<and> (\<exists>h. parseMessageFrom M data = Inr h \<and> addr_Equals h (ai_EmailAddress i))")
        case False
        then have "\<exists>l. (l = ''552 Message too large'' \<or> l = ''553 Sender not authorized'')
            \<and> handleData M srv ru = reply l (clear_mail (ru\<lparr>ru_conn := c\<rparr>))"
          using s u 3 by (cases "parseMessageFrom M data") auto
        then show thesis using rejected[OF w r] by auto
      next
        case True
        then obtain h where h: "parseMessageFrom M data = Inr h" "addr_Equals h (ai_EmailAddress i)" by blast
        obtain st ru' where m: "relayAcceptedMessage srv (data_message i (ses_recipients ?s) data) (ru\<lparr>ru_conn := c\<rparr>) = (st, ru')"
          by fastforce
        have "handleData M srv ru = reply (data_reply st) (clear_mail ru')"
          using s u 3 h True m[unfolded data_message_def] by (cases st) (simp_all add: data_reply_def accepted_line_def)
        with relayed[OF w _ s(1,3) h m] r 3 True show thesis by simp
      qed
    qed
  qed
qed

locale connection_relation =
  fixes rel :: "connection \<Rightarrow> connection \<Rightarrow> bool"
  assumes rel_refl: "rel c c"
    and rel_trans: "rel a b \<Longrightarrow> rel b c \<Longrightarrow> rel a c"
    and rel_write: "l \<noteq> accepted_line \<Longrightarrow> writeSMTPLine l c = (ok, c') \<Longrightarrow> rel c' c"
    and rel_ReadString: "ReadString c = (r, c') \<Longrightarrow> rel c' c"
    and rel_readData: "readData m c = (d, c') \<Longrightarrow> rel c' c"
begin

lemma rel_prompt: "writeSMTPLine (''334 '' @ s) c = (b, c') \<Longrightarrow> rel c' c"
  by (rule rel_write) (simp_all add: accepted_line_def)

lemma rel_prompt0: "writeSMTPLine ''334 '' c = (b, c') \<Longrightarrow> rel c' c"
  using rel_prompt[of "[]"] by simp

lemma rel_readPlainAuth: "readPlainAuth payload c = (r, c') \<Longrightarrow> rel c' c"
  by (auto simp: readPlainAuth_def Let_def split: if_splits prod.splits bool.splits option.splits
      dest!: rel_prompt0 rel_ReadString intro: rel_trans rel_refl)

lemma rel_readPassword: "readPassword payload c = (r, c') \<Longrightarrow> rel c' c"
  by (auto simp only: readPassword_def rel_refl prod.inject split: prod.splits bool.splits option.splits
      dest!: rel_prompt rel_ReadString intro: rel_trans)

lemma rel_readLoginAuth: "readLoginAuth payload c = (r, c') \<Longrightarrow> rel c' c"
  by (auto simp only: readLoginAuth_def Let_def rel_refl prod.inject split: if_splits prod.splits bool.splits option.splits
      dest!: rel_prompt rel_ReadString rel_readPassword intro: rel_trans)

lemma run_refl: "run_rel rel ru ru"
  by (simp add: run_rel_def rel_refl)

lemma run_conn: "run_rel rel (ru\<lparr>ru_conn := c\<rparr>) ru = rel c (ru_conn ru)"
  by (simp add: run_rel_def)

lemma run_reply:
  assumes "run_rel rel ru' ru" "l \<noteq> accepted_line"
  shows "run_rel rel (reply l ru') ru"
proof -
  obtain b c where w: "writeSMTPLine l (ru_conn ru') = (b, c)" by fastforce
  from rel_trans[OF rel_write[OF assms(2) w], of "ru_conn ru"] assms(1) w show ?thesis
    by (simp add: reply_def run_rel_def)
qed

lemma run_hello: "run_rel rel (handleHello srv ru) ru"
proof -
  have "\<forall>l \<in> set ls. l \<noteq> accepted_line \<Longrightarrow> run_rel rel (foldl (\<lambda>ru line. reply line ru) ru ls) ru" for ls
    by (induction ls rule: rev_induct) (simp_all add: run_reply run_refl)
  moreover have "\<forall>l \<in> set (helloLines cfg b). l \<noteq> accepted_line" for cfg :: "'a submission_config" and b
    by (auto simp: helloLines_def accepted_line_def)
  ultimately show ?thesis by (simp add: handleHello_def)
qed

lemma run_auth: "run_rel rel (handleAuth srv argument host ru) ru"
proof -
  obtain mech payload where a: "splitAuthArgument argument = (mech, payload)" by fastforce
  obtain cr c where c: "(if mech = ''PLAIN'' then readPlainAuth payload (ru_conn ru) else readLoginAuth payload (ru_conn ru)) = (cr, c)"
    by fastforce
  obtain st ru1 where r: "completeAuthAttempt srv host cr (ru\<lparr>ru_conn := c\<rparr>) = (st, ru1)" by fastforce
  from c have "rel c (ru_conn ru)" by (auto split: if_splits dest: rel_readPlainAuth rel_readLoginAuth)
  with completeAuthAttempt_frame[OF r] have le: "run_rel rel ru1 ru" by (simp add: run_rel_def)
  then have "run_rel rel (ru1\<lparr>ru_session := (ru_session ru1)\<lparr>ses_authenticated := x\<rparr>\<rparr>) ru" for x
    by (simp add: run_rel_def)
  with le show ?thesis
    unfolding handleAuth_def Let_def a prod.case c r
    by (cases st) (simp_all add: run_reply run_refl accepted_line_def)
qed

lemma run_mail: "run_rel rel (handleMail M argument ru) ru"
proof -
  have "run_rel rel (ru\<lparr>ru_session := (ru_session ru)\<lparr>ses_mailFrom := x, ses_recipients := y\<rparr>\<rparr>) ru" for x y
    by (simp add: run_rel_def rel_refl)
  then show ?thesis
    unfolding handleMail_def by (simp add: run_reply run_refl accepted_line_def split: option.split sum.split)
qed

lemma run_recipient: "run_rel rel (handleRecipient M srv argument ru) ru"
proof -
  have "run_rel rel (ru\<lparr>ru_session := (ru_session ru)\<lparr>ses_recipients := y\<rparr>\<rparr>) ru" for y
    by (simp add: run_rel_def rel_refl)
  then show ?thesis
    unfolding handleRecipient_def Let_def by (simp add: run_reply run_refl accepted_line_def split: sum.split)
qed

lemma rel_open: "writeSMTPLine ''354 End data with <CR><LF>.<CR><LF>'' c = (b, c') \<Longrightarrow> rel c' c"
  by (erule rel_write[rotated]) (simp add: accepted_line_def)

lemma rel_read: "writeSMTPLine ''354 End data with <CR><LF>.<CR><LF>'' c = (b, c0) \<Longrightarrow> readData m c0 = (d, c') \<Longrightarrow> rel c' c"
  using rel_trans rel_open rel_readData by blast

lemma run_relayed:
  assumes "writeSMTPLine ''354 End data with <CR><LF>.<CR><LF>'' (ru_conn ru) = (b, c0)" "readData m c0 = (d, c)"
    and "relayAcceptedMessage srv x (ru\<lparr>ru_conn := c\<rparr>) = (st, ru')"
  shows "run_rel rel ru' ru"
proof -
  note rel_read[OF assms(1,2)]
  with relayAcceptedMessage_frame[OF assms(3)] show ?thesis by (simp add: run_rel_def)
qed

lemma run_data:
  obtains "run_rel rel (handleData M srv ru) ru"
  | ru' where "run_rel rel ru' ru" "handleData M srv ru = reply accepted_line ru'"
proof (cases M srv ru rule: handleData_cases)
  case refused
  then show thesis using that(1) by (simp add: run_reply run_refl accepted_line_def)
next
  case (unread b c)
  with rel_open[OF unread(1)] that(1) show thesis by (simp add: run_conn)
next
  case (ended b c0 d c)
  with rel_read[OF ended(1,2)] that(1) show thesis by (simp add: run_conn)
next
  case (rejected b c0 d c l)
  then have "l \<noteq> accepted_line" by (auto simp: accepted_line_def)
  with rel_read[OF rejected(1,2)] show thesis using that(1) rejected by (simp add: run_conn run_reply)
next
  case (relayed identity data header b c0 c st ru')
  note le = run_relayed[OF relayed(1,2,7)]
  show thesis
  proof (cases "st = smtpRelayAccepted")
    case True
    with relayed le that(2)[of "clear_mail ru'"] show thesis by (simp add: data_reply_def)
  next
    case False
    then have "data_reply st \<noteq> accepted_line" by (cases st) (simp_all add: data_reply_def accepted_line_def)
    with relayed le that(1) show thesis by (simp add: run_reply)
  qed
qed

end

interpretation le: connection_relation conn_le
  by unfold_locales (auto intro: conn_le_trans write_le ReadString_le readData_le)

subsection \<open>Every session ends\<close>

text \<open>The input left, including what waits under TLS as long as the session may still switch to it.\<close>

definition session_size :: "'w run \<Rightarrow> nat" where
  "session_size ru =
     stream_size (cn_in (ru_conn ru)) (cn_later (ru_conn ru))
     + (if ses_secure (ru_session ru) then 0
        else case cn_tls (ru_conn ru) of None \<Rightarrow> 0 | Some (inp, later) \<Rightarrow> stream_size inp later)"

abbreviation run_le :: "'w run \<Rightarrow> 'w run \<Rightarrow> bool" where
  "run_le \<equiv> run_rel conn_le"

lemma run_le_bounds:
  "run_le ru' ru \<Longrightarrow> session_size ru' \<le> session_size ru \<and> sessions_of (ru_throttle ru') = sessions_of (ru_throttle ru)"
  by (simp add: run_rel_def conn_le_def session_size_def)

lemma reply_le:
  assumes "run_le ru' ru"
  shows "run_le (reply l ru') ru"
proof -
  obtain b c where w: "writeSMTPLine l (ru_conn ru') = (b, c)" by fastforce
  from conn_le_trans[OF write_le[OF w]] assms w show ?thesis by (simp add: reply_def run_rel_def)
qed

lemma handleData_le: "run_le (handleData M srv ru) ru"
  by (cases rule: le.run_data[of M srv ru]) (simp_all add: reply_le)

lemmas handlers_le = le.run_hello le.run_auth le.run_mail le.run_recipient handleData_le reply_le le.run_refl

lemma startTLS_cases:
  assumes "startTLS srv ru = (b, ru')"
  obtains (clear) l where "l \<noteq> accepted_line" "ru' = reply l ru"
  | (switched) l inp later where "l \<noteq> accepted_line" "\<not> ses_secure (ru_session ru)" "sc_TLSConfig (srv_config srv)"
      "cn_tls (ru_conn (reply l ru)) = Some (inp, later)"
      "ru' = (reply l ru)\<lparr>ru_conn := (ru_conn (reply l ru))\<lparr>cn_in := inp, cn_later := later\<rparr>, ru_session := new_session True\<rparr>"
proof -
  obtain w c where w: "writeSMTPLine ''220 Ready to start TLS'' (ru_conn ru) = (w, c)" by fastforce
  then have r: "ru\<lparr>ru_conn := c\<rparr> = reply ''220 Ready to start TLS'' ru" by (simp add: reply_def)
  consider "ses_secure (ru_session ru)" | "\<not> ses_secure (ru_session ru)" "\<not> sc_TLSConfig (srv_config srv)"
    | "\<not> ses_secure (ru_session ru)" "sc_TLSConfig (srv_config srv)" by blast
  then show thesis
  proof cases
    case 3
    show thesis
    proof (cases "w \<and> cn_tls c \<noteq> None")
      case False
      with assms w 3 have "ru' = ru\<lparr>ru_conn := c\<rparr>" by (cases w; cases "cn_tls c") (simp_all add: startTLS_def)
      with r clear[of "''220 Ready to start TLS''"] show thesis by (simp add: accepted_line_def)
    next
      case True
      then obtain inp later where t: "cn_tls c = Some (inp, later)" by auto
      have "cn_tls (ru_conn (reply ''220 Ready to start TLS'' ru)) = Some (inp, later)" using t r[symmetric] by simp
      moreover have "ru' = (reply ''220 Ready to start TLS'' ru)\<lparr>ru_conn := (ru_conn (reply ''220 Ready to start TLS'' ru))\<lparr>cn_in := inp, cn_later := later\<rparr>, ru_session := new_session True\<rparr>"
        using assms w 3 True t unfolding r[symmetric] by (simp add: startTLS_def)
      moreover have "''220 Ready to start TLS'' \<noteq> accepted_line" by (simp add: accepted_line_def)
      ultimately show thesis using 3 by (intro switched)
    qed
  next
    case 1
    with assms clear[of "''503 TLS already active''"] show thesis by (simp add: startTLS_def accepted_line_def)
  next
    case 2
    with assms clear[of "''454 TLS not available''"] show thesis by (simp add: startTLS_def accepted_line_def)
  qed
qed

lemma startTLS_size:
  assumes "startTLS srv ru = (b, ru')"
  shows "session_size ru' \<le> session_size ru \<and> sessions_of (ru_throttle ru') = sessions_of (ru_throttle ru)"
  using assms
proof (cases rule: startTLS_cases)
  case (clear l)
  then show ?thesis by (intro run_le_bounds) (simp add: reply_le le.run_refl)
next
  case (switched l inp later)
  have le: "run_le (reply l ru) ru" by (simp add: reply_le le.run_refl)
  with switched(4) have "cn_tls (ru_conn ru) = Some (inp, later)" by (simp add: run_rel_def conn_le_def)
  with switched(2,5) le show ?thesis by (simp add: session_size_def new_session_def run_rel_def)
qed

text \<open>The rounds of the loop as handlers: everything but \<open>STARTTLS\<close> keeps the stream.\<close>

lemma handleCommand_cases:
  assumes "handleCommand M srv host line ru = (b, ru')"
  obtains (tls) "startTLS srv ru = (b, ru')"
  | (hello) "ru' = handleHello srv ru"
  | (auth) argument where "ru' = handleAuth srv argument host ru"
  | (mail) argument where "ru' = handleMail M argument ru"
  | (rcpt) argument where "ru' = handleRecipient M srv argument ru"
  | (data) "ru' = handleData M srv ru"
  | (reset) "ru' = reply ''250 OK'' (clear_mail ru)"
  | (simple) l where "l \<noteq> accepted_line" "ru' = reply l ru"
proof -
  obtain command argument where l: "line = (command, argument)" by fastforce
  note d = handleCommand_def[of M srv host line ru, unfolded l prod.case Let_def, folded l]
  have ack: "''250 OK'' \<noteq> accepted_line" "''221 Bye'' \<noteq> accepted_line" "''502 Command not implemented'' \<noteq> accepted_line"
    by (simp_all add: accepted_line_def)
  from assms[unfolded d] show thesis
    using tls hello auth[of argument] mail[of argument] rcpt[of argument] data reset simple[OF ack(1)] simple[OF ack(2)] simple[OF ack(3)]
    by (simp split: if_splits)
qed

lemma handleCommand_size:
  assumes "handleCommand M srv host line ru = (b, ru')"
  shows "session_size ru' \<le> session_size ru \<and> sessions_of (ru_throttle ru') = sessions_of (ru_throttle ru)"
  using assms
proof (cases rule: handleCommand_cases)
  case tls
  then show ?thesis by (rule startTLS_size)
qed (rule run_le_bounds, simp add: handlers_le)+

text \<open>The rule for the loop: it returns, and an invariant of the rounds holds at its end.\<close>

lemma commandLoop_rule:
  assumes "P ru"
    and "\<And>ru c l. P ru \<Longrightarrow> ReadString (ru_conn ru) = (l, c) \<Longrightarrow> P (ru\<lparr>ru_conn := c\<rparr>)"
    and "\<And>ru line b ru'. P ru \<Longrightarrow> handleCommand M srv host line ru = (b, ru') \<Longrightarrow> P ru'"
  shows "\<exists>ru'. commandLoop M srv host ru = Some ru' \<and> P ru'"
  using assms(1)
proof (induction ru rule: measure_induct_rule[of session_size])
  case (less ru)
  obtain l c where l: "ReadString (ru_conn ru) = (l, c)" by fastforce
  note P = assms(2)[OF less.prems l]
  show ?case
  proof (cases l)
    case None
    with l P show ?thesis by (simp add: commandLoop.simps[of M srv host ru])
  next
    case (Some line)
    obtain b ru' where h: "handleCommand M srv host (splitCommand line) (ru\<lparr>ru_conn := c\<rparr>) = (b, ru')" by fastforce
    have "session_size (ru\<lparr>ru_conn := c\<rparr>) < session_size ru"
      using ReadString_line[of "ru_conn ru" line c] l Some by (simp add: session_size_def)
    with handleCommand_size[OF h] less.IH[of ru'] assms(3)[OF P h] l Some h show ?thesis
      by (cases b) (simp_all add: commandLoop.simps[of M srv host ru])
  qed
qed

definition greeting :: "'w server \<Rightarrow> string" where
  "greeting srv = ''220 '' @ sc_Hostname (srv_config srv) @ '' Pinguin SMTP submission ready''"

definition new_run :: "connection \<Rightarrow> bool \<Rightarrow> smtpThrottle \<Rightarrow> 'w \<Rightarrow> 'w run" where
  "new_run c implicitTLS t w = \<lparr>ru_conn = c, ru_session = new_session implicitTLS, ru_throttle = t, ru_world = w\<rparr>"

lemma handleConnection_rule:
  assumes "P (reply (greeting srv) (new_run c implicitTLS t w))"
    and "\<And>ru c l. P ru \<Longrightarrow> ReadString (ru_conn ru) = (l, c) \<Longrightarrow> P (ru\<lparr>ru_conn := c\<rparr>)"
    and "\<And>ru line b ru'. P ru \<Longrightarrow> handleCommand M srv host line ru = (b, ru') \<Longrightarrow> P ru'"
  shows "\<exists>ru'. handleConnection M srv c implicitTLS host t w = Some ru' \<and> P ru'"
proof -
  obtain b c1 where w: "writeSMTPLine (greeting srv) c = (b, c1)" by fastforce
  have s: "\<lparr>ru_conn = c1, ru_session = new_session implicitTLS, ru_throttle = t, ru_world = w\<rparr>
      = reply (greeting srv) (new_run c implicitTLS t w)"
    by (simp add: reply_def new_run_def w)
  have "\<exists>ru'. commandLoop M srv host (reply (greeting srv) (new_run c implicitTLS t w)) = Some ru' \<and> P ru'"
    by (rule commandLoop_rule) (fact assms)+
  with assms(1) show ?thesis
    unfolding handleConnection_def greeting_def[symmetric] w prod.case s by (cases b) simp_all
qed

text \<open>C20. Every session ends, whatever the peer sends and whatever the authenticator and the relay
  answer: serving an accepted connection returns, and then the session counters, in total and per
  host, are what they were before the connection.\<close>

theorem session_ends:
  assumes "0 \<le> activeSessions t" "\<And>h. 0 \<le> go_get (activeSessionsByHost t) 0 h"
  shows "\<exists>c' t' w'. serveConnection M srv c implicitTLS host t w = Some (c', t', w')
    \<and> activeSessions t' = activeSessions t
    \<and> (\<forall>h. go_get (activeSessionsByHost t') 0 h = go_get (activeSessionsByHost t) 0 h)"
proof (cases "acquireSession host t")
  case (Inl e)
  then show ?thesis by (simp add: serveConnection_def)
next
  case (Inr p)
  obtain k t1 where p: "p = (k, t1)" by fastforce
  obtain ru where h: "handleConnection M srv c implicitTLS host t1 w = Some ru" "sessions_of (ru_throttle ru) = sessions_of t1"
  proof -
    have "\<exists>ru. handleConnection M srv c implicitTLS host t1 w = Some ru \<and> sessions_of (ru_throttle ru) = sessions_of t1"
      by (rule handleConnection_rule) (simp_all add: reply_def new_run_def handleCommand_size)
    with that show thesis by blast
  qed
  have "activeSessions (releaseSession k (ru_throttle ru)) = activeSessions t"
    "go_get (activeSessionsByHost (releaseSession k (ru_throttle ru))) 0 x = go_get (activeSessionsByHost t) 0 x" for x
    using h(2) Inr p assms(1) assms(2)[of k]
    by (auto simp: releaseSession_def acquireSession_def sessions_of_def Let_def go_get_def split: if_splits option.splits)
  with h(1) Inr p show ?thesis by (simp add: serveConnection_def)
qed

subsection \<open>Histories\<close>

text \<open>
  The world of a session as the history of the calls it made: a call of the authenticator or of the
  relay is recorded, and its answer may depend on everything recorded before.
\<close>

datatype session_call = AuthCall string string | RelayCall raw_message

type_synonym history = "session_call list"

definition history_authenticator :: "(history \<Rightarrow> string \<Rightarrow> string \<Rightarrow> authenticated_identity result) \<Rightarrow> history authenticator" where
  "history_authenticator A username password log = (A log username password, log @ [AuthCall username password])"

definition history_relay :: "(history \<Rightarrow> raw_message \<Rightarrow> unit result) \<Rightarrow> history raw_relay" where
  "history_relay R message log = (R log message, log @ [RelayCall message])"

definition history_server ::
  "history submission_config \<Rightarrow> (history \<Rightarrow> string \<Rightarrow> string \<Rightarrow> authenticated_identity result)
   \<Rightarrow> (history \<Rightarrow> raw_message \<Rightarrow> unit result) \<Rightarrow> (history \<Rightarrow> time) \<Rightarrow> history server" where
  "history_server cfg A R now =
     \<lparr>srv_config = cfg, srv_authenticate = history_authenticator A, srv_relay = history_relay R,
      srv_clock = (\<lambda>log. (now log, log))\<rparr>"

lemma history_server_config [simp]: "srv_config (history_server cfg A R now) = cfg"
  by (simp add: history_server_def)

text \<open>An identity is granted when some recorded call of the authenticator returned it.\<close>

definition granted ::
  "(history \<Rightarrow> string \<Rightarrow> string \<Rightarrow> authenticated_identity result) \<Rightarrow> history \<Rightarrow> authenticated_identity \<Rightarrow> bool" where
  "granted A log i \<longleftrightarrow> (\<exists>pre u p post. log = pre @ AuthCall u p # post \<and> A pre u p = Inr i)"

text \<open>A message within the limits of the configuration, from the mailbox of a granted identity.\<close>

definition message_ok ::
  "mail_api \<Rightarrow> (history \<Rightarrow> string \<Rightarrow> string \<Rightarrow> authenticated_identity result) \<Rightarrow> history submission_config
   \<Rightarrow> history \<Rightarrow> raw_message \<Rightarrow> bool" where
  "message_ok M A cfg log m \<longleftrightarrow>
     (\<exists>i header. granted A log i \<and> rm_IdentityID m = ai_ID i \<and> rm_From m = ai_EmailAddress i
        \<and> parseMessageFrom M (rm_Data m) = Inr header \<and> addr_Equals header (ai_EmailAddress i))
     \<and> rm_Recipients m \<noteq> [] \<and> int (length (rm_Recipients m)) \<le> sc_MaxRecipients cfg
     \<and> int (length (rm_Data m)) \<le> sc_MaxMessageBytes cfg"

definition history_ok ::
  "mail_api \<Rightarrow> (history \<Rightarrow> string \<Rightarrow> string \<Rightarrow> authenticated_identity result) \<Rightarrow> history submission_config
   \<Rightarrow> history \<Rightarrow> bool" where
  "history_ok M A cfg log \<longleftrightarrow> (\<forall>pre m post. log = pre @ RelayCall m # post \<longrightarrow> message_ok M A cfg pre m)"

definition session_ok ::
  "(history \<Rightarrow> string \<Rightarrow> string \<Rightarrow> authenticated_identity result) \<Rightarrow> history submission_config
   \<Rightarrow> history \<Rightarrow> sessionState \<Rightarrow> bool" where
  "session_ok A cfg log s \<longleftrightarrow>
     (\<forall>i. ses_authenticated s = Some i \<longrightarrow> granted A log i)
     \<and> (ses_authenticated s \<noteq> None \<or> log \<noteq> [] \<longrightarrow> ses_secure s \<or> sc_AllowInsecureAuth cfg)
     \<and> int (length (ses_recipients s)) \<le> sc_MaxRecipients cfg"

lemma snoc_splits:
  "log @ [e] = pre @ x # post \<longleftrightarrow> (pre = log \<and> x = e \<and> post = []) \<or> (\<exists>post'. post = post' @ [e] \<and> log = pre @ x # post')"
  by (cases post rule: rev_cases) auto

lemma granted_snoc:
  "granted A (log @ [e]) i \<longleftrightarrow> granted A log i \<or> (\<exists>u p. e = AuthCall u p \<and> A log u p = Inr i)"
  unfolding granted_def snoc_splits by blast

lemma history_ok_snoc:
  "history_ok M A cfg (log @ [e]) \<longleftrightarrow> history_ok M A cfg log \<and> (\<forall>m. e = RelayCall m \<longrightarrow> message_ok M A cfg log m)"
  unfolding history_ok_def snoc_splits by blast

text \<open>The calls of the relay that took the message.\<close>

definition taken :: "(history \<Rightarrow> raw_message \<Rightarrow> unit result) \<Rightarrow> history \<Rightarrow> nat" where
  "taken R log = length (filter (\<lambda>k. \<exists>m. log ! k = RelayCall m \<and> R (take k log) m = Inr ()) [0..<length log])"

lemma taken_snoc: "taken R (log @ [e]) = taken R log + (if \<exists>m. e = RelayCall m \<and> R log m = Inr () then 1 else 0)"
proof -
  let ?P = "\<lambda>log k. \<exists>m. log ! k = RelayCall m \<and> R (take k log) m = Inr ()"
  have "filter (?P (log @ [e])) [0..<length log] = filter (?P log) [0..<length log]"
    by (rule filter_cong) (simp_all add: nth_append)
  then show ?thesis by (simp add: taken_def)
qed

lemma completeAuthAttempt_history:
  assumes "completeAuthAttempt (history_server cfg A R now) host cr ru = (st, ru')"
  obtains (silent) "ru_world ru' = ru_world ru" "st = smtpAuthRejected \<or> st = smtpAuthThrottled"
  | (asked) u p where "ru_world ru' = ru_world ru @ [AuthCall u p]" "\<forall>i. st = smtpAuthAccepted i \<longrightarrow> A (ru_world ru) u p = Inr i"
proof -
  obtain u p b where cr: "cr = (u, p, b)" by (cases cr)
  obtain rs t where r: "reserveAuthAttempt (now (ru_world ru)) host u (ru_throttle ru) = (rs, t)" by fastforce
  note d = assms[unfolded completeAuthAttempt_def cr history_server_def server.simps prod.case Let_def r]
  show thesis
  proof (cases "rs = None \<or> \<not> b")
    case True
    with d silent show thesis by (cases rs) auto
  next
    case False
    with d asked[of u p] show thesis
      by (cases "A (ru_world ru) u p") (auto simp: history_authenticator_def)
  qed
qed

lemma relayAcceptedMessage_history:
  assumes "relayAcceptedMessage (history_server cfg A R now) m ru = (st, ru')"
  obtains (throttled) "ru_world ru' = ru_world ru" "st = smtpRelayThrottled"
  | (called) "ru_world ru' = ru_world ru @ [RelayCall m]" "st = smtpRelayAccepted \<longleftrightarrow> R (ru_world ru) m = Inr ()"
proof -
  obtain rs t where r: "reserveAcceptedMessage (now (ru_world ru)) (rm_IdentityID m) (ru_throttle ru) = (rs, t)" by fastforce
  note d = assms[unfolded relayAcceptedMessage_def history_server_def server.simps prod.case Let_def r]
  show thesis
  proof (cases rs)
    case None
    with d throttled show thesis by auto
  next
    case (Some a)
    with d called show thesis
      by (cases "R (ru_world ru) m") (auto simp: history_relay_def split: if_splits)
  qed
qed

subsection \<open>The session invariant\<close>

definition run_ok ::
  "mail_api \<Rightarrow> (history \<Rightarrow> string \<Rightarrow> string \<Rightarrow> authenticated_identity result) \<Rightarrow> history submission_config
   \<Rightarrow> history run \<Rightarrow> bool" where
  "run_ok M A cfg ru \<longleftrightarrow> session_ok A cfg (ru_world ru) (ru_session ru) \<and> history_ok M A cfg (ru_world ru)"

lemma run_ok_reply [simp]: "run_ok M A cfg (reply l ru) = run_ok M A cfg ru"
  by (simp add: run_ok_def reply_def)

lemma run_ok_conn [simp]: "run_ok M A cfg (ru\<lparr>ru_conn := c\<rparr>) = run_ok M A cfg ru"
  by (simp add: run_ok_def)

lemma run_ok_clear: "run_ok M A cfg ru \<Longrightarrow> run_ok M A cfg (clear_mail ru)"
  by (simp add: run_ok_def session_ok_def clear_mail_def)

lemma reply_fields [simp]: "ru_world (reply l ru) = ru_world ru" "ru_session (reply l ru) = ru_session ru"
  by (simp_all add: reply_def)

lemma handleHello_fields [simp]:
  "ru_world (handleHello srv ru) = ru_world ru" "ru_session (handleHello srv ru) = ru_session ru"
proof -
  have "ru_world (foldl (\<lambda>ru l. reply l ru) ru ls) = ru_world ru \<and> ru_session (foldl (\<lambda>ru l. reply l ru) ru ls) = ru_session ru" for ls
    by (induction ls rule: rev_induct) simp_all
  then show "ru_world (handleHello srv ru) = ru_world ru" "ru_session (handleHello srv ru) = ru_session ru"
    by (simp_all add: handleHello_def)
qed

lemma handleMail_ok: "run_ok M A cfg ru \<Longrightarrow> run_ok M A cfg (handleMail M argument ru)"
  by (auto simp: handleMail_def run_ok_def session_ok_def split: option.splits sum.splits)

lemma handleRecipient_ok:
  "run_ok M A cfg ru \<Longrightarrow> run_ok M A cfg (handleRecipient M (history_server cfg A R now) argument ru)"
  by (auto simp: handleRecipient_def Let_def run_ok_def session_ok_def split: option.splits sum.splits)

lemma handleAuth_ok:
  assumes "run_ok M A cfg ru"
  shows "run_ok M A cfg (handleAuth (history_server cfg A R now) argument host ru)"
proof (cases "ses_authenticated (ru_session ru) \<noteq> None \<or> \<not> ses_secure (ru_session ru) \<and> \<not> sc_AllowInsecureAuth cfg")
  case True
  with assms show ?thesis by (auto simp: handleAuth_def Let_def)
next
  case False
  let ?srv = "history_server cfg A R now"
  obtain mech payload where a: "splitAuthArgument argument = (mech, payload)" by fastforce
  obtain cr c where c: "(if mech = ''PLAIN'' then readPlainAuth payload (ru_conn ru) else readLoginAuth payload (ru_conn ru)) = (cr, c)"
    by fastforce
  obtain st ru1 where r: "completeAuthAttempt ?srv host cr (ru\<lparr>ru_conn := c\<rparr>) = (st, ru1)" by fastforce
  have s: "ru_session ru1 = ru_session ru" using completeAuthAttempt_frame[OF r] by simp
  have h: "run_ok M A cfg ru1 \<and> (\<forall>i. st = smtpAuthAccepted i \<longrightarrow> granted A (ru_world ru1) i \<and> ru_world ru1 \<noteq> [])"
    using r
  proof (cases rule: completeAuthAttempt_history)
    case silent
    then show ?thesis using assms s by (auto simp: run_ok_def)
  next
    case (asked u p)
    then show ?thesis using assms s False by (auto simp: run_ok_def session_ok_def granted_snoc history_ok_snoc)
  qed
  then have "st = smtpAuthAccepted i \<Longrightarrow> run_ok M A cfg (ru1\<lparr>ru_session := (ru_session ru1)\<lparr>ses_authenticated := Some i\<rparr>\<rparr>)" for i
    using s False by (auto simp: run_ok_def session_ok_def)
  with h assms show ?thesis
    unfolding handleAuth_def Let_def a prod.case c r by (cases st) auto
qed

lemma readData_bound:
  assumes "readData m c = (Some (data, False), c')" "0 \<le> m"
  shows "int (length data) \<le> m"
proof -
  have "loop_reads m [] (message_text (cn_in c)) (readDataLoop m True ([], False) (cn_in c))"
    using readDataLoop_spec[of m "[]" "([], False)" True "cn_in c"] assms(2) by (simp add: holds_text_def)
  with assms(1) show ?thesis
    by (auto simp: loop_reads_def readData_def holds_text_def split: option.splits prod.splits if_splits)
qed

lemma relayed_ok:
  assumes "run_ok M A cfg ru" "0 \<le> sc_MaxMessageBytes cfg"
    and "readData (sc_MaxMessageBytes cfg) c0 = (Some (data, False), c)"
    and "ses_authenticated (ru_session ru) = Some i" "ses_recipients (ru_session ru) \<noteq> []"
    and "parseMessageFrom M data = Inr header" "addr_Equals header (ai_EmailAddress i)"
  shows "message_ok M A cfg (ru_world ru) (data_message i (ses_recipients (ru_session ru)) data)"
  using assms readData_bound[OF assms(3,2)] by (auto simp: message_ok_def data_message_def run_ok_def session_ok_def)

lemma handleData_ok:
  assumes ok: "run_ok M A cfg ru" and m: "0 \<le> sc_MaxMessageBytes cfg"
  shows "run_ok M A cfg (handleData M (history_server cfg A R now) ru)"
proof (cases M "history_server cfg A R now" ru rule: handleData_cases)
  case (relayed i data header b c0 c st ru')
  note k = relayed_ok[OF ok m relayed(2)[simplified] relayed(3-6)]
  have s: "ru_session ru' = ru_session ru" using relayAcceptedMessage_frame[OF relayed(7)] by simp
  have "run_ok M A cfg ru'"
    using relayed(7)
  proof (cases rule: relayAcceptedMessage_history)
    case throttled
    then show ?thesis using ok s by (simp add: run_ok_def)
  next
    case called
    then show ?thesis using ok s k relayed(3) by (auto simp: run_ok_def session_ok_def granted_snoc history_ok_snoc)
  qed
  then show ?thesis using relayed(8) by (simp add: run_ok_clear)
qed (use ok in \<open>simp_all add: run_ok_clear\<close>)

lemma startTLS_ok: "run_ok M A cfg ru \<Longrightarrow> startTLS srv ru = (b, ru') \<Longrightarrow> run_ok M A cfg ru'"
  by (erule startTLS_cases) (auto simp: run_ok_def session_ok_def new_session_def)

lemma handleCommand_ok:
  assumes ok: "run_ok M A cfg ru" and m: "0 \<le> sc_MaxMessageBytes cfg"
    and "handleCommand M (history_server cfg A R now) host line ru = (b, ru')"
  shows "run_ok M A cfg ru'"
  using assms(3)
proof (cases rule: handleCommand_cases)
  case tls
  then show ?thesis using startTLS_ok ok by blast
next
  case hello
  then show ?thesis using ok by (simp add: run_ok_def)
qed (use ok m in \<open>simp_all add: handleAuth_ok handleMail_ok handleRecipient_ok handleData_ok run_ok_clear\<close>)

lemma handleConnection_ok:
  assumes "0 \<le> sc_MaxMessageBytes cfg" "0 \<le> sc_MaxRecipients cfg"
  shows "\<exists>ru. handleConnection M (history_server cfg A R now) c implicitTLS host t [] = Some ru \<and> run_ok M A cfg ru"
proof (rule handleConnection_rule)
  show "run_ok M A cfg (reply (greeting (history_server cfg A R now)) (new_run c implicitTLS t []))"
    using assms by (simp add: run_ok_def new_run_def session_ok_def new_session_def history_ok_def)
qed (simp_all add: handleCommand_ok[OF _ assms(1)])

subsection \<open>Acknowledgements\<close>

definition acks :: "connection \<Rightarrow> nat" where
  "acks c = count_list (cn_out c) accepted_line"

definition conn_quiet :: "connection \<Rightarrow> connection \<Rightarrow> bool" where
  "conn_quiet c' c \<longleftrightarrow> acks c' = acks c \<and> (cn_writes c' = None \<longleftrightarrow> cn_writes c = None)"

lemma read_fails_quiet [simp]: "conn_quiet (read_fails c) c"
  by (simp add: conn_quiet_def acks_def read_fails_def split: list.splits)

interpretation quiet: connection_relation conn_quiet
proof
  show "conn_quiet c' c" if "l \<noteq> accepted_line" "writeSMTPLine l c = (b, c')" for l c b c'
    using that by (auto simp: conn_quiet_def acks_def writeSMTPLine_def split: option.splits nat.splits)
  show "conn_quiet c' c" if "ReadString c = (r, c')" for c r c'
    using that by (cases "dropWhile (\<lambda>x. x \<noteq> LF) (cn_in c)")
      (auto simp: ReadString_def conn_quiet_def acks_def read_fails_def simp del: dropWhile_eq_Nil_conv split: list.splits)
  show "conn_quiet c' c" if "readData m c = (d, c')" for m c d c'
    using that by (auto simp: readData_def conn_quiet_def acks_def read_fails_def split: prod.splits option.splits list.splits)
qed (auto simp: conn_quiet_def)

definition ack_ok :: "(history \<Rightarrow> raw_message \<Rightarrow> unit result) \<Rightarrow> history run \<Rightarrow> bool" where
  "ack_ok R ru \<longleftrightarrow>
     acks (ru_conn ru) \<le> taken R (ru_world ru) \<and> (cn_writes (ru_conn ru) = None \<longrightarrow> acks (ru_conn ru) = taken R (ru_world ru))"

lemma ack_ok_quiet:
  "ack_ok R ru \<Longrightarrow> run_rel conn_quiet ru' ru \<Longrightarrow> taken R (ru_world ru') = taken R (ru_world ru) \<Longrightarrow> ack_ok R ru'"
  by (simp add: ack_ok_def run_rel_def conn_quiet_def)

lemma handleMail_world [simp]: "ru_world (handleMail M argument ru) = ru_world ru"
  by (simp add: handleMail_def split: option.splits sum.splits)

lemma handleRecipient_world [simp]: "ru_world (handleRecipient M srv argument ru) = ru_world ru"
  by (simp add: handleRecipient_def Let_def split: sum.splits)

lemma handleAuth_taken:
  "taken R (ru_world (handleAuth (history_server cfg A R now) argument host ru)) = taken R (ru_world ru)"
proof -
  let ?srv = "history_server cfg A R now"
  obtain mech payload where a: "splitAuthArgument argument = (mech, payload)" by fastforce
  obtain cr c where c: "(if mech = ''PLAIN'' then readPlainAuth payload (ru_conn ru) else readLoginAuth payload (ru_conn ru)) = (cr, c)"
    by fastforce
  obtain st ru1 where r: "completeAuthAttempt ?srv host cr (ru\<lparr>ru_conn := c\<rparr>) = (st, ru1)" by fastforce
  have "taken R (ru_world ru1) = taken R (ru_world ru)"
    using r by (cases rule: completeAuthAttempt_history) (simp_all add: taken_snoc)
  then show ?thesis
    unfolding handleAuth_def Let_def a prod.case c r by (cases st) simp_all
qed

lemma reply_accepted:
  assumes "acks (ru_conn ru) \<le> n" "cn_writes (ru_conn ru) = None \<longrightarrow> acks (ru_conn ru) = n" "taken R (ru_world ru) = Suc n"
  shows "ack_ok R (reply accepted_line ru)"
  using assms by (auto simp: ack_ok_def reply_def writeSMTPLine_def acks_def split: option.splits nat.splits)

lemma ack_ok_reply:
  assumes "ack_ok R ru" "run_rel conn_quiet ru' ru" "taken R (ru_world ru') = taken R (ru_world ru)" "l \<noteq> accepted_line"
  shows "ack_ok R (reply l (clear_mail ru'))"
proof -
  have "run_rel conn_quiet (reply l (clear_mail ru')) ru" using assms(2,4) by (simp add: quiet.run_reply)
  then show ?thesis using assms(1,3) by (auto intro: ack_ok_quiet simp: clear_mail_def)
qed

lemma handleData_ack:
  assumes ok: "ack_ok R ru"
  shows "ack_ok R (handleData M (history_server cfg A R now) ru)"
proof (cases M "history_server cfg A R now" ru rule: handleData_cases)
  case refused
  then show ?thesis using ack_ok_quiet[OF ok quiet.run_reply[OF quiet.run_refl]] by (simp add: accepted_line_def)
next
  case (unread b c)
  then show ?thesis using ack_ok_quiet[OF ok, of "ru\<lparr>ru_conn := c\<rparr>"] quiet.rel_open by (simp add: quiet.run_conn)
next
  case (ended b c0 d c)
  then show ?thesis using ack_ok_quiet[OF ok, of "ru\<lparr>ru_conn := c\<rparr>"] quiet.rel_read by (simp add: quiet.run_conn)
next
  case (rejected b c0 d c l)
  have "l \<noteq> accepted_line" using rejected(3) by (auto simp: accepted_line_def)
  with ack_ok_reply[OF ok, of "ru\<lparr>ru_conn := c\<rparr>"] quiet.rel_read[OF rejected(1,2)] rejected(4) show ?thesis
    by (simp add: quiet.run_conn)
next
  case (relayed i data header b c0 c st ru')
  note q = quiet.run_relayed[OF relayed(1,2,7)]
  show ?thesis
  proof (cases "st = smtpRelayAccepted")
    case True
    have "taken R (ru_world ru') = Suc (taken R (ru_world ru))"
      using relayed(7) by (cases rule: relayAcceptedMessage_history) (simp_all add: True taken_snoc)
    then have "ack_ok R (reply accepted_line (clear_mail ru'))"
      using q ok reply_accepted[of "clear_mail ru'" "taken R (ru_world ru)" R]
      by (simp add: ack_ok_def run_rel_def conn_quiet_def clear_mail_def)
    with True relayed(8) show ?thesis by (simp add: data_reply_def)
  next
    case False
    have "taken R (ru_world ru') = taken R (ru_world ru)"
      using relayed(7) by (cases rule: relayAcceptedMessage_history) (simp_all add: False taken_snoc)
    moreover have "data_reply st \<noteq> accepted_line" using False by (cases st) (simp_all add: data_reply_def accepted_line_def)
    ultimately show ?thesis using relayed(8) ack_ok_reply[OF ok q] by simp
  qed
qed

lemma startTLS_ack: "ack_ok R ru \<Longrightarrow> startTLS srv ru = (b, ru') \<Longrightarrow> ack_ok R ru'"
proof (erule startTLS_cases)
  fix l assume a: "ack_ok R ru" "l \<noteq> accepted_line"
  then have q: "ack_ok R (reply l ru)" using ack_ok_quiet[OF a(1) quiet.run_reply[OF quiet.run_refl a(2)]] by simp
  then show "ack_ok R ru'" if "ru' = reply l ru" using that by simp
  show "ack_ok R ru'" if
    "ru' = (reply l ru)\<lparr>ru_conn := (ru_conn (reply l ru))\<lparr>cn_in := inp, cn_later := later\<rparr>, ru_session := new_session True\<rparr>" for inp later
    using q that by (simp add: ack_ok_def acks_def)
qed

lemma handleCommand_ack:
  assumes ok: "ack_ok R ru" and "handleCommand M (history_server cfg A R now) host line ru = (b, ru')"
  shows "ack_ok R ru'"
  using assms(2)
proof (cases rule: handleCommand_cases)
  case tls
  then show ?thesis using startTLS_ack ok by blast
next
  case data
  then show ?thesis using handleData_ack[OF ok] by simp
next
  case hello
  then show ?thesis using ack_ok_quiet[OF ok quiet.run_hello] by simp
next
  case (auth argument)
  then show ?thesis using ack_ok_quiet[OF ok quiet.run_auth handleAuth_taken] by simp
next
  case (mail argument)
  then show ?thesis using ack_ok_quiet[OF ok quiet.run_mail] by simp
next
  case (rcpt argument)
  then show ?thesis using ack_ok_quiet[OF ok quiet.run_recipient] by simp
next
  case reset
  then show ?thesis using ack_ok_reply[OF ok quiet.run_refl] by (simp add: accepted_line_def)
next
  case (simple l)
  then show ?thesis using ack_ok_quiet[OF ok quiet.run_reply[OF quiet.run_refl]] by simp
qed

lemma handleConnection_ack:
  assumes "acks c = 0"
  shows "\<exists>ru. handleConnection M (history_server cfg A R now) c implicitTLS host t [] = Some ru \<and> ack_ok R ru"
proof (rule handleConnection_rule)
  have "greeting srv \<noteq> accepted_line" for srv :: "history server" by (simp add: greeting_def accepted_line_def)
  then show "ack_ok R (reply (greeting (history_server cfg A R now)) (new_run c implicitTLS t []))"
    using assms by (intro ack_ok_quiet[OF _ quiet.run_reply[OF quiet.run_refl]]) (simp_all add: ack_ok_def new_run_def taken_def)
  show "ack_ok R (ru\<lparr>ru_conn := c\<rparr>)" if "ack_ok R ru" "ReadString (ru_conn ru) = (l, c)" for ru c l
    using ack_ok_quiet[OF that(1), of "ru\<lparr>ru_conn := c\<rparr>"] quiet.rel_ReadString[OF that(2)] by (simp add: quiet.run_conn)
qed (rule handleCommand_ack)

subsection \<open>Encryption\<close>

text \<open>A session that is encrypted now was accepted so, or switched with a handshake of the peer.\<close>

definition tls_ok :: "'w submission_config \<Rightarrow> connection \<Rightarrow> bool \<Rightarrow> 'w run \<Rightarrow> bool" where
  "tls_ok cfg c implicitTLS ru \<longleftrightarrow>
     cn_tls (ru_conn ru) = cn_tls c
     \<and> (ses_secure (ru_session ru) \<longrightarrow> implicitTLS \<or> sc_TLSConfig cfg \<and> cn_tls c \<noteq> None)"

lemma tls_ok_le: "tls_ok cfg c b ru \<Longrightarrow> run_le ru' ru \<Longrightarrow> tls_ok cfg c b ru'"
  by (simp add: tls_ok_def run_rel_def conn_le_def)

lemma startTLS_tls: "tls_ok (srv_config srv) c b ru \<Longrightarrow> startTLS srv ru = (r, ru') \<Longrightarrow> tls_ok (srv_config srv) c b ru'"
proof (erule startTLS_cases)
  fix l assume "tls_ok (srv_config srv) c b ru"
  then have q: "tls_ok (srv_config srv) c b (reply l ru)" using tls_ok_le reply_le[OF le.run_refl] by blast
  then show "tls_ok (srv_config srv) c b ru'" if "ru' = reply l ru" using that by simp
  show "tls_ok (srv_config srv) c b ru'" if "sc_TLSConfig (srv_config srv)" "cn_tls (ru_conn (reply l ru)) = Some (inp, later)"
    "ru' = (reply l ru)\<lparr>ru_conn := (ru_conn (reply l ru))\<lparr>cn_in := inp, cn_later := later\<rparr>, ru_session := new_session True\<rparr>" for inp later
  proof -
    have "cn_tls c = Some (inp, later)" using q that(2) by (simp add: tls_ok_def)
    then show ?thesis using that by (simp add: tls_ok_def)
  qed
qed

lemma handleCommand_tls:
  assumes ok: "tls_ok (srv_config srv) c b ru" and "handleCommand M srv host line ru = (r, ru')"
  shows "tls_ok (srv_config srv) c b ru'"
  using assms(2)
proof (cases rule: handleCommand_cases)
  case tls
  then show ?thesis using startTLS_tls ok by blast
qed (rule tls_ok_le[OF ok], simp add: handlers_le)+

lemma handleConnection_tls:
  "\<exists>ru. handleConnection M srv c implicitTLS host t w = Some ru \<and> tls_ok (srv_config srv) c implicitTLS ru"
proof (rule handleConnection_rule)
  show "tls_ok (srv_config srv) c implicitTLS (reply (greeting srv) (new_run c implicitTLS t w))"
    by (rule tls_ok_le[OF _ reply_le[OF le.run_refl]]) (simp add: tls_ok_def new_run_def new_session_def)
  show "tls_ok (srv_config srv) c implicitTLS (ru\<lparr>ru_conn := c'\<rparr>)"
    if "tls_ok (srv_config srv) c implicitTLS ru" "ReadString (ru_conn ru) = (l, c')" for ru c' l
    using that ReadString_le[OF that(2)] by (simp add: tls_ok_def conn_le_def)
qed (rule handleCommand_tls)

subsection \<open>What a submission server guarantees\<close>

lemma serverDefaults_positive:
  "0 < sc_MaxMessageBytes (serverDefaults cfg)" "0 < sc_MaxRecipients (serverDefaults cfg)"
  by (simp_all add: serverDefaults_def or_default_def defaultMaxMessageBytes_def defaultMaxRecipients_def)

lemma NewServer_Inr:
  assumes "NewServer clock cfg = Inr (srv, t)"
  shows "\<exists>a r. sc_Authenticator cfg = Some a \<and> sc_Relay cfg = Some r
    \<and> srv = \<lparr>srv_config = serverDefaults cfg, srv_authenticate = a, srv_relay = r, srv_clock = clock\<rparr>"
  using assms unfolding NewServer_def by (simp split: if_split_asm option.split_asm)

lemma NewServer_history:
  assumes "NewServer (\<lambda>log. (now log, log)) cfg = Inr (srv, t)"
    and "sc_Authenticator cfg = Some (history_authenticator A)" "sc_Relay cfg = Some (history_relay R)"
  shows "srv = history_server (serverDefaults cfg) A R now"
  using NewServer_Inr[OF assms(1)] assms(2,3) by (auto simp: history_server_def)

text \<open>C1. A submission server only relays messages of an identity that authenticated in the same
  session: every message handed to the relay carries the identifier and the address of an identity
  the authenticator returned earlier in the session, and its \<open>From\<close> header names that address.\<close>

theorem relayed_messages_authorized:
  assumes "NewServer (\<lambda>log. (now log, log)) cfg = Inr (srv, t0)"
    and "sc_Authenticator cfg = Some (history_authenticator A)" "sc_Relay cfg = Some (history_relay R)"
  shows "\<exists>ru. handleConnection M srv c implicitTLS host t [] = Some ru
    \<and> (\<forall>pre m post. ru_world ru = pre @ RelayCall m # post \<longrightarrow>
         (\<exists>i header. granted A pre i \<and> rm_IdentityID m = ai_ID i \<and> rm_From m = ai_EmailAddress i
            \<and> parseMessageFrom M (rm_Data m) = Inr header \<and> addr_Equals header (ai_EmailAddress i)))"
proof -
  obtain ru where "handleConnection M srv c implicitTLS host t [] = Some ru" "run_ok M A (serverDefaults cfg) ru"
    using handleConnection_ok[of "serverDefaults cfg" M A R now c implicitTLS host t] serverDefaults_positive[of cfg]
    unfolding NewServer_history[OF assms] by auto
  then show ?thesis by (auto simp: run_ok_def history_ok_def message_ok_def)
qed

text \<open>C26. What a submission server relays is within its limits: at least one recipient, at most
  \<open>MaxRecipients\<close>, and at most \<open>MaxMessageBytes\<close> bytes, both positive whatever was configured.\<close>

theorem relayed_messages_bounded:
  assumes "NewServer (\<lambda>log. (now log, log)) cfg = Inr (srv, t0)"
    and "sc_Authenticator cfg = Some (history_authenticator A)" "sc_Relay cfg = Some (history_relay R)"
  shows "0 < sc_MaxRecipients (srv_config srv) \<and> 0 < sc_MaxMessageBytes (srv_config srv)
    \<and> (\<exists>ru. handleConnection M srv c implicitTLS host t [] = Some ru
      \<and> (\<forall>m. RelayCall m \<in> set (ru_world ru) \<longrightarrow>
           1 \<le> length (rm_Recipients m) \<and> int (length (rm_Recipients m)) \<le> sc_MaxRecipients (srv_config srv)
           \<and> int (length (rm_Data m)) \<le> sc_MaxMessageBytes (srv_config srv)))"
proof -
  have srv: "srv_config srv = serverDefaults cfg" unfolding NewServer_history[OF assms] by simp
  obtain ru where r: "handleConnection M srv c implicitTLS host t [] = Some ru" "run_ok M A (serverDefaults cfg) ru"
    using handleConnection_ok[of "serverDefaults cfg" M A R now c implicitTLS host t] serverDefaults_positive[of cfg]
    unfolding NewServer_history[OF assms] by auto
  have "message_ok M A (serverDefaults cfg) pre m" if "ru_world ru = pre @ RelayCall m # post" for pre m post
    using r(2) that by (simp add: run_ok_def history_ok_def)
  then have "1 \<le> length (rm_Recipients m) \<and> int (length (rm_Recipients m)) \<le> sc_MaxRecipients (serverDefaults cfg)
      \<and> int (length (rm_Data m)) \<le> sc_MaxMessageBytes (serverDefaults cfg)" if "RelayCall m \<in> set (ru_world ru)" for m
    using split_list[OF that] by (auto simp: message_ok_def Suc_le_eq)
  with r(1) serverDefaults_positive[of cfg] show ?thesis unfolding srv by blast
qed

text \<open>C13. No credentials in clear: unless insecure authentication was configured, a connection that
  is not encrypted from the start and never completes a TLS handshake calls neither the
  authenticator nor the relay.\<close>

theorem clear_sessions_are_silent:
  assumes "NewServer (\<lambda>log. (now log, log)) cfg = Inr (srv, t0)"
    and "sc_Authenticator cfg = Some (history_authenticator A)" "sc_Relay cfg = Some (history_relay R)"
    and "\<not> sc_AllowInsecureAuth cfg" "\<not> sc_TLSConfig cfg \<or> cn_tls c = None"
  shows "\<exists>ru. handleConnection M srv c False host t [] = Some ru \<and> ru_world ru = []"
proof -
  have srv: "srv_config srv = serverDefaults cfg" unfolding NewServer_history[OF assms(1-3)] by simp
  obtain ru where r: "handleConnection M srv c False host t [] = Some ru" "run_ok M A (serverDefaults cfg) ru"
    using handleConnection_ok[of "serverDefaults cfg" M A R now c False host t] serverDefaults_positive[of cfg]
    unfolding NewServer_history[OF assms(1-3)] by auto
  have "tls_ok (serverDefaults cfg) c False ru" using handleConnection_tls[of M srv c False host t "[]"] r(1) srv by simp
  with r(2) assms(4,5) have "ru_world ru = []"
    by (auto simp: tls_ok_def run_ok_def session_ok_def serverDefaults_def)
  with r(1) show ?thesis by blast
qed

text \<open>C11. Acknowledgements are truthful: on a connection that can be written, the number of
  \<open>250 Message accepted\<close> replies of a session is the number of messages the relay took; when writes
  fail it is never higher.\<close>

theorem acknowledged_messages_taken:
  assumes "NewServer (\<lambda>log. (now log, log)) cfg = Inr (srv, t0)"
    and "sc_Authenticator cfg = Some (history_authenticator A)" "sc_Relay cfg = Some (history_relay R)"
    and "cn_out c = []"
  shows "\<exists>ru. handleConnection M srv c implicitTLS host t [] = Some ru
    \<and> count_list (cn_out (ru_conn ru)) ''250 Message accepted'' \<le> taken R (ru_world ru)
    \<and> (cn_writes (ru_conn ru) = None \<longrightarrow> count_list (cn_out (ru_conn ru)) ''250 Message accepted'' = taken R (ru_world ru))"
  using handleConnection_ack[of c M "serverDefaults cfg" A R now implicitTLS host t] assms(4)
  unfolding NewServer_history[OF assms(1-3)] by (simp add: acks_def ack_ok_def accepted_line_def)

subsection \<open>A session\<close>

definition demo_mail :: mail_api where
  "demo_mail =
     \<lparr>mail_ParseAddress = (\<lambda>s. Some ('''', s)), mail_ParseAddressList = (\<lambda>s. Some [('''', s)]),
      mail_HeaderFrom = (\<lambda>data. Some ''a@b'')\<rparr>"

definition demo_identity :: authenticated_identity where
  "demo_identity = \<lparr>ai_ID = ''id'', ai_EmailAddress = \<lparr>addr_value = ''a@b'', addr_domain = ''b''\<rparr>, ai_Username = ''u''\<rparr>"

definition demo_auth :: "history \<Rightarrow> string \<Rightarrow> string \<Rightarrow> authenticated_identity result" where
  "demo_auth log u p = (if u = ''u'' \<and> p = ''p'' then Inr demo_identity else Inl (ErrorsNew ''no''))"

definition demo_submission :: "history submission_config" where
  "demo_submission =
     \<lparr>sc_Hostname = ''h'', sc_ListenAddr = '''', sc_TLSListenAddr = '':465'', sc_TLSConfig = True, sc_MaxMessageBytes = 0,
      sc_MaxRecipients = 0, sc_CommandTimeout = 0, sc_MaxConcurrentSessions = 0, sc_MaxSessionsPerRemoteHost = 0,
      sc_AuthFailureLimit = 0, sc_AuthFailureWindow = 0, sc_MessageLimit = 0, sc_MessageWindow = 0, sc_AllowInsecureAuth = False,
      sc_Authenticator = Some (history_authenticator demo_auth), sc_Relay = Some (history_relay (\<lambda>log m. Inr ())),
      sc_Logger = True\<rparr>"

definition demo_server :: "history server" where
  "demo_server = history_server (serverDefaults demo_submission) demo_auth (\<lambda>log m. Inr ()) (\<lambda>log. 0)"

definition demo_throttle :: smtpThrottle where
  "demo_throttle = newSMTPThrottle (serverDefaults demo_submission)"

definition demo_input :: bytes where
  "demo_input = ''AUTH PLAIN AHUAcA=='' @ CRLF @ ''MAIL FROM:<a@b>'' @ CRLF @ ''RCPT TO:<c@d>'' @ CRLF @ ''DATA'' @ CRLF
     @ ''hi'' @ CRLF @ ''.'' @ CRLF @ ''QUIT'' @ CRLF"

definition demo_connection :: connection where
  "demo_connection = \<lparr>cn_in = demo_input, cn_later = [], cn_tls = None, cn_out = [], cn_writes = None\<rparr>"

definition demo_calls :: history where
  "demo_calls = [AuthCall ''u'' ''p'', RelayCall (data_message demo_identity [\<lparr>addr_value = ''c@d'', addr_domain = ''d''\<rparr>] (''hi'' @ CRLF))]"

lemma demo_NewServer: "NewServer (\<lambda>log. (0, log)) demo_submission = Inr (demo_server, demo_throttle)"
proof -
  have "TrimSpace ''h'' \<noteq> ''''" by code_simp
  then show ?thesis
    by (simp add: NewServer_def demo_submission_def demo_server_def demo_throttle_def history_server_def)
qed

lemma demo_session:
  "map_option (\<lambda>ru. (ru_world ru, cn_out (ru_conn ru)))
     (handleConnection demo_mail demo_server demo_connection True ''host'' demo_throttle []) =
   Some (demo_calls, [''220 h Pinguin SMTP submission ready'', ''235 Authentication successful'', ''250 OK'', ''250 OK'',
     ''354 End data with <CR><LF>.<CR><LF>'', ''250 Message accepted'', ''221 Bye''])"
  by code_simp

lemma demo_result:
  obtains ru where "handleConnection demo_mail demo_server demo_connection True ''host'' demo_throttle [] = Some ru"
    "ru_world ru = demo_calls" "count_list (cn_out (ru_conn ru)) ''250 Message accepted'' = 1"
  using demo_session by (auto simp: map_option_case split: option.splits)

theorem session_ends_witness:
  "\<exists>c' t' w'. serveConnection demo_mail demo_server demo_connection True ''host'' demo_throttle [] = Some (c', t', w')
    \<and> activeSessions t' = 0"
proof -
  have t: "activeSessions demo_throttle = 0" "activeSessionsByHost demo_throttle = Map.empty"
    by (simp_all add: demo_throttle_def newSMTPThrottle_def)
  show ?thesis
    using session_ends[of demo_throttle demo_mail demo_server demo_connection True "''host''" "[]"] by (auto simp: t go_get_def)
qed

lemma demo_calls_split: "demo_calls = [AuthCall ''u'' ''p''] @ RelayCall (data_message demo_identity [\<lparr>addr_value = ''c@d'', addr_domain = ''d''\<rparr>] (''hi'' @ CRLF)) # []"
  by (simp add: demo_calls_def)

lemmas demo_laws = demo_NewServer demo_submission_def[THEN arg_cong[where f = sc_Authenticator], simplified]
  demo_submission_def[THEN arg_cong[where f = sc_Relay], simplified]

theorem relayed_messages_authorized_witness:
  "\<exists>i. granted demo_auth [AuthCall ''u'' ''p''] i \<and> ai_ID demo_identity = ai_ID i"
proof -
  obtain ru where r: "handleConnection demo_mail demo_server demo_connection True ''host'' demo_throttle [] = Some ru"
    "ru_world ru = demo_calls" by (rule demo_result)
  from relayed_messages_authorized[OF demo_laws, of demo_mail demo_connection True "''host''" demo_throttle] r(1)
  have "ru_world ru = pre @ RelayCall m # post \<Longrightarrow> \<exists>i. granted demo_auth pre i \<and> rm_IdentityID m = ai_ID i" for pre m post
    by auto
  from this[OF r(2)[unfolded demo_calls_split]] show ?thesis by (simp add: data_message_def)
qed

theorem relayed_messages_bounded_witness:
  "int (length (rm_Data (data_message demo_identity [\<lparr>addr_value = ''c@d'', addr_domain = ''d''\<rparr>] (''hi'' @ CRLF))))
     \<le> sc_MaxMessageBytes (srv_config demo_server)"
proof -
  obtain ru where r: "handleConnection demo_mail demo_server demo_connection True ''host'' demo_throttle [] = Some ru"
    "ru_world ru = demo_calls" by (rule demo_result)
  from relayed_messages_bounded[OF demo_laws, of demo_mail demo_connection True "''host''" demo_throttle] r
  show ?thesis by (simp add: demo_calls_def)
qed

theorem clear_sessions_are_silent_witness:
  "\<exists>ru. handleConnection demo_mail demo_server demo_connection False ''host'' demo_throttle [] = Some ru \<and> ru_world ru = []"
  by (rule clear_sessions_are_silent[OF demo_laws]) (simp_all add: demo_submission_def demo_connection_def)

theorem acknowledged_messages_taken_witness: "taken (\<lambda>log m. Inr ()) demo_calls = 1"
proof -
  obtain ru where r: "handleConnection demo_mail demo_server demo_connection True ''host'' demo_throttle [] = Some ru"
    "ru_world ru = demo_calls" "count_list (cn_out (ru_conn ru)) ''250 Message accepted'' = 1" by (rule demo_result)
  have "cn_out demo_connection = []" by (simp add: demo_connection_def)
  from acknowledged_messages_taken[OF demo_laws this, of demo_mail True "''host''" demo_throttle] r
  have "1 \<le> taken (\<lambda>log m. Inr ()) demo_calls" by simp
  then show ?thesis by (simp add: taken_def demo_calls_def upt_rec split: if_splits)
qed

end
