(* ===== verification/Forwarding_Session.thy ===== *)
theory Forwarding_Session
  imports Submission_Session Smtp_Forwarding
begin

text \<open>
  What a session of the forwarding server guarantees: it ends, every message it forwards goes along
  a route the resolver gave for one of the recipients of that very message, within the configured
  limits, and it acknowledges a message only after every route of it was served.
  The locale \<open>forwarding_service\<close> is the contract between the server and what it calls: the
  resolver and the forwarder keep an invariant of the world, the forwarder for routes that were
  resolved; a session then keeps it.
\<close>

subsection \<open>Sessions end\<close>

definition forwarded_line :: string where
  "forwarded_line = ''250 Message accepted for forwarding''"

definition forward_reply :: "unit result \<Rightarrow> string" where
  "forward_reply x = (case x of Inl _ \<Rightarrow> ''451 Requested action aborted'' | Inr _ \<Rightarrow> forwarded_line)"

definition session_message :: "reverse_path \<Rightarrow> forwarding_session \<Rightarrow> bytes \<Rightarrow> forward_message" where
  "session_message mailFrom s data = \<lparr>fm_From = mailFrom, fm_Recipients = fws_recipients s, fm_Data = data\<rparr>"

lemma forwarding_handleData_cases:
  obtains (refused) "forwarding_handleData srv ru = forwarding_reply ''503 Need MAIL FROM and RCPT TO first'' ru"
  | (unread) b c where "writeSMTPLine ''354 End data with <CR><LF>.<CR><LF>'' (fw_conn ru) = (b, c)"
      "forwarding_handleData srv ru = ru\<lparr>fw_conn := c\<rparr>"
  | (ended) b c0 d c where "writeSMTPLine ''354 End data with <CR><LF>.<CR><LF>'' (fw_conn ru) = (b, c0)"
      "readData (fc_MaxMessageBytes (fsv_config srv)) c0 = (d, c)" "forwarding_handleData srv ru = ru\<lparr>fw_conn := c\<rparr>"
  | (large) b c0 d c where "writeSMTPLine ''354 End data with <CR><LF>.<CR><LF>'' (fw_conn ru) = (b, c0)"
      "readData (fc_MaxMessageBytes (fsv_config srv)) c0 = (d, c)"
      "forwarding_handleData srv ru = forwarding_reply ''552 Message too large'' (session_reset (ru\<lparr>fw_conn := c\<rparr>))"
  | (forwarded) mailFrom data b c0 c x w where "writeSMTPLine ''354 End data with <CR><LF>.<CR><LF>'' (fw_conn ru) = (b, c0)"
      "readData (fc_MaxMessageBytes (fsv_config srv)) c0 = (Some (data, False), c)" "fws_recipients (fw_session ru) \<noteq> []"
      "forwardRoutes srv (session_routes (fw_session ru)) (session_message mailFrom (fw_session ru) data) (fw_world ru) = (x, w)"
      "forwarding_handleData srv ru = forwarding_reply (forward_reply x) (session_reset (ru\<lparr>fw_conn := c, fw_world := w\<rparr>))"
proof -
  let ?s = "fw_session ru"
  obtain b c0 where w: "writeSMTPLine ''354 End data with <CR><LF>.<CR><LF>'' (fw_conn ru) = (b, c0)" by fastforce
  obtain d c where r: "readData (fc_MaxMessageBytes (fsv_config srv)) c0 = (d, c)" by fastforce
  show thesis
  proof (cases "fws_mailFrom ?s = None \<or> fws_recipients ?s = []")
    case True
    then have "forwarding_handleData srv ru = forwarding_reply ''503 Need MAIL FROM and RCPT TO first'' ru"
      by (cases "fws_mailFrom ?s") (simp_all add: forwarding_handleData_def)
    then show thesis by (rule refused)
  next
    case False
    then obtain a where s: "fws_mailFrom ?s = Some a" "fws_recipients ?s \<noteq> []" by auto
    note u = forwarding_handleData_def[of srv ru, unfolded Let_def s(1) w option.case prod.case forwarding_readData_def r]
    consider "\<not> b" | "b" "d = None" | data where "b" "d = Some (data, True)" | data where "b" "d = Some (data, False)"
      by (cases b; cases d) auto
    then show thesis
    proof cases
      case 1
      with s u unread[OF w] show thesis by simp
    next
      case 2
      with s u ended[OF w r] show thesis by simp
    next
      case (3 data)
      with s u large[OF w r] show thesis by simp
    next
      case (4 data)
      obtain x v where f: "forwardRoutes srv (session_routes ?s) (session_message a ?s data) (fw_world ru) = (x, v)" by fastforce
      have "forwarding_handleData srv ru = forwarding_reply (forward_reply x) (session_reset (ru\<lparr>fw_conn := c, fw_world := v\<rparr>))"
        using s u 4 f[unfolded session_message_def] by (cases x) (simp_all add: forward_reply_def forwarded_line_def)
      with forwarded[OF w _ s(2) f] r 4 show thesis by simp
    qed
  qed
qed

lemma forwarding_reply_fields [simp]:
  "fw_session (forwarding_reply l ru) = fw_session ru" "fw_world (forwarding_reply l ru) = fw_world ru"
  "fw_world (session_reset ru) = fw_world ru" "fw_conn (session_reset ru) = fw_conn ru" "fw_session (session_reset ru) = newSessionState"
  by (simp_all add: forwarding_reply_def session_reset_def)

lemma forwarding_reply_le: "conn_le (fw_conn ru') c \<Longrightarrow> conn_le (fw_conn (forwarding_reply l ru')) c"
  by (metis conn_le_trans forwarding_reply_def forwarding_run.select_convs(1) forwarding_run.surjective forwarding_run.update_convs(1) prod.collapse write_le)

lemma forwarding_handleHello_fields [simp]:
  "fw_session (forwarding_handleHello srv ru) = fw_session ru" "fw_world (forwarding_handleHello srv ru) = fw_world ru"
  by (simp_all add: forwarding_handleHello_def)

text \<open>A round of the loop: how each command changes the run.\<close>

lemma forwarding_handleCommand_cases:
  assumes "forwarding_handleCommand M srv line ru = (b, ru')"
  obtains (hello) "ru' = forwarding_handleHello srv ru"
  | (mail) argument where "ru' = forwarding_handleMail M argument ru"
  | (rcpt) argument where "ru' = forwarding_handleRecipient M srv argument ru"
  | (data) "ru' = forwarding_handleData srv ru"
  | (reset) "ru' = forwarding_reply ''250 OK'' (session_reset ru)"
  | (simple) l where "l \<noteq> forwarded_line" "ru' = forwarding_reply l ru"
proof -
  obtain command argument where l: "line = (command, argument)" by fastforce
  note d = forwarding_handleCommand_def[of M srv line ru, unfolded l prod.case Let_def, folded l]
  have ack: "''250 OK'' \<noteq> forwarded_line" "''221 Bye'' \<noteq> forwarded_line" "''502 Command not implemented'' \<noteq> forwarded_line"
    by (simp_all add: forwarded_line_def)
  from assms[unfolded d] show thesis
    using hello mail[of argument] rcpt[of argument] data reset simple[OF ack(1)] simple[OF ack(2)] simple[OF ack(3)]
    by (simp split: if_splits)
qed

lemma forwarding_handleRecipient_cases:
  obtains (simple) l where "l \<noteq> forwarded_line" "forwarding_handleRecipient M srv argument ru = forwarding_reply l ru"
  | (unresolved) l a x w where "l \<noteq> forwarded_line" "fsv_resolve srv a (fw_world ru) = (x, w)"
      "forwarding_handleRecipient M srv argument ru = forwarding_reply l (ru\<lparr>fw_world := w\<rparr>)"
  | (routed) a r w where "fsv_resolve srv a (fw_world ru) = (Inr (Some r), w)"
      "int (length (fws_recipients (fw_session ru))) < fc_MaxRecipients (fsv_config srv)"
      "forwarding_handleRecipient M srv argument ru = forwarding_reply ''250 OK''
         (ru\<lparr>fw_world := w, fw_session := (fw_session ru)\<lparr>fws_recipients := fws_recipients (fw_session ru) @ [a],
            fws_routesByAddress := AList.update (addr_value (rt_address r)) r (fws_routesByAddress (fw_session ru))\<rparr>\<rparr>)"
proof -
  let ?s = "fw_session ru" and ?h = "forwarding_handleRecipient M srv argument ru"
  have n: "''503 Need MAIL FROM first'' \<noteq> forwarded_line" "''452 Too many recipients'' \<noteq> forwarded_line"
    "''501 Invalid recipient'' \<noteq> forwarded_line" "''451 Requested action aborted'' \<noteq> forwarded_line"
    "''550 Recipient not configured'' \<noteq> forwarded_line" by (simp_all add: forwarded_line_def)
  consider "fws_mailFrom ?s = None" | "fws_mailFrom ?s \<noteq> None" "int (length (fws_recipients ?s)) \<ge> fc_MaxRecipients (fsv_config srv)"
    | e where "fws_mailFrom ?s \<noteq> None" "int (length (fws_recipients ?s)) < fc_MaxRecipients (fsv_config srv)"
        "forwarding_parseSMTPPath M argument ''TO:'' = Inl e"
    | a where "fws_mailFrom ?s \<noteq> None" "int (length (fws_recipients ?s)) < fc_MaxRecipients (fsv_config srv)"
        "forwarding_parseSMTPPath M argument ''TO:'' = Inr a"
    by (metis not_le sum.exhaust)
  then show thesis
  proof cases
    case 1
    then have "?h = forwarding_reply ''503 Need MAIL FROM first'' ru" by (auto simp: forwarding_handleRecipient_def Let_def)
    then show thesis by (rule simple[OF n(1)])
  next
    case 2
    then have "?h = forwarding_reply ''452 Too many recipients'' ru" by (auto simp: forwarding_handleRecipient_def Let_def)
    then show thesis by (rule simple[OF n(2)])
  next
    case 3
    then have "?h = forwarding_reply ''501 Invalid recipient'' ru" by (auto simp: forwarding_handleRecipient_def Let_def)
    then show thesis by (rule simple[OF n(3)])
  next
    case (4 a)
    obtain x w where x: "fsv_resolve srv a (fw_world ru) = (x, w)" by fastforce
    consider e where "x = Inl e" | "x = Inr None" | r where "x = Inr (Some r)" by (cases x; cases "projr x") auto
    then show thesis
    proof cases
      case 1
      with 4 x have "?h = forwarding_reply ''451 Requested action aborted'' (ru\<lparr>fw_world := w\<rparr>)" by (auto simp: forwarding_handleRecipient_def Let_def)
      then show thesis by (rule unresolved[OF n(4) x])
    next
      case 2
      with 4 x have "?h = forwarding_reply ''550 Recipient not configured'' (ru\<lparr>fw_world := w\<rparr>)" by (auto simp: forwarding_handleRecipient_def Let_def)
      then show thesis by (rule unresolved[OF n(5) x])
    next
      case (3 r)
      note x' = x[unfolded 3]
      from 4 x' have "?h = forwarding_reply ''250 OK''
         (ru\<lparr>fw_world := w, fw_session := ?s\<lparr>fws_recipients := fws_recipients ?s @ [a],
            fws_routesByAddress := AList.update (addr_value (rt_address r)) r (fws_routesByAddress ?s)\<rparr>\<rparr>)"
        by (auto simp: forwarding_handleRecipient_def Let_def)
      then show thesis by (rule routed[OF x' 4(2)])
    qed
  qed
qed

lemma forwarding_handleCommand_le:
  assumes "forwarding_handleCommand M srv line ru = (b, ru')"
  shows "conn_le (fw_conn ru') (fw_conn ru)"
  using assms
proof (cases rule: forwarding_handleCommand_cases)
  case hello
  then show ?thesis by (simp add: forwarding_handleHello_def forwarding_reply_le)
next
  case (mail argument)
  then show ?thesis by (auto simp: forwarding_handleMail_def intro!: forwarding_reply_le split: sum.split)
next
  case (rcpt argument)
  then show ?thesis
    by (cases rule: forwarding_handleRecipient_cases[of M srv argument ru]) (auto intro!: forwarding_reply_le)
next
  case data
  show ?thesis
    unfolding data
    by (cases rule: forwarding_handleData_cases[of srv ru])
      (auto intro!: forwarding_reply_le dest!: write_le readData_le intro: conn_le_trans)
qed (simp_all add: forwarding_reply_le)

lemma forwarding_commandLoop_rule:
  assumes "P ru"
    and "\<And>ru c l. P ru \<Longrightarrow> ReadString (fw_conn ru) = (l, c) \<Longrightarrow> P (ru\<lparr>fw_conn := c\<rparr>)"
    and "\<And>ru line b ru'. P ru \<Longrightarrow> forwarding_handleCommand M srv line ru = (b, ru') \<Longrightarrow> P ru'"
  shows "\<exists>ru'. forwarding_commandLoop M srv ru = Some ru' \<and> P ru'"
  using assms(1)
proof (induction ru rule: measure_induct_rule[of "\<lambda>ru. stream_size (cn_in (fw_conn ru)) (cn_later (fw_conn ru))"])
  case (less ru)
  obtain l c where l: "ReadString (fw_conn ru) = (l, c)" by fastforce
  note P = assms(2)[OF less.prems l]
  show ?case
  proof (cases l)
    case None
    with l P show ?thesis by (simp add: forwarding_commandLoop.simps[of M srv ru])
  next
    case (Some line)
    obtain b ru' where h: "forwarding_handleCommand M srv (forwarding_splitCommand line) (ru\<lparr>fw_conn := c\<rparr>) = (b, ru')" by fastforce
    have "stream_size (cn_in c) (cn_later c) < stream_size (cn_in (fw_conn ru)) (cn_later (fw_conn ru))"
      using ReadString_line[of "fw_conn ru" line c] l Some by simp
    with forwarding_handleCommand_le[OF h] less.IH[of ru'] assms(3)[OF P h] l Some h show ?thesis
      by (cases b) (simp_all add: forwarding_commandLoop.simps[of M srv ru] conn_le_def)
  qed
qed

definition forwarding_greeting :: "'w forwarding_server \<Rightarrow> string" where
  "forwarding_greeting srv = ''220 '' @ fc_Hostname (fsv_config srv) @ '' Pinguin SMTP forwarding ready''"

lemma forwarding_handleConnection_rule:
  assumes "P (forwarding_reply (forwarding_greeting srv) \<lparr>fw_conn = c, fw_session = newSessionState, fw_world = w\<rparr>)"
    and "\<And>ru c l. P ru \<Longrightarrow> ReadString (fw_conn ru) = (l, c) \<Longrightarrow> P (ru\<lparr>fw_conn := c\<rparr>)"
    and "\<And>ru line b ru'. P ru \<Longrightarrow> forwarding_handleCommand M srv line ru = (b, ru') \<Longrightarrow> P ru'"
  shows "\<exists>ru'. forwarding_handleConnection M srv c w = Some ru' \<and> P ru'"
proof -
  let ?ru = "forwarding_reply (forwarding_greeting srv) \<lparr>fw_conn = c, fw_session = newSessionState, fw_world = w\<rparr>"
  obtain b c1 where w: "writeSMTPLine (forwarding_greeting srv) c = (b, c1)" by fastforce
  have s: "\<lparr>fw_conn = c1, fw_session = newSessionState, fw_world = w\<rparr> = ?ru" by (simp add: forwarding_reply_def w)
  have "\<exists>ru'. forwarding_commandLoop M srv ?ru = Some ru' \<and> P ru'"
    by (rule forwarding_commandLoop_rule) (fact assms)+
  with assms(1) show ?thesis
    unfolding forwarding_handleConnection_def forwarding_greeting_def[symmetric] w prod.case s by (cases b) simp_all
qed

subsection \<open>The contract of resolver and forwarder\<close>

definition within_limits :: "'w forwarding_config \<Rightarrow> forward_message \<Rightarrow> bool" where
  "within_limits cfg m \<longleftrightarrow>
     fm_Recipients m \<noteq> [] \<and> int (length (fm_Recipients m)) \<le> fc_MaxRecipients cfg \<and> int (length (fm_Data m)) \<le> fc_MaxMessageBytes cfg"

lemma set_sorted_routes: "set (sorted_routes m) \<subseteq> snd ` set m"
proof
  fix r assume "r \<in> set (sorted_routes m)"
  then obtain k where "k \<in> fst ` set m" "r = the (map_of m k)" by (auto simp: sorted_routes_def)
  then obtain v where "map_of m k = Some v" "r = v" using map_of_eq_None_iff[of m k] by (cases "map_of m k") auto
  then show "r \<in> snd ` set m" by (metis imageI map_of_SomeD snd_conv)
qed

lemma set_alist_update: "set (AList.update k v al) \<subseteq> insert (k, v) (set al)"
  by (induction al) auto

locale forwarding_service =
  fixes srv :: "'w forwarding_server" and inv :: "'w \<Rightarrow> bool" and routed :: "'w \<Rightarrow> address \<Rightarrow> route \<Rightarrow> bool"
  assumes resolve_keeps: "inv w \<Longrightarrow> fsv_resolve srv a w = (x, w') \<Longrightarrow>
      inv w' \<and> (\<forall>b r. routed w b r \<longrightarrow> routed w' b r) \<and> (\<forall>r. x = Inr (Some r) \<longrightarrow> routed w' a r)"
    and forward_keeps: "inv w \<Longrightarrow> within_limits (fsv_config srv) m \<Longrightarrow> a \<in> set (fm_Recipients m) \<Longrightarrow> routed w a r \<Longrightarrow>
      fsv_forward srv r m w = (y, w') \<Longrightarrow> inv w' \<and> (\<forall>b r. routed w b r \<longrightarrow> routed w' b r)"
begin

definition session_inv :: "'w forwarding_run \<Rightarrow> bool" where
  "session_inv ru \<longleftrightarrow>
     inv (fw_world ru) \<and> int (length (fws_recipients (fw_session ru))) \<le> fc_MaxRecipients (fsv_config srv)
     \<and> (\<forall>r \<in> snd ` set (fws_routesByAddress (fw_session ru)). \<exists>a \<in> set (fws_recipients (fw_session ru)). routed (fw_world ru) a r)"

lemma session_inv_reply [simp]: "session_inv (forwarding_reply l ru) = session_inv ru"
  by (simp add: session_inv_def)

lemma session_inv_conn [simp]: "session_inv (ru\<lparr>fw_conn := c\<rparr>) = session_inv ru"
  by (simp add: session_inv_def)

lemma inv_fresh:
  "inv w \<Longrightarrow> 0 \<le> fc_MaxRecipients (fsv_config srv) \<Longrightarrow> fws_recipients s = [] \<Longrightarrow> fws_routesByAddress s = [] \<Longrightarrow>
     fw_world ru = w \<Longrightarrow> fw_session ru = s \<Longrightarrow> session_inv ru"
  by (simp add: session_inv_def)

lemma forwardRoutes_keeps:
  assumes "within_limits (fsv_config srv) m"
  shows "inv w \<Longrightarrow> \<forall>r \<in> set rs. \<exists>a \<in> set (fm_Recipients m). routed w a r \<Longrightarrow> forwardRoutes srv rs m w = (x, w') \<Longrightarrow> inv w'"
proof (induction rs arbitrary: w)
  case (Cons r rs)
  obtain y v where f: "fsv_forward srv r m w = (y, v)" by fastforce
  obtain a where a: "a \<in> set (fm_Recipients m)" "routed w a r" using Cons.prems(2) by auto
  note k = forward_keeps[OF Cons.prems(1) assms a f]
  have "\<forall>r \<in> set rs. \<exists>a \<in> set (fm_Recipients m). routed v a r" using Cons.prems(2) k by (metis list.set_intros(2))
  with Cons.IH[of v] Cons.prems(3) k f show ?case
    by (cases y) (auto simp: forwardRoutes_def io_bind_def)
qed (simp add: forwardRoutes_def io_return_def)

lemma handleData_keeps:
  assumes "session_inv ru" "0 \<le> fc_MaxRecipients (fsv_config srv)" "0 \<le> fc_MaxMessageBytes (fsv_config srv)"
  shows "session_inv (forwarding_handleData srv ru)"
proof (cases rule: forwarding_handleData_cases[of srv ru])
  case (forwarded mailFrom data b c0 c x w)
  have "within_limits (fsv_config srv) (session_message mailFrom (fw_session ru) data)"
    using assms readData_bound[OF forwarded(2) assms(3)] forwarded(3) by (simp add: within_limits_def session_message_def session_inv_def)
  moreover have "\<forall>r \<in> set (session_routes (fw_session ru)). \<exists>a \<in> set (fws_recipients (fw_session ru)). routed (fw_world ru) a r"
    using assms(1) set_sorted_routes[of "fws_routesByAddress (fw_session ru)"] unfolding session_routes_def session_inv_def by blast
  ultimately have "inv w" using forwardRoutes_keeps[OF _ _ _ forwarded(4)] assms(1) by (simp add: session_message_def session_inv_def)
  then show ?thesis unfolding forwarded(5) using assms(2) by (simp add: session_inv_def newSessionState_def)
next
  case (large b c0 d c)
  show ?thesis unfolding large(3) using assms by (simp add: session_inv_def newSessionState_def)
qed (use assms in simp_all)

lemma handleRecipient_keeps:
  assumes "session_inv ru"
  shows "session_inv (forwarding_handleRecipient M srv argument ru)"
proof (cases rule: forwarding_handleRecipient_cases[of M srv argument ru])
  case (unresolved l a x w)
  from resolve_keeps[OF _ unresolved(2)] assms show ?thesis unfolding unresolved(3) by (fastforce simp: session_inv_def)
next
  case (routed a r w)
  note k = resolve_keeps[OF _ routed(1)]
  let ?s = "fw_session ru" let ?m = "AList.update (addr_value (rt_address r)) r (fws_routesByAddress ?s)"
  have i: "inv (fw_world ru)" "int (length (fws_recipients ?s)) \<le> fc_MaxRecipients (fsv_config srv)"
    "\<forall>r \<in> snd ` set (fws_routesByAddress ?s). \<exists>a \<in> set (fws_recipients ?s). routed (fw_world ru) a r"
    using assms by (simp_all add: session_inv_def)
  have "snd ` set ?m \<subseteq> insert r (snd ` set (fws_routesByAddress ?s))"
    using set_alist_update[of "addr_value (rt_address r)" r "fws_routesByAddress ?s"] by auto
  then have "\<exists>b \<in> set (fws_recipients ?s @ [a]). routed w b x" if "x \<in> snd ` set ?m" for x
  proof (cases "x = r")
    case True
    with k[OF i(1)] show ?thesis by simp
  next
    case False
    with that \<open>snd ` set ?m \<subseteq> insert r (snd ` set (fws_routesByAddress ?s))\<close> have "x \<in> snd ` set (fws_routesByAddress ?s)" by blast
    with i(3) obtain b where "b \<in> set (fws_recipients ?s)" "routed (fw_world ru) b x" by blast
    with k[OF i(1)] show ?thesis by auto
  qed
  then show ?thesis unfolding routed(3) using k[OF i(1)] routed(2) by (simp add: session_inv_def)
qed (use assms in simp_all)

lemma command_keeps:
  assumes "session_inv ru" "0 \<le> fc_MaxRecipients (fsv_config srv)" "0 \<le> fc_MaxMessageBytes (fsv_config srv)"
    and "forwarding_handleCommand M srv line ru = (b, ru')"
  shows "session_inv ru'"
  using assms(4)
proof (cases rule: forwarding_handleCommand_cases)
  case hello
  with assms(1) show ?thesis by (simp add: session_inv_def)
next
  case (mail argument)
  with assms(1,2) show ?thesis by (auto simp: forwarding_handleMail_def session_inv_def split: sum.split)
next
  case reset
  with assms(1,2) show ?thesis by (simp add: session_inv_def newSessionState_def)
qed (use assms handleData_keeps handleRecipient_keeps in simp_all)

theorem session_keeps:
  assumes "inv w" "0 \<le> fc_MaxRecipients (fsv_config srv)" "0 \<le> fc_MaxMessageBytes (fsv_config srv)"
  shows "\<exists>ru. forwarding_handleConnection M srv c w = Some ru \<and> inv (fw_world ru)"
proof -
  have "\<exists>ru. forwarding_handleConnection M srv c w = Some ru \<and> session_inv ru"
  proof (rule forwarding_handleConnection_rule)
    show "session_inv (forwarding_reply (forwarding_greeting srv) \<lparr>fw_conn = c, fw_session = newSessionState, fw_world = w\<rparr>)"
      using assms by (simp add: session_inv_def newSessionState_def)
  qed (use command_keeps[OF _ assms(2,3)] in simp_all)
  then show ?thesis by (auto simp: session_inv_def)
qed

end

subsection \<open>Histories of a session\<close>

text \<open>The world as the list of calls with their answers, which may depend on everything before.\<close>

datatype forwarding_call = ResolveCall address "route option result" | ForwardCall route forward_message "unit result"

type_synonym forwarding_history = "forwarding_call list"

definition history_resolver :: "(forwarding_history \<Rightarrow> address \<Rightarrow> route option result) \<Rightarrow> forwarding_history route_resolver" where
  "history_resolver R a log = (R log a, log @ [ResolveCall a (R log a)])"

definition history_forwarder :: "(forwarding_history \<Rightarrow> route \<Rightarrow> forward_message \<Rightarrow> unit result) \<Rightarrow> forwarding_history forwarder" where
  "history_forwarder F r m log = (F log r m, log @ [ForwardCall r m (F log r m)])"

definition history_forwarding ::
  "forwarding_history forwarding_config \<Rightarrow> (forwarding_history \<Rightarrow> address \<Rightarrow> route option result)
   \<Rightarrow> (forwarding_history \<Rightarrow> route \<Rightarrow> forward_message \<Rightarrow> unit result) \<Rightarrow> forwarding_history forwarding_server" where
  "history_forwarding cfg R F = \<lparr>fsv_config = cfg, fsv_resolve = history_resolver R, fsv_forward = history_forwarder F\<rparr>"

lemma history_forwarding_fields [simp]:
  "fsv_config (history_forwarding cfg R F) = cfg" "fsv_resolve (history_forwarding cfg R F) = history_resolver R"
  "fsv_forward (history_forwarding cfg R F) = history_forwarder F"
  by (simp_all add: history_forwarding_def)

definition resolved :: "forwarding_history \<Rightarrow> address \<Rightarrow> route \<Rightarrow> bool" where
  "resolved log a r \<longleftrightarrow> ResolveCall a (Inr (Some r)) \<in> set log"

definition forwards_resolved :: "forwarding_history forwarding_config \<Rightarrow> forwarding_history \<Rightarrow> bool" where
  "forwards_resolved cfg log \<longleftrightarrow>
     (\<forall>pre r m x post. log = pre @ ForwardCall r m x # post \<longrightarrow>
        within_limits cfg m \<and> (\<exists>a \<in> set (fm_Recipients m). resolved pre a r))"

lemma forwards_resolved_snoc:
  "forwards_resolved cfg (log @ [e]) \<longleftrightarrow> forwards_resolved cfg log
     \<and> (\<forall>r m x. e = ForwardCall r m x \<longrightarrow> within_limits cfg m \<and> (\<exists>a \<in> set (fm_Recipients m). resolved log a r))"
  unfolding forwards_resolved_def snoc_splits by blast

interpretation hs: forwarding_service "history_forwarding cfg R F" "forwards_resolved cfg" resolved
  for cfg :: "forwarding_history forwarding_config"
    and R :: "forwarding_history \<Rightarrow> address \<Rightarrow> route option result"
    and F :: "forwarding_history \<Rightarrow> route \<Rightarrow> forward_message \<Rightarrow> unit result"
proof unfold_locales
  fix w w' a and x :: "route option result"
  assume "forwards_resolved cfg w" "fsv_resolve (history_forwarding cfg R F) a w = (x, w')"
  then show "forwards_resolved cfg w' \<and> (\<forall>b r. resolved w b r \<longrightarrow> resolved w' b r) \<and> (\<forall>r. x = Inr (Some r) \<longrightarrow> resolved w' a r)"
    by (auto simp: history_resolver_def forwards_resolved_snoc resolved_def)
next
  fix w w' a r m and y :: "unit result"
  assume "forwards_resolved cfg w" "within_limits (fsv_config (history_forwarding cfg R F)) m" "a \<in> set (fm_Recipients m)"
    "resolved w a r" "fsv_forward (history_forwarding cfg R F) r m w = (y, w')"
  then show "forwards_resolved cfg w' \<and> (\<forall>b r. resolved w b r \<longrightarrow> resolved w' b r)"
    by (auto simp: history_forwarder_def forwards_resolved_snoc resolved_def)
qed

lemma forwardingDefaults_positive:
  "0 < fc_MaxRecipients (forwardingDefaults cfg)" "0 < fc_MaxMessageBytes (forwardingDefaults cfg)"
  by (simp_all add: forwardingDefaults_def or_default_def)

lemma forwarding_NewServer_Inr:
  assumes "forwarding_NewServer cfg = Inr (srv, lm)"
  obtains resolve forward where "fc_RouteResolver cfg = Some resolve" "fc_Forwarder cfg = Some forward"
    "srv = \<lparr>fsv_config = forwardingDefaults cfg, fsv_resolve = resolve, fsv_forward = forward\<rparr>"
  using assms by (auto simp: forwarding_NewServer_def Let_def split: if_splits option.splits)

lemma forwarding_NewServer_history:
  assumes "forwarding_NewServer cfg = Inr (srv, lm)" "fc_RouteResolver cfg = Some (history_resolver R)"
    "fc_Forwarder cfg = Some (history_forwarder F)"
  shows "srv = history_forwarding (forwardingDefaults cfg) R F"
  by (rule forwarding_NewServer_Inr[OF assms(1)]) (use assms(2,3) in \<open>simp add: history_forwarding_def\<close>)

text \<open>C8. What a forwarding session forwards, whatever the peer sends and whatever resolver and
  forwarder answer: the session ends, and each message it handed to the forwarder has between one
  and \<open>MaxRecipients\<close> recipients and at most \<open>MaxMessageBytes\<close> bytes, and goes along a route the resolver had
  returned for one of the recipients of that message.\<close>

theorem forwarded_messages_routed:
  assumes "forwarding_NewServer cfg = Inr (srv, lm)" "fc_RouteResolver cfg = Some (history_resolver R)"
    "fc_Forwarder cfg = Some (history_forwarder F)"
  shows "\<exists>ru. forwarding_handleConnection M srv c [] = Some ru
    \<and> (\<forall>pre r m x post. fw_world ru = pre @ ForwardCall r m x # post \<longrightarrow>
         fm_Recipients m \<noteq> [] \<and> int (length (fm_Recipients m)) \<le> fc_MaxRecipients (fsv_config srv)
         \<and> int (length (fm_Data m)) \<le> fc_MaxMessageBytes (fsv_config srv)
         \<and> (\<exists>a \<in> set (fm_Recipients m). ResolveCall a (Inr (Some r)) \<in> set pre))"
proof -
  note s = forwarding_NewServer_history[OF assms]
  have "forwards_resolved (forwardingDefaults cfg) []" by (simp add: forwards_resolved_def)
  from hs.session_keeps[OF this, of R F M c] forwardingDefaults_positive[of cfg]
  obtain ru where "forwarding_handleConnection M srv c [] = Some ru" "forwards_resolved (forwardingDefaults cfg) (fw_world ru)"
    unfolding s by auto
  then show ?thesis unfolding s forwards_resolved_def resolved_def within_limits_def by auto
qed

subsection \<open>Acknowledgements\<close>

text \<open>
  A block of the history that forwards one message completely: every recipient was resolved in it,
  and at its end the message went, successfully, along a route for the address each of them
  resolved to.
\<close>

definition forwarded_block :: "forwarding_history \<Rightarrow> bool" where
  "forwarded_block seg \<longleftrightarrow>
     (\<exists>pre rs m. seg = pre @ map (\<lambda>r. ForwardCall r m (Inr ())) rs \<and> fm_Recipients m \<noteq> []
        \<and> (\<forall>a \<in> set (fm_Recipients m). \<exists>r0 r. resolved pre a r0 \<and> r \<in> set rs \<and> addr_value (rt_address r) = addr_value (rt_address r0)))"

definition keyed :: "route_map \<Rightarrow> bool" where
  "keyed m \<longleftrightarrow> distinct (map fst m) \<and> (\<forall>(k, r) \<in> set m. addr_value (rt_address r) = k)"

definition acked_ok :: "forwarding_history forwarding_run \<Rightarrow> bool" where
  "acked_ok ru \<longleftrightarrow>
     (\<exists>segs rest. fw_world ru = concat segs @ rest \<and> list_all forwarded_block segs
        \<and> length segs = count_list (cn_out (fw_conn ru)) forwarded_line
        \<and> (\<forall>a \<in> set (fws_recipients (fw_session ru)). \<exists>r0. resolved rest a r0
             \<and> addr_value (rt_address r0) \<in> fst ` set (fws_routesByAddress (fw_session ru))))
     \<and> keyed (fws_routesByAddress (fw_session ru))"

lemma keyed_update: "keyed m \<Longrightarrow> keyed (AList.update (addr_value (rt_address r)) r m)"
  using set_alist_update[of "addr_value (rt_address r)" r m] by (auto simp: keyed_def distinct_update)

lemma keyed_routes:
  assumes "keyed m" "k \<in> fst ` set m"
  shows "\<exists>r \<in> set (sorted_routes m). addr_value (rt_address r) = k"
proof -
  from assms(2) obtain r where r: "(k, r) \<in> set m" by auto
  with assms(1) have "map_of m k = Some r" by (simp add: keyed_def)
  then have "r \<in> set (sorted_routes m)" using assms(2) by (force simp: sorted_routes_def)
  with assms(1) r show ?thesis by (auto simp: keyed_def)
qed

lemma forwardRoutes_history:
  "forwardRoutes (history_forwarding cfg R F) rs m log = (x, log') \<Longrightarrow>
     (\<exists>ext. log' = log @ ext) \<and> (x = Inr () \<longrightarrow> log' = log @ map (\<lambda>r. ForwardCall r m (Inr ())) rs)"
proof (induction rs arbitrary: log)
  case (Cons r rs)
  show ?case
  proof (cases "F log r m")
    case (Inl e)
    with Cons.prems show ?thesis by (auto simp: forwardRoutes_def io_bind_def history_forwarder_def)
  next
    case (Inr u)
    with Cons.prems have "forwardRoutes (history_forwarding cfg R F) rs m (log @ [ForwardCall r m (Inr ())]) = (x, log')"
      by (simp add: forwardRoutes_def io_bind_def history_forwarder_def)
    from Cons.IH[OF this] show ?thesis by auto
  qed
qed (auto simp: forwardRoutes_def io_return_def)

lemma count_reply:
  "count_list (cn_out (snd (writeSMTPLine l c))) s = count_list (cn_out c) s
   \<or> l = s \<and> count_list (cn_out (snd (writeSMTPLine l c))) s = Suc (count_list (cn_out c) s)"
  by (auto simp: writeSMTPLine_def split: option.splits nat.splits)

lemma count_reply_other: "l \<noteq> s \<Longrightarrow> writeSMTPLine l c = (b, c') \<Longrightarrow> count_list (cn_out c') s = count_list (cn_out c) s"
  using count_reply[of l c s] by auto

lemma acked_ok_reply:
  assumes "acked_ok ru" "l \<noteq> forwarded_line"
  shows "acked_ok (forwarding_reply l ru)"
  using assms count_reply[of l "fw_conn ru" forwarded_line] by (simp add: acked_ok_def forwarding_reply_def)

lemma acked_ok_conn: "acked_ok ru \<Longrightarrow> cn_out c = cn_out (fw_conn ru) \<Longrightarrow> acked_ok (ru\<lparr>fw_conn := c\<rparr>)"
  by (simp add: acked_ok_def)

lemma acked_ok_count:
  "acked_ok ru \<Longrightarrow> count_list (cn_out c) forwarded_line = count_list (cn_out (fw_conn ru)) forwarded_line \<Longrightarrow> acked_ok (ru\<lparr>fw_conn := c\<rparr>)"
  by (simp add: acked_ok_def)

text \<open>Forgetting the message in progress keeps the invariant; the calls made for it stay in the open block.\<close>

lemma acked_ok_forget:
  assumes "acked_ok ru" "fw_world ru' = fw_world ru @ ext" "cn_out (fw_conn ru') = cn_out (fw_conn ru)"
    "fws_recipients (fw_session ru') = []" "fws_routesByAddress (fw_session ru') = []"
  shows "acked_ok ru'"
proof -
  from assms(1) obtain segs rest where "fw_world ru = concat segs @ rest" "list_all forwarded_block segs"
    "length segs = count_list (cn_out (fw_conn ru)) forwarded_line" by (auto simp: acked_ok_def)
  with assms(2-) show ?thesis unfolding acked_ok_def by (intro conjI exI[of _ segs] exI[of _ "rest @ ext"]) (simp_all add: keyed_def)
qed

lemma read_fails_out [simp]: "cn_out (read_fails c) = cn_out c"
  by (simp add: read_fails_def split: list.split)

lemma ReadString_out: "ReadString c = (l, c') \<Longrightarrow> cn_out c' = cn_out c"
  by (cases "dropWhile (\<lambda>x. x \<noteq> LF) (cn_in c)") (auto simp: ReadString_def simp del: dropWhile_eq_Nil_conv)

lemma readData_out: "readData m c = (d, c') \<Longrightarrow> cn_out c' = cn_out c"
  by (cases "readDataLoop m True ([], False) (cn_in c)"; cases "fst (readDataLoop m True ([], False) (cn_in c))") (auto simp: readData_def)

lemma acked_data_conn:
  assumes "acked_ok ru" "writeSMTPLine ''354 End data with <CR><LF>.<CR><LF>'' (fw_conn ru) = (b, c0)" "cn_out c = cn_out c0"
  shows "acked_ok (ru\<lparr>fw_conn := c\<rparr>)"
proof (rule acked_ok_count[OF assms(1)])
  have "''354 End data with <CR><LF>.<CR><LF>'' \<noteq> forwarded_line" by (simp add: forwarded_line_def)
  from count_reply_other[OF this assms(2)] assms(3)
  show "count_list (cn_out c) forwarded_line = count_list (cn_out (fw_conn ru)) forwarded_line" by simp
qed

lemma forwarded_block_intro:
  assumes "acked_ok ru" "fws_recipients (fw_session ru) \<noteq> []"
    and "fw_world ru = concat segs @ rest"
    and "\<forall>a \<in> set (fws_recipients (fw_session ru)). \<exists>r0. resolved rest a r0 \<and> addr_value (rt_address r0) \<in> fst ` set (fws_routesByAddress (fw_session ru))"
  shows "forwarded_block (rest @ map (\<lambda>r. ForwardCall r (session_message p (fw_session ru) data) (Inr ())) (session_routes (fw_session ru)))"
  unfolding forwarded_block_def
proof (rule exI[of _ rest], rule exI[of _ "session_routes (fw_session ru)"], rule exI[of _ "session_message p (fw_session ru) data"], intro conjI ballI)
  let ?m = "session_message p (fw_session ru) data"
  show "rest @ map (\<lambda>r. ForwardCall r ?m (Inr ())) (session_routes (fw_session ru)) =
      rest @ map (\<lambda>r. ForwardCall r ?m (Inr ())) (session_routes (fw_session ru))" ..
  show "fm_Recipients ?m \<noteq> []" using assms(2) by (simp add: session_message_def)
  fix a assume "a \<in> set (fm_Recipients ?m)"
  then have "a \<in> set (fws_recipients (fw_session ru))" by (simp add: session_message_def)
  with assms(4) obtain r0 where r0: "resolved rest a r0" "addr_value (rt_address r0) \<in> fst ` set (fws_routesByAddress (fw_session ru))"
    by blast
  from assms(1) have "keyed (fws_routesByAddress (fw_session ru))" by (simp add: acked_ok_def)
  from keyed_routes[OF this r0(2)] r0(1)
  show "\<exists>r0 r. resolved rest a r0 \<and> r \<in> set (session_routes (fw_session ru)) \<and> addr_value (rt_address r) = addr_value (rt_address r0)"
    unfolding session_routes_def by blast
qed

lemma handleData_acked:
  assumes "acked_ok ru"
  shows "acked_ok (forwarding_handleData (history_forwarding cfg R F) ru)"
proof (cases rule: forwarding_handleData_cases[of "history_forwarding cfg R F" ru])
  case refused
  then show ?thesis using assms by (simp add: acked_ok_reply forwarded_line_def)
next
  case (unread b c)
  from acked_data_conn[OF assms unread(1)] unread(2) show ?thesis by simp
next
  case (ended b c0 d c)
  from acked_data_conn[OF assms ended(1) readData_out[OF ended(2)]] ended(3) show ?thesis by simp
next
  case (large b c0 d c)
  have "acked_ok (session_reset (ru\<lparr>fw_conn := c\<rparr>))"
    by (rule acked_ok_forget[OF acked_data_conn[OF assms large(1) readData_out[OF large(2)]], where ext = "[]"])
      (simp_all add: newSessionState_def)
  then show ?thesis unfolding large(3) by (rule acked_ok_reply) (simp add: forwarded_line_def)
next
  case (forwarded mailFrom data b c0 c x w)
  let ?ru = "ru\<lparr>fw_conn := c\<rparr>" and ?new = "session_reset (ru\<lparr>fw_conn := c, fw_world := w\<rparr>)"
  note ok = acked_data_conn[OF assms forwarded(1) readData_out[OF forwarded(2)]]
  note h = forwardRoutes_history[OF forwarded(4)]
  then obtain ext where ext: "w = fw_world ?ru @ ext" by auto
  have new: "acked_ok ?new" by (rule acked_ok_forget[OF ok, where ext = ext]) (simp_all add: newSessionState_def ext)
  show ?thesis
  proof (cases x)
    case (Inl e)
    have "acked_ok (forwarding_reply ''451 Requested action aborted'' ?new)"
      by (rule acked_ok_reply[OF new]) (simp add: forwarded_line_def)
    then show ?thesis unfolding forwarded(5) Inl by (simp add: forward_reply_def)
  next
    case (Inr u)
    let ?sent = "map (\<lambda>r. ForwardCall r (session_message mailFrom (fw_session ru) data) (Inr ())) (session_routes (fw_session ru))"
    have w: "w = fw_world ru @ ?sent" using h Inr by simp
    from ok obtain segs rest where s: "fw_world ru = concat segs @ rest" "list_all forwarded_block segs"
      "length segs = count_list (cn_out c) forwarded_line"
      "\<forall>a \<in> set (fws_recipients (fw_session ru)). \<exists>r0. resolved rest a r0 \<and> addr_value (rt_address r0) \<in> fst ` set (fws_routesByAddress (fw_session ru))"
      by (auto simp: acked_ok_def)
    note block = forwarded_block_intro[OF assms forwarded(3) s(1,4), of mailFrom data]
    have f: "fw_world (forwarding_reply forwarded_line ?new) = concat (segs @ [rest @ ?sent]) @ []" using s(1) w by simp
    have k: "keyed (fws_routesByAddress (fw_session (forwarding_reply forwarded_line ?new)))" "fws_recipients (fw_session (forwarding_reply forwarded_line ?new)) = []"
      by (simp_all add: newSessionState_def keyed_def)
    consider "count_list (cn_out (fw_conn (forwarding_reply forwarded_line ?new))) forwarded_line = length segs"
      | "count_list (cn_out (fw_conn (forwarding_reply forwarded_line ?new))) forwarded_line = length (segs @ [rest @ ?sent])"
      using count_reply[of forwarded_line c forwarded_line] s(3) by (auto simp: forwarding_reply_def)
    then have "acked_ok (forwarding_reply forwarded_line ?new)"
    proof cases
      case 1
      with s(2) f k show ?thesis unfolding acked_ok_def by (intro conjI exI[of _ segs] exI[of _ "rest @ ?sent"]) simp_all
    next
      case 2
      have "list_all forwarded_block (segs @ [rest @ ?sent])" using s(2) block by simp
      with 2 f k show ?thesis unfolding acked_ok_def by (intro conjI exI[of _ "segs @ [rest @ ?sent]"] exI[of _ "[]"]) simp_all
    qed
    then show ?thesis unfolding forwarded(5) Inr by (simp add: forward_reply_def)
  qed
qed

lemma resolved_append: "resolved rest a r \<Longrightarrow> resolved (rest @ ext) a r"
  by (simp add: resolved_def)

lemma acked_ok_extend:
  assumes "acked_ok ru"
  shows "acked_ok (ru\<lparr>fw_world := fw_world ru @ ext\<rparr>)"
proof -
  from assms obtain segs rest where s: "fw_world ru = concat segs @ rest" "list_all forwarded_block segs"
    "length segs = count_list (cn_out (fw_conn ru)) forwarded_line" "keyed (fws_routesByAddress (fw_session ru))"
    and r: "\<forall>a \<in> set (fws_recipients (fw_session ru)). \<exists>r0. resolved rest a r0 \<and> addr_value (rt_address r0) \<in> fst ` set (fws_routesByAddress (fw_session ru))"
    unfolding acked_ok_def by blast
  from r have "\<forall>a \<in> set (fws_recipients (fw_session ru)). \<exists>r0. resolved (rest @ ext) a r0 \<and> addr_value (rt_address r0) \<in> fst ` set (fws_routesByAddress (fw_session ru))"
    using resolved_append by blast
  with s show ?thesis unfolding acked_ok_def by (intro conjI exI[of _ segs] exI[of _ "rest @ ext"]) simp_all
qed

lemma keys_update: "fst ` set (AList.update k v al) = insert k (fst ` set al)"
  using dom_update[of k v al] by simp

lemma acked_ok_recipient:
  assumes "acked_ok ru" "resolved ext a r"
  shows "acked_ok (ru\<lparr>fw_world := fw_world ru @ ext, fw_session := (fw_session ru)\<lparr>fws_recipients := fws_recipients (fw_session ru) @ [a],
            fws_routesByAddress := AList.update (addr_value (rt_address r)) r (fws_routesByAddress (fw_session ru))\<rparr>\<rparr>)"
proof -
  let ?s = "fw_session ru" let ?m = "AList.update (addr_value (rt_address r)) r (fws_routesByAddress ?s)"
  from assms(1) obtain segs rest where s: "fw_world ru = concat segs @ rest" "list_all forwarded_block segs"
    "length segs = count_list (cn_out (fw_conn ru)) forwarded_line" "keyed (fws_routesByAddress ?s)"
    and o: "\<forall>a \<in> set (fws_recipients ?s). \<exists>r0. resolved rest a r0 \<and> addr_value (rt_address r0) \<in> fst ` set (fws_routesByAddress ?s)"
    unfolding acked_ok_def by blast
  have "\<exists>r0. resolved (rest @ ext) b r0 \<and> addr_value (rt_address r0) \<in> fst ` set ?m" if "b \<in> set (fws_recipients ?s @ [a])" for b
  proof (cases "b \<in> set (fws_recipients ?s)")
    case True
    with o obtain r0 where "resolved rest b r0" "addr_value (rt_address r0) \<in> fst ` set (fws_routesByAddress ?s)" by blast
    then show ?thesis unfolding keys_update using resolved_append by blast
  next
    case False
    with that have "b = a" by simp
    with assms(2) show ?thesis unfolding keys_update by (intro exI[of _ r]) (simp add: resolved_def)
  qed
  with s keyed_update[OF s(4), of r] show ?thesis
    unfolding acked_ok_def by (intro conjI exI[of _ segs] exI[of _ "rest @ ext"]) simp_all
qed

lemma handleRecipient_acked:
  assumes "acked_ok ru"
  shows "acked_ok (forwarding_handleRecipient M (history_forwarding cfg R F) argument ru)"
proof (cases rule: forwarding_handleRecipient_cases[of M "history_forwarding cfg R F" argument ru])
  case (simple l)
  with assms show ?thesis by (simp add: acked_ok_reply)
next
  case (unresolved l a x w)
  then have "w = fw_world ru @ [ResolveCall a x]" by (auto simp: history_resolver_def)
  with acked_ok_reply[OF acked_ok_extend[OF assms] unresolved(1)] unresolved(3) show ?thesis by simp
next
  case (routed a r w)
  then have w: "w = fw_world ru @ [ResolveCall a (Inr (Some r))]" by (auto simp: history_resolver_def)
  have "resolved [ResolveCall a (Inr (Some r))] a r" by (simp add: resolved_def)
  note ok = acked_ok_recipient[OF assms this]
  show ?thesis unfolding routed(3) w by (rule acked_ok_reply[OF ok]) (simp add: forwarded_line_def)
qed

lemma handleHello_acked:
  assumes "acked_ok ru"
  shows "acked_ok (forwarding_handleHello srv ru)"
proof -
  have l: "''250-'' @ h \<noteq> forwarded_line" "''250-SIZE '' @ h \<noteq> forwarded_line" "''250 OK'' \<noteq> forwarded_line" for h
    by (simp_all add: forwarded_line_def)
  show ?thesis
    unfolding forwarding_handleHello_def foldl_Cons foldl_Nil by (intro acked_ok_reply[OF _ l(3)] acked_ok_reply[OF _ l(2)] acked_ok_reply[OF _ l(1)] assms)
qed

lemma handleMail_acked:
  assumes "acked_ok ru"
  shows "acked_ok (forwarding_handleMail M argument ru)"
proof (cases "parseSMTPReversePath M argument ''FROM:''")
  case (Inl e)
  with assms show ?thesis by (simp add: forwarding_handleMail_def acked_ok_reply forwarded_line_def)
next
  case (Inr p)
  have "acked_ok (ru\<lparr>fw_session := \<lparr>fws_mailFrom = Some p, fws_recipients = [], fws_routesByAddress = []\<rparr>\<rparr>)"
    by (rule acked_ok_forget[OF assms, where ext = "[]"]) simp_all
  from acked_ok_reply[OF this, of "''250 OK''"] Inr show ?thesis by (simp add: forwarding_handleMail_def forwarded_line_def)
qed

lemma handleCommand_acked:
  assumes "acked_ok ru" "forwarding_handleCommand M (history_forwarding cfg R F) line ru = (b, ru')"
  shows "acked_ok ru'"
  using assms(2)
proof (cases rule: forwarding_handleCommand_cases)
  case reset
  have "acked_ok (session_reset ru)"
    by (rule acked_ok_forget[OF assms(1), where ext = "[]"]) (simp_all add: newSessionState_def)
  with reset show ?thesis by (simp add: acked_ok_reply forwarded_line_def)
qed (use assms(1) in \<open>simp_all add: handleData_acked handleRecipient_acked handleHello_acked handleMail_acked acked_ok_reply\<close>)

text \<open>C2. No mail is lost after an acknowledgement: the history of a session splits into as many blocks as it
  wrote \<open>250 Message accepted for forwarding\<close>, and some calls after them, so that each block ends with the
  successful forwarding of one message along a route for the address every one of its recipients was resolved to.\<close>

theorem acknowledged_messages_forwarded:
  assumes "forwarding_NewServer cfg = Inr (srv, lm)" "fc_RouteResolver cfg = Some (history_resolver R)"
    "fc_Forwarder cfg = Some (history_forwarder F)" "cn_out c = []"
  shows "\<exists>ru segs rest. forwarding_handleConnection M srv c [] = Some ru \<and> fw_world ru = concat segs @ rest
    \<and> list_all forwarded_block segs
    \<and> length segs = count_list (cn_out (fw_conn ru)) ''250 Message accepted for forwarding''"
proof -
  note s = forwarding_NewServer_history[OF assms(1-3)]
  have "\<exists>ru. forwarding_handleConnection M srv c [] = Some ru \<and> acked_ok ru"
  proof (rule forwarding_handleConnection_rule)
    have "acked_ok \<lparr>fw_conn = c, fw_session = newSessionState, fw_world = []\<rparr>"
      unfolding acked_ok_def using assms(4)
      by (intro conjI exI[of _ "[]"]) (simp_all add: newSessionState_def keyed_def)
    then show "acked_ok (forwarding_reply (forwarding_greeting srv) \<lparr>fw_conn = c, fw_session = newSessionState, fw_world = []\<rparr>)"
      by (rule acked_ok_reply) (simp add: forwarded_line_def forwarding_greeting_def)
  next
    fix ru c' l
    assume "acked_ok ru" "ReadString (fw_conn ru) = (l, c')"
    then show "acked_ok (ru\<lparr>fw_conn := c'\<rparr>)" by (simp add: acked_ok_conn ReadString_out)
  next
    fix ru line b ru'
    assume "acked_ok ru" "forwarding_handleCommand M srv line ru = (b, ru')"
    then show "acked_ok ru'" unfolding s by (rule handleCommand_acked)
  qed
  then show ?thesis unfolding acked_ok_def forwarded_line_def by blast
qed

text \<open>A forwarding session gives its slot back: serving an accepted connection returns, and the counters of
  the session limiter, in total and per host, are then what they were before.\<close>

lemma forwarding_session_ends:
  assumes "0 \<le> fl_activeSessions lm" "\<And>h. 0 \<le> go_get (fl_activeSessionsByHost lm) 0 h"
  shows "\<exists>c' lm' w'. forwarding_serveConnection M srv c host lm w = Some (c', lm', w')
    \<and> fl_activeSessions lm' = fl_activeSessions lm
    \<and> (\<forall>h. go_get (fl_activeSessionsByHost lm') 0 h = go_get (fl_activeSessionsByHost lm) 0 h)"
proof (cases "limiter_acquire host lm")
  case (Inl e)
  then show ?thesis by (simp add: forwarding_serveConnection_def)
next
  case (Inr p)
  obtain k lm1 where p: "p = (k, lm1)" by fastforce
  have "\<exists>ru. forwarding_handleConnection M srv c w = Some ru \<and> True"
    by (rule forwarding_handleConnection_rule) simp_all
  then obtain ru where h: "forwarding_handleConnection M srv c w = Some ru" by blast
  have "fl_activeSessions (limiter_release k lm1) = fl_activeSessions lm"
    "go_get (fl_activeSessionsByHost (limiter_release k lm1)) 0 x = go_get (fl_activeSessionsByHost lm) 0 x" for x
    using Inr p assms(1) assms(2)[of k]
    by (auto simp: limiter_release_def limiter_acquire_def Let_def go_get_def split: if_splits option.splits)
  with h Inr p show ?thesis by (simp add: forwarding_serveConnection_def)
qed

subsection \<open>A forwarding session\<close>

definition inbound_route :: route where
  "inbound_route = \<lparr>rt_address = \<lparr>addr_value = ''r@p'', addr_domain = ''p''\<rparr>, rt_forwardTo = [\<lparr>addr_value = ''c@d'', addr_domain = ''d''\<rparr>]\<rparr>"

definition inbound_resolve :: "forwarding_history \<Rightarrow> address \<Rightarrow> route option result" where
  "inbound_resolve log a = Inr (if addr_value a = ''r@p'' then Some inbound_route else None)"

definition inbound_config :: "forwarding_history forwarding_config" where
  "inbound_config =
     \<lparr>fc_Hostname = ''h'', fc_ListenAddr = '':25'', fc_MaxMessageBytes = 0, fc_MaxRecipients = 0, fc_CommandTimeout = 0,
      fc_MaxConcurrentSessions = 0, fc_MaxSessionsPerRemoteHost = 0, fc_RouteResolver = Some (history_resolver inbound_resolve),
      fc_Forwarder = Some (history_forwarder (\<lambda>log r m. Inr ())), fc_Logger = True\<rparr>"

definition inbound_server :: "forwarding_history forwarding_server" where
  "inbound_server = history_forwarding (forwardingDefaults inbound_config) inbound_resolve (\<lambda>log r m. Inr ())"

definition inbound_connection :: connection where
  "inbound_connection =
     \<lparr>cn_in = ''MAIL FROM:<>'' @ CRLF @ ''RCPT TO:<r@p>'' @ CRLF @ ''DATA'' @ CRLF @ ''hi'' @ CRLF @ ''.'' @ CRLF @ ''QUIT'' @ CRLF,
      cn_later = [], cn_tls = None, cn_out = [], cn_writes = None\<rparr>"

definition inbound_message :: forward_message where
  "inbound_message = \<lparr>fm_From = \<lparr>rvp_address = no_address\<rparr>, fm_Recipients = [\<lparr>addr_value = ''r@p'', addr_domain = ''p''\<rparr>], fm_Data = ''hi'' @ CRLF\<rparr>"

definition inbound_calls :: forwarding_history where
  "inbound_calls = [ResolveCall \<lparr>addr_value = ''r@p'', addr_domain = ''p''\<rparr> (Inr (Some inbound_route)), ForwardCall inbound_route inbound_message (Inr ())]"

lemma inbound_NewServer: "\<exists>lm. forwarding_NewServer inbound_config = Inr (inbound_server, lm)"
proof -
  have "TrimSpace ''h'' \<noteq> ''''" "TrimSpace '':25'' \<noteq> ''''" by code_simp+
  then show ?thesis
    by (simp add: forwarding_NewServer_def inbound_config_def inbound_server_def history_forwarding_def Let_def)
qed

lemma inbound_session:
  "map_option (\<lambda>ru. (fw_world ru, count_list (cn_out (fw_conn ru)) ''250 Message accepted for forwarding''))
     (forwarding_handleConnection demo_mail inbound_server inbound_connection []) = Some (inbound_calls, 1)"
  by code_simp

lemma inbound_result:
  obtains ru where "forwarding_handleConnection demo_mail inbound_server inbound_connection [] = Some ru" "fw_world ru = inbound_calls"
    "count_list (cn_out (fw_conn ru)) ''250 Message accepted for forwarding'' = 1"
  using inbound_session by (auto simp: map_option_case split: option.splits)

lemmas inbound_laws = inbound_config_def[THEN arg_cong[where f = fc_RouteResolver], simplified]
  inbound_config_def[THEN arg_cong[where f = fc_Forwarder], simplified]

theorem forwarded_messages_routed_witness:
  "\<exists>a \<in> set (fm_Recipients inbound_message). ResolveCall a (Inr (Some inbound_route)) \<in> set [ResolveCall \<lparr>addr_value = ''r@p'', addr_domain = ''p''\<rparr> (Inr (Some inbound_route))]"
proof -
  obtain lm where n: "forwarding_NewServer inbound_config = Inr (inbound_server, lm)" using inbound_NewServer by blast
  obtain ru where r: "forwarding_handleConnection demo_mail inbound_server inbound_connection [] = Some ru" "fw_world ru = inbound_calls"
    by (rule inbound_result)
  have s: "inbound_calls = [ResolveCall \<lparr>addr_value = ''r@p'', addr_domain = ''p''\<rparr> (Inr (Some inbound_route))] @ ForwardCall inbound_route inbound_message (Inr ()) # []"
    by (simp add: inbound_calls_def)
  from forwarded_messages_routed[OF n inbound_laws, of demo_mail inbound_connection] r s show ?thesis by (metis option.inject)
qed

theorem acknowledged_messages_forwarded_witness:
  "\<exists>seg rest. inbound_calls = seg @ rest \<and> forwarded_block seg"
proof -
  obtain lm where n: "forwarding_NewServer inbound_config = Inr (inbound_server, lm)" using inbound_NewServer by blast
  have "cn_out inbound_connection = []" by (simp add: inbound_connection_def)
  from acknowledged_messages_forwarded[OF n inbound_laws this, of demo_mail] obtain ru segs rest where
    r: "forwarding_handleConnection demo_mail inbound_server inbound_connection [] = Some ru" "fw_world ru = concat segs @ rest"
    "list_all forwarded_block segs" "length segs = count_list (cn_out (fw_conn ru)) ''250 Message accepted for forwarding''" by blast
  moreover obtain ru' where "forwarding_handleConnection demo_mail inbound_server inbound_connection [] = Some ru'" "fw_world ru' = inbound_calls"
    "count_list (cn_out (fw_conn ru')) ''250 Message accepted for forwarding'' = 1" by (rule inbound_result)
  ultimately have w: "inbound_calls = concat segs @ rest" "length segs = 1" by simp_all
  from w(2) obtain seg where "segs = [seg]" by (auto simp: length_Suc_conv)
  with w(1) r(3) show ?thesis by auto
qed

end
