(* ===== verification/Spec2Isabelle.thy ===== *)
theory Spec2Isabelle
  imports Notification_Retry Identity_Access Forwarding_Rewrite Forwarding_Session
begin

text \<open>
  \<^bold>\<open>Pinguin: a verification library.\<close>

  Pinguin is a multi-tenant notification service written in Go. A gRPC server and an HTTP API
  (\<open>cmd/server\<close>, \<open>internal/httpapi\<close>) accept e-mail and SMS notifications for a tenant. A notification
  service (\<open>internal/service\<close>) validates, stores, sends, retries, reschedules and cancels them.
  Tenants and their encrypted credentials live in \<open>internal/tenant\<close>. Two SMTP servers accept mail: a
  submission server for authenticated identities (\<open>internal/smtpsubmission\<close>, with the identities of
  \<open>internal/smtpidentity\<close>) and a forwarding server (\<open>internal/smtpforwarding\<close>).

  \<^bold>\<open>How the code is modelled.\<close> A Go function is a HOL function of the same name. A fallible one returns
  \<open>go_error + 'a\<close>; one that also changes state is an \<open>('w, 'a) io\<close>, a function from a state to a result
  and the next state, and \<open>io_bind\<close> is the early return on an error, so the changes made before an error
  stay. Strings and byte slices are lists of bytes, times are nanoseconds, pointers are options, structs
  are records, and loops are recursive functions; the command loops of the SMTP servers are
  \<open>partial_function (option)\<close>, where not returning is \<open>None\<close>, and are proved to return. What is not in
  the repository is an argument: GORM tables (\<open>gorm_table\<close>, with the laws of \<open>Gorm\<close> as hypotheses),
  \<open>net/mail\<close>, \<open>net/smtp\<close>, AES-GCM, HMAC, YAML, DNS, the clock, random bytes and the HTTP client.
  Every set of hypotheses about such an argument is met by a concrete instance, on which the witnesses
  evaluate the code.

  \<^bold>\<open>Theories.\<close>

  \<^item> \<open>Pinguin_Prelude\<close>: errors (\<open>errors.Is\<close>, \<open>errors.As\<close>), the sequencing operators and their rules,
    stable sorting, removal of duplicates, list lemmas.
  \<^item> \<open>Go_Strings\<close>, \<open>Go_Base64\<close>: the parts of Go's \<open>strings\<close>, \<open>strconv\<close>, \<open>unicode/utf8\<close> and
    \<open>encoding/base64\<close> the code uses, with the idempotence and round trip lemmas the components need.
  \<^item> \<open>Gorm\<close>: tables, the laws of their calls, and \<open>list_table\<close>, which satisfies them.
  \<^item> \<open>Smtp_Address\<close>, \<open>Submission_Types\<close>: mailbox addresses and the types the SMTP servers exchange.
  \<^item> \<open>Rate_Limits\<close>: the contracts \<open>sliding_log\<close> and \<open>session_pool\<close>; \<open>Smtp_Throttle\<close>: the throttle of the
    submission server (\<open>throttle.go\<close>) and the session limiter of the forwarding server, which meet them.
    In no window are more messages admitted than the limit, and the decisions are those of a log that is
    never pruned.
  \<^item> \<open>Notification_Model\<close> (\<open>internal/model\<close>): requests, rows, responses, filters, cursors, pages and
    queries. Walking the pages lists every matching notification once.
  \<^item> \<open>Tenant\<close>, \<open>Tenant_Bootstrap\<close> (\<open>internal/tenant\<close>): rows, secrets, the repository with its caches
    (contract \<open>read_through\<close>), provisioning from configuration in one transaction. The caches never show,
    a bootstrap is all or nothing, and what it wrote is what the repository then resolves.
  \<^item> \<open>Pinguin_Config\<close> (\<open>internal/config\<close>): expansion of the environment, decoding, normalisation and
    validation of the configuration file.
  \<^item> \<open>Smtp_Client\<close>: the library's SMTP client and the calculus of dialogues with it; \<open>Email_Message\<close>
    (\<open>email_service.go\<close>, \<open>sms_service.go\<close>): the MIME message and the two senders.
  \<^item> \<open>Notification_Service\<close>, \<open>Notification_Retry\<close> (\<open>notification_service.go\<close>,
    \<open>notification_retry.go\<close>): the operations on notifications and what the retry scheduler is given.
    \<open>service_step\<close> interleaves requests of any tenant with any calls of the scheduler; no execution
    loses a notification or changes its content.
  \<^item> \<open>Smtp_Relay\<close> (\<open>relay.go\<close>, \<open>direct_relay.go\<close>): the two relays, which meet \<open>relay_contract\<close>.
  \<^item> \<open>Smtp_Submission\<close>, \<open>Submission_Session\<close> (\<open>smtpsubmission/server.go\<close>): a session, command by
    command, and its guarantees: it ends, nothing is authenticated or relayed in the clear, only the
    mailbox of the authenticated identity sends, within the limits, and a message is acknowledged
    exactly when the relay took it. \<open>connection_relation\<close> is the contract of a relation between
    connections that every read and write keeps.
  \<^item> \<open>Sender_Domain\<close>, \<open>Smtp_Identity\<close>, \<open>Identity_Access\<close> (\<open>internal/smtpidentity\<close>): sender domains
    and their DNS checks, the identity repository and service, and who may authenticate, that revoked
    credentials fail, that owners are isolated and that forwarding routes are those configured.
  \<^item> \<open>Smtp_Forwarding\<close>, \<open>Forwarding_Rewrite\<close>, \<open>Forwarding_Session\<close> (\<open>internal/smtpforwarding\<close>): routes,
    the rewriting of a forwarded message, and the sessions of the forwarding server, through the
    contract \<open>forwarding_service\<close> between the server, its resolver and its forwarder.

  \<^bold>\<open>Bounds and termination.\<close> No fuel is used. The reader of a line keeps the 4096 byte buffer of
  \<open>bufio.Reader\<close>. A session loop ends because each round takes input from the peer or an entry off the
  list of what the peer sends after a missed deadline (measure \<open>session_size\<close>); a peer that sends for
  ever is the limit of longer and longer inputs, for each of which the properties hold.

  \<^bold>\<open>Not modelled.\<close>

  \<^item> Listeners, goroutines and shutdown of the servers (\<open>Start\<close>, \<open>Serve\<close>): network I/O of the library.
    What concurrent sessions share, the throttle and the limiter, is modelled under any interleaving.
  \<^item> \<open>cmd/server/main.go\<close> and \<open>internal/httpapi\<close>: wiring and transport over gRPC and Gin.
  \<^item> \<open>internal/doctor\<close>, \<open>cmd/doctor\<close>, \<open>pkg/client\<close>, \<open>cmd/client\<close>, \<open>pkg/attachments\<close>: command line
    tools outside the service.
  \<^item> \<open>internal/db\<close>, \<open>pkg/logging\<close>: opening SQLite and logging, calls of libraries only.
  \<^item> \<open>pkg/grpcapi\<close>: generated by the protocol compiler. Log output is left out everywhere.
  \<^item> The case mapping of non-ASCII letters in \<open>ToLower\<close>, \<open>ToUpper\<close> and \<open>EqualFold\<close>.
\<close>

end
